(* ===== verification/SDK_Prelude.thy ===== *)
theory SDK_Prelude
  imports
    Complex_Main
    "HOL-Library.Word"
    "HOL-Library.Char_ord"
    "HOL-Library.List_Lexorder"
    "HOL-Library.Product_Lexorder"
    "HOL-Library.Multiset"
    "HOL-Library.AList"
begin

text \<open>
  What the components of the development share: the collections of simplification rules, the
  model of the parts of Go's standard library the sources use (instants and durations, signed
  64-bit wrap-around, \<open>strings.Cut\<close>, \<open>strings.Split\<close>, \<open>strconv.ParseInt\<close>,
  \<open>strconv.FormatInt\<close>), and the interfaces several components implement: a machine that keeps
  an invariant, a machine that only moves forward, a three-way comparison, a capped doubling
  delay. Each interface is a locale; the components interpret it on their own definitions.
\<close>

named_theorems guard_simps \<open>unfolding rules of the guards a state machine tests\<close>
named_theorems table_simps \<open>what a statement on a table leaves in each of its columns\<close>

section \<open>Time\<close>

text \<open>
  An instant is a number of nanoseconds and a duration a difference of two of them.
  Go's \<open>Time.Sub\<close> saturates at the largest and smallest 64-bit duration.
\<close>

type_synonym instant = int
type_synonym duration = int

abbreviation (input) Millisecond :: duration where "Millisecond \<equiv> 1000000"
abbreviation (input) Second :: duration where "Second \<equiv> 1000000000"
abbreviation (input) Minute :: duration where "Minute \<equiv> 60000000000"
abbreviation (input) Hour :: duration where "Hour \<equiv> 3600000000000"

definition maxDuration :: duration where "maxDuration = 9223372036854775807"
definition minDuration :: duration where "minDuration = -9223372036854775808"

definition time_Sub :: "instant \<Rightarrow> instant \<Rightarrow> duration" where
  "time_Sub t u = max minDuration (min maxDuration (t - u))"

lemma time_Sub_gt: "d < maxDuration \<Longrightarrow> minDuration \<le> d \<Longrightarrow> time_Sub t u > d \<longleftrightarrow> t - u > d"
  by (auto simp: time_Sub_def)

lemma time_Sub_lt: "d \<le> maxDuration \<Longrightarrow> minDuration < d \<Longrightarrow> time_Sub t u < d \<longleftrightarrow> t - u < d"
  by (auto simp: time_Sub_def)

lemma time_Sub_exact:
  "minDuration \<le> t - u \<Longrightarrow> t - u \<le> maxDuration \<Longrightarrow> time_Sub t u = t - u"
  by (simp add: time_Sub_def)

text \<open>Signed 64-bit arithmetic wraps around: the value a 64-bit variable keeps of an integer.\<close>

definition wrap64 :: "int \<Rightarrow> int" where
  "wrap64 n = (n + 9223372036854775808) mod 18446744073709551616 - 9223372036854775808"

lemma wrap64_range: "- (2 ^ 63) \<le> wrap64 n \<and> wrap64 n < 2 ^ 63"
  by (simp add: wrap64_def)

lemma wrap64_id: "- (2 ^ 63) \<le> n \<Longrightarrow> n < 2 ^ 63 \<Longrightarrow> wrap64 n = n"
  by (simp add: wrap64_def)

lemma wrap64_sint: "wrap64 n = sint (word_of_int n :: 64 word)"
proof -
  have "wrap64 n = signed_take_bit 63 n"
    by (simp add: wrap64_def signed_take_bit_eq_take_bit_shift take_bit_eq_mod)
  then show ?thesis by (simp add: sint_sbintrunc')
qed

section \<open>Strings and numbers\<close>

text \<open>
  \<open>strings.Cut\<close> around the first occurrence of a one-character separator: what is before it,
  what is after it, and whether it occurs.
\<close>

fun cut :: "char \<Rightarrow> string \<Rightarrow> string \<times> string \<times> bool" where
  "cut sep [] = ([], [], False)"
| "cut sep (c # cs) =
     (if c = sep then ([], cs, True)
      else case cut sep cs of (front, rest, found) \<Rightarrow> (c # front, rest, found))"

lemma cut_append: "sep \<notin> set xs \<Longrightarrow> cut sep (xs @ sep # ys) = (xs, ys, True)"
  by (induction xs) auto

lemma cut_absent: "sep \<notin> set xs \<Longrightarrow> cut sep xs = (xs, [], False)"
  by (induction xs) auto

lemma cut_found: "cut sep s = (xs, ys, True) \<Longrightarrow> s = xs @ sep # ys \<and> sep \<notin> set xs"
  by (induction sep s arbitrary: xs ys rule: cut.induct) (auto split: if_splits prod.splits)

text \<open>\<open>strings.Split\<close> by a one-character separator: never the empty list.\<close>

fun split_on :: "char \<Rightarrow> string \<Rightarrow> string list" where
  "split_on sep [] = [[]]"
| "split_on sep (c # cs) =
     (if c = sep then [] # split_on sep cs
      else case split_on sep cs of [] \<Rightarrow> [[c]] | t # ts \<Rightarrow> (c # t) # ts)"

lemma split_on_nonempty [simp]: "split_on sep s \<noteq> []"
  by (induction s) (auto split: list.splits)

lemma split_on_token: "sep \<notin> set xs \<Longrightarrow> split_on sep xs = [xs]"
  by (induction xs) auto

lemma split_on_append: "sep \<notin> set xs \<Longrightarrow> split_on sep (xs @ sep # ys) = xs # split_on sep ys"
  by (induction xs) auto

definition has_prefix :: "string \<Rightarrow> string \<Rightarrow> bool" where
  "has_prefix s p \<longleftrightarrow> take (length p) s = p"

lemma has_prefix_iff: "has_prefix s p \<longleftrightarrow> (\<exists>r. s = p @ r)"
  by (auto simp: has_prefix_def) (metis append_take_drop_id)

definition has_suffix :: "string \<Rightarrow> string \<Rightarrow> bool" where
  "has_suffix s p \<longleftrightarrow> length p \<le> length s \<and> drop (length s - length p) s = p"

definition is_digit :: "char \<Rightarrow> bool" where
  "is_digit c \<longleftrightarrow> 48 \<le> (of_char c :: nat) \<and> (of_char c :: nat) \<le> 57"

definition digit_val :: "char \<Rightarrow> nat" where
  "digit_val c = of_char c - 48"

definition digit_char :: "nat \<Rightarrow> char" where
  "digit_char d = char_of (48 + d)"

lemma digit_char_val [simp]: "d < 10 \<Longrightarrow> is_digit (digit_char d) \<and> digit_val (digit_char d) = d"
  by (simp add: is_digit_def digit_val_def digit_char_def)

datatype num_error = ErrSyntax | ErrRange

text \<open>
  \<open>strconv.ParseUint(s, 10, 64)\<close>: the value returned beside an error matters, because callers
  ignore the error: 0 for a syntax error, the largest value for a number out of range. The
  digit is looked at before the overflow, and the loop stops at the first of the two.
\<close>

fun parse_uint_loop :: "nat \<Rightarrow> string \<Rightarrow> nat \<times> num_error option" where
  "parse_uint_loop n [] = (n, None)"
| "parse_uint_loop n (c # cs) =
     (if \<not> is_digit c then (0, Some ErrSyntax)
      else if n * 10 + digit_val c > 18446744073709551615 then (18446744073709551615, Some ErrRange)
      else parse_uint_loop (n * 10 + digit_val c) cs)"

definition ParseUint :: "string \<Rightarrow> nat \<times> num_error option" where
  "ParseUint s = (if s = [] then (0, Some ErrSyntax) else parse_uint_loop 0 s)"

definition ParseInt :: "string \<Rightarrow> int \<times> num_error option" where
  "ParseInt s =
     (case s of
        [] \<Rightarrow> (0, Some ErrSyntax)
      | c # cs \<Rightarrow>
          (let neg = (c = CHR ''-'');
               body = (if c = CHR ''+'' \<or> neg then cs else s);
               (un, err) = ParseUint body
           in if err = Some ErrSyntax then (0, Some ErrSyntax)
              else if \<not> neg \<and> un \<ge> 9223372036854775808 then (9223372036854775807, Some ErrRange)
              else if neg \<and> un > 9223372036854775808 then (-9223372036854775808, Some ErrRange)
              else if neg then (- int un, None) else (int un, None)))"

text \<open>\<open>strconv.FormatInt(n, 10)\<close>.\<close>

fun format_nat :: "nat \<Rightarrow> string" where
  "format_nat n = (if n < 10 then [digit_char n] else format_nat (n div 10) @ [digit_char (n mod 10)])"

declare format_nat.simps [simp del]

definition FormatInt :: "int \<Rightarrow> string" where
  "FormatInt n = (if n < 0 then CHR ''-'' # format_nat (nat (- n)) else format_nat (nat n))"

lemma format_nat_digits: "c \<in> set (format_nat n) \<Longrightarrow> is_digit c"
proof (induction n rule: format_nat.induct)
  case (1 n)
  then show ?case
    by (cases "n < 10") (auto simp: format_nat.simps [of n])
qed

lemma format_nat_nonempty [simp]: "format_nat n \<noteq> []"
  by (subst format_nat.simps) simp

lemma is_digit_neq: "is_digit c \<Longrightarrow> c \<noteq> CHR ''-'' \<and> c \<noteq> CHR ''+'' \<and> c \<noteq> CHR ''.''"
  by (auto simp: is_digit_def)

lemma parse_uint_loop_append:
  "parse_uint_loop n xs = (m, None) \<Longrightarrow> parse_uint_loop n (xs @ ys) = parse_uint_loop m ys"
  by (induction n xs rule: parse_uint_loop.induct) (auto split: if_splits)

lemma parse_format_nat:
  "n \<le> 18446744073709551615 \<Longrightarrow> parse_uint_loop 0 (format_nat n) = (n, None)"
proof (induction n rule: format_nat.induct)
  case (1 n)
  show ?case
  proof (cases "n < 10")
    case True
    then show ?thesis by (simp add: format_nat.simps [of n])
  next
    case False
    with 1 have "parse_uint_loop 0 (format_nat (n div 10)) = (n div 10, None)" by simp
    with False "1.prems" show ?thesis
      by (simp add: format_nat.simps [of n] parse_uint_loop_append)
  qed
qed

text \<open>A number in the 64-bit range is read back as it was written.\<close>

lemma ParseInt_FormatInt:
  assumes "-9223372036854775808 \<le> n" "n < 9223372036854775808"
  shows "ParseInt (FormatInt n) = (n, None)"
proof (cases "n < 0")
  case True
  with assms have "ParseUint (format_nat (nat (- n))) = (nat (- n), None)"
    by (simp add: ParseUint_def parse_format_nat)
  with True assms show ?thesis by (simp add: ParseInt_def FormatInt_def)
next
  case False
  obtain c cs where ccs: "format_nat (nat n) = c # cs"
    by (cases "format_nat (nat n)") auto
  then have "is_digit c" using format_nat_digits [of c "nat n"] by simp
  moreover from False assms have "ParseUint (c # cs) = (nat n, None)"
    using parse_format_nat [of "nat n"] by (simp add: ParseUint_def ccs [symmetric])
  ultimately show ?thesis using False assms
    by (auto simp: ParseInt_def FormatInt_def ccs dest: is_digit_neq)
qed

lemma FormatInt_no_dot: "CHR ''.'' \<notin> set (FormatInt n)"
  by (auto simp: FormatInt_def dest!: format_nat_digits dest: is_digit_neq)

section \<open>Tables\<close>

text \<open>
  A table is an association list by primary key: \<open>AList.update\<close> is an insert or an upsert,
  \<open>AList.map_entry\<close> an update of one row.
\<close>

lemma map_entry_eq:
  "map_of (AList.map_entry i f xs) = (map_of xs)(i := map_option f (map_of xs i))"
  by (induction xs) (auto simp: fun_eq_iff)

lemma map_fst_map_entry [simp]: "map fst (AList.map_entry i f xs) = map fst xs"
  by (induction xs) auto

lemma map_entry_update: "AList.map_entry i f (AList.update i r xs) = AList.update i (f r) xs"
  by (induction xs) auto

lemma update_new: "k \<notin> fst ` set m \<Longrightarrow> AList.update k v m = m @ [(k, v)]"
  by (induction m) auto

lemma foldl_update_append:
  assumes "distinct (map k xs)" "k ` set xs \<inter> fst ` set m = {}"
  shows "foldl (\<lambda>m e. AList.update (k e) e m) m xs = m @ map (\<lambda>e. (k e, e)) xs"
  using assms
proof (induction xs arbitrary: m)
  case (Cons x xs)
  then have "AList.update (k x) x m = m @ [(k x, x)]" by (auto intro: update_new)
  with Cons show ?case by auto
qed simp

lemma foldl_update_distinct:
  "distinct (map k xs) \<Longrightarrow> foldl (\<lambda>m e. AList.update (k e) e m) [] xs = map (\<lambda>e. (k e, e)) xs"
  by (simp add: foldl_update_append)

section \<open>Interfaces\<close>

text \<open>
  A machine is a step function; the state after a sequence of events is \<open>foldl step s es\<close>.
  Every component that keeps an invariant gives the one-step law, the runs follow here.
\<close>

locale invariant_machine =
  fixes step :: "'s \<Rightarrow> 'e \<Rightarrow> 's" and inv :: "'s \<Rightarrow> bool"
  assumes step_inv: "inv s \<Longrightarrow> inv (step s e)"
begin

lemma run_inv: "inv s \<Longrightarrow> inv (foldl step s es)"
  by (induction es arbitrary: s) (auto intro: step_inv)

lemma run_inv_prefix: "inv s \<Longrightarrow> es = xs @ ys \<Longrightarrow> inv (foldl step s xs)"
  by (simp add: run_inv)

end

text \<open>A machine whose state only moves up in a preorder.\<close>

locale forward_machine =
  fixes step :: "'s \<Rightarrow> 'e \<Rightarrow> 's" and le :: "'s \<Rightarrow> 's \<Rightarrow> bool"
  assumes le_refl: "le s s"
    and le_trans: "le s t \<Longrightarrow> le t u \<Longrightarrow> le s u"
    and step_le: "le s (step s e)"
begin

lemma run_le: "le s (foldl step s es)"
  by (induction es arbitrary: s) (auto intro: le_refl le_trans step_le)

lemma run_mono: "le (foldl step s xs) (foldl step s (xs @ ys))"
  by (simp add: run_le)

end

text \<open>
  A machine with states it never leaves: once the state satisfies \<open>final\<close>, every further
  event leaves it as it is.
\<close>

locale absorbing_machine =
  fixes step :: "'s \<Rightarrow> 'e \<Rightarrow> 's" and final :: "'s \<Rightarrow> bool"
  assumes final_step: "final s \<Longrightarrow> step s e = s"
begin

lemma run_final: "final s \<Longrightarrow> foldl step s es = s"
  by (induction es) (auto simp: final_step)

lemma run_final_suffix: "final (foldl step s xs) \<Longrightarrow> foldl step s (xs @ ys) = foldl step s xs"
  by (simp add: run_final)

end

text \<open>
  A three-way comparison (-1, 0 or 1) that orders its arguments by a key. The sources write
  the lexicographic order of epochs and positions several times by hand; each is shown to be
  the order of its key.
\<close>

locale three_way =
  fixes cmp :: "'a \<Rightarrow> 'a \<Rightarrow> int" and key :: "'a \<Rightarrow> 'k::linorder"
  assumes cmp_key: "cmp a b = (if key a < key b then -1 else if key b < key a then 1 else 0)"
begin

lemma cmp_lt: "cmp a b = -1 \<longleftrightarrow> key a < key b"
  by (auto simp: cmp_key)

lemma cmp_gt: "cmp a b = 1 \<longleftrightarrow> key b < key a"
  by (auto simp: cmp_key)

lemma cmp_eq: "cmp a b = 0 \<longleftrightarrow> key a = key b"
  by (auto simp: cmp_key)

lemma cmp_neg: "cmp a b < 0 \<longleftrightarrow> key a < key b"
  by (auto simp: cmp_key)

lemma cmp_pos: "0 < cmp a b \<longleftrightarrow> key b < key a"
  by (auto simp: cmp_key)

lemma cmp_antisym: "cmp b a = - cmp a b"
  by (auto simp: cmp_key)

lemma cmp_trans: "cmp a b \<le> 0 \<Longrightarrow> cmp b c \<le> 0 \<Longrightarrow> cmp a c \<le> 0"
  by (auto simp: cmp_key split: if_splits)

end

text \<open>A strict comparison by a key.\<close>

locale less_by_key =
  fixes less :: "'a \<Rightarrow> 'a \<Rightarrow> bool" and key :: "'a \<Rightarrow> 'k::linorder"
  assumes less_key: "less a b \<longleftrightarrow> key a < key b"
begin

lemma less_irrefl: "\<not> less a a"
  by (simp add: less_key)

lemma less_trans: "less a b \<Longrightarrow> less b c \<Longrightarrow> less a c"
  by (auto simp: less_key)

lemma less_total: "less a b \<or> less b a \<or> key a = key b"
  by (auto simp: less_key)

end

text \<open>
  A delay that doubles from \<open>start\<close> with the number of failures and stops at \<open>cap\<close>.
  Three components back off this way, one by a shift, one by a loop, one by both.
\<close>

locale capped_doubling =
  fixes delay :: "int \<Rightarrow> int" and start cap :: int
  assumes start_pos: "0 < start"
    and start_cap: "start \<le> cap"
    and delay_spec: "1 \<le> n \<Longrightarrow> delay n = min cap (start * 2 ^ nat (n - 1))"
begin

lemma delay_first: "delay 1 = start"
  using start_cap by (simp add: delay_spec)

lemma delay_bounds: "1 \<le> n \<Longrightarrow> start \<le> delay n \<and> delay n \<le> cap"
proof -
  assume "1 \<le> n"
  have "start * 1 \<le> start * 2 ^ nat (n - 1)"
    using start_pos by (intro mult_left_mono) auto
  with \<open>1 \<le> n\<close> start_cap show ?thesis by (simp add: delay_spec)
qed

lemma delay_mono: "1 \<le> m \<Longrightarrow> m \<le> n \<Longrightarrow> delay m \<le> delay n"
proof -
  assume "1 \<le> m" "m \<le> n"
  then have "(2::int) ^ nat (m - 1) \<le> 2 ^ nat (n - 1)"
    by (intro power_increasing) auto
  then have "start * 2 ^ nat (m - 1) \<le> start * 2 ^ nat (n - 1)"
    using start_pos by (intro mult_left_mono) auto
  with \<open>1 \<le> m\<close> \<open>m \<le> n\<close> show ?thesis by (simp add: delay_spec)
qed

lemma delay_doubles: "1 \<le> n \<Longrightarrow> delay (n + 1) = min cap (2 * delay n)"
proof -
  assume n: "1 \<le> n"
  then have "nat (n + 1 - 1) = Suc (nat (n - 1))" by simp
  then have "start * 2 ^ nat (n + 1 - 1) = 2 * (start * 2 ^ nat (n - 1))" by simp
  with n start_pos start_cap show ?thesis
    unfolding delay_spec [OF n] by (subst delay_spec) auto
qed

lemma delay_capped: "1 \<le> n \<Longrightarrow> cap \<le> start * 2 ^ nat (n - 1) \<Longrightarrow> delay n = cap"
  by (simp add: delay_spec)

end

end
