(* ===== verification/Reserve.thy ===== *)
theory Reserve
  imports SDK_Prelude
begin

text \<open>
  A reservation participant (package \<open>reserve\<close>): the states and transitions of a branch as one
  table (\<open>lifecycle.go\<close>) and the commands on the tables \<open>be_reserve_branch\<close> and
  \<open>be_reserve_consumption\<close> (\<open>reserve.go\<close>), each run in the component's transaction. The tables
  are association lists by primary key, so that the statements compute; the component's own
  tables are an arbitrary type \<open>'c\<close>, and its callbacks (\<open>Lock\<close>, \<open>GiveBack\<close>, \<open>Changed\<close>, the
  hold's \<open>take\<close>, the consumption's \<open>use\<close>) are functions on it that may fail. The defaults of the
  columns an INSERT leaves out come from the migration, which is not part of the repository:
  they are the parameter \<open>fresh\<close>.
\<close>

section \<open>The transitions\<close>

datatype State = Held | Committed | Consumed | Released | Expired | Rejected | Cancelled | Absent

definition Ended :: "State \<Rightarrow> bool" where
  "Ended s \<longleftrightarrow> s \<noteq> Held \<and> s \<noteq> Committed \<and> s \<noteq> Absent"

datatype Command =
    OnQuery | OnConfirm | OnCancel | OnExpire
  | OnHoldEnough | OnHoldShort | OnHoldSame | OnHoldOther
  | OnConsumeWithin | OnConsumeExact | OnConsumeBeyond | OnConsumeUsedSame | OnConsumeUsedOther
  | OtherCommand string

datatype Resource = Untouched | Takes | GivesBack | Consumes

datatype Refusal = NoBranch | NotCommitted | BeyondRemaining

record Decision =
  dec_To :: State
  dec_Conflict :: bool
  dec_Refused :: "Refusal option"
  dec_Resource :: Resource
  dec_Changed :: bool

abbreviation stay :: "State \<Rightarrow> Decision" where
  "stay s \<equiv> \<lparr>dec_To = s, dec_Conflict = False, dec_Refused = None, dec_Resource = Untouched, dec_Changed = False\<rparr>"

abbreviation conflict :: "State \<Rightarrow> Decision" where
  "conflict s \<equiv> \<lparr>dec_To = s, dec_Conflict = True, dec_Refused = None, dec_Resource = Untouched, dec_Changed = False\<rparr>"

abbreviation refuse :: "State \<Rightarrow> Refusal \<Rightarrow> Decision" where
  "refuse s r \<equiv> \<lparr>dec_To = s, dec_Conflict = False, dec_Refused = Some r, dec_Resource = Untouched, dec_Changed = False\<rparr>"

abbreviation moves :: "State \<Rightarrow> Resource \<Rightarrow> Decision" where
  "moves s r \<equiv> \<lparr>dec_To = s, dec_Conflict = False, dec_Refused = None, dec_Resource = r, dec_Changed = True\<rparr>"

text \<open>The table of \<open>Decide\<close>; an unknown command panics, which is the value \<open>None\<close>.\<close>

definition Decide :: "State \<Rightarrow> bool \<Rightarrow> Command \<Rightarrow> Decision option" where
  "Decide s past c =
     (case c of
        OnQuery \<Rightarrow> Some (stay s)
      | OnHoldEnough \<Rightarrow> Some (if s \<noteq> Absent then stay s else moves Held Takes)
      | OnHoldShort \<Rightarrow> Some (if s \<noteq> Absent then stay s else moves Rejected Untouched)
      | OnHoldSame \<Rightarrow> Some (stay s)
      | OnHoldOther \<Rightarrow> Some (if s = Cancelled then stay s else conflict s)
      | OnConfirm \<Rightarrow>
          Some (if s \<noteq> Held then stay s
                else if past then moves Expired GivesBack
                else moves Committed Untouched)
      | OnCancel \<Rightarrow>
          Some (if s = Absent then moves Cancelled Untouched
                else if s = Held \<or> s = Committed then moves Released GivesBack
                else stay s)
      | OnExpire \<Rightarrow> Some (if s = Held \<and> past then moves Expired GivesBack else stay s)
      | OnConsumeUsedSame \<Rightarrow> Some (stay s)
      | OnConsumeUsedOther \<Rightarrow> Some (conflict s)
      | OtherCommand _ \<Rightarrow> None
      | _ \<Rightarrow>
          Some (if s = Absent then refuse s NoBranch
                else if s \<noteq> Committed then refuse s NotCommitted
                else if c = OnConsumeBeyond then refuse s BeyondRemaining
                else if c = OnConsumeExact then moves Consumed Consumes
                else moves Committed Consumes))"

section \<open>The tables and the component\<close>

record branch_row =
  row_kind :: string
  row_state :: State
  row_reason :: "string option"
  row_digest :: "string option"
  row_hold_expires_at :: "instant option"
  row_confirmed_at :: "instant option"
  row_version :: int
  row_created_at :: instant
  row_updated_at :: instant

record Branch =
  ID :: string
  Kind_of :: string
  State_of :: State
  Reason :: string
  Digest :: string
  HoldExpiresAt :: "instant option"
  ConfirmedAt :: "instant option"
  Version :: int
  CreatedAt :: instant
  UpdatedAt :: instant
  past :: bool

record Answer =
  ans_Branch :: Branch
  ans_Conflict :: bool
  ans_Refused :: "Refusal option"
  ans_Repeated :: bool

record 'c reserve_db =
  branches :: "(string \<times> branch_row) list"
  consumptions :: "(string \<times> string \<times> string) list"
  component :: 'c

text \<open>
  \<open>ErrKind\<close> is the package's own error; \<open>ErrScan\<close> is reading \<open>past\<close> of a held row whose period
  is NULL into a Go \<open>bool\<close>; \<open>ErrComponent\<close> is an error of a callback; \<open>ErrPanic\<close> is the panic of
  \<open>Decide\<close>.
\<close>

datatype 'e reserve_error = ErrKind | ErrScan | ErrPanic | ErrComponent 'e

record ('c, 'e) Kind =
  Name :: string
  Period :: duration
  Lock :: "'c \<Rightarrow> string \<Rightarrow> 'e + 'c"
  GiveBack :: "'c \<Rightarrow> Branch \<Rightarrow> 'e + 'c"
  Changed :: "'c \<Rightarrow> Branch \<Rightarrow> 'e + 'c"

type_synonym ('c, 'e) Take = "'c \<Rightarrow> 'e + (bool \<times> string \<times> 'c)"
type_synonym ('c, 'e) Use = "'c \<Rightarrow> Branch \<Rightarrow> 'e + (bool \<times> bool \<times> 'c)"

type_synonym ('c, 'e) reserve_result = "'e reserve_error + (Answer \<times> 'c reserve_db)"

definition answer :: "Branch \<Rightarrow> Answer" where
  "answer b = \<lparr>ans_Branch = b, ans_Conflict = False, ans_Refused = None, ans_Repeated = False\<rparr>"

section \<open>The commands\<close>

definition absent_branch :: "('c, 'e) Kind \<Rightarrow> string \<Rightarrow> Branch" where
  "absent_branch k i =
     \<lparr>ID = i, Kind_of = Name k, State_of = Absent, Reason = [], Digest = [], HoldExpiresAt = None,
      ConfirmedAt = None, Version = 0, CreatedAt = 0, UpdatedAt = 0, past = False\<rparr>"

definition branch_of :: "instant \<Rightarrow> string \<Rightarrow> branch_row \<Rightarrow> Branch" where
  "branch_of now i r =
     \<lparr>ID = i, Kind_of = row_kind r, State_of = row_state r,
      Reason = (case row_reason r of None \<Rightarrow> [] | Some w \<Rightarrow> w),
      Digest = (case row_digest r of None \<Rightarrow> [] | Some w \<Rightarrow> w),
      HoldExpiresAt = row_hold_expires_at r, ConfirmedAt = row_confirmed_at r,
      Version = row_version r, CreatedAt = row_created_at r, UpdatedAt = row_updated_at r,
      past = (row_state r = Held \<and>
        (case row_hold_expires_at r of None \<Rightarrow> False | Some t \<Rightarrow> t \<le> now))\<rparr>"

definition read_branch ::
  "('c, 'e) Kind \<Rightarrow> instant \<Rightarrow> 'c reserve_db \<Rightarrow> string \<Rightarrow> 'e reserve_error + Branch" where
  "read_branch k now db i =
     (case map_of (branches db) i of
        None \<Rightarrow> Inr (absent_branch k i)
      | Some r \<Rightarrow>
          if row_state r = Held \<and> row_hold_expires_at r = None then Inl ErrScan
          else if row_kind r \<noteq> Name k then Inl ErrKind
          else Inr (branch_of now i r))"

text \<open>The component publishes a branch after a change, in the same transaction.\<close>

definition publish ::
  "('c, 'e) Kind \<Rightarrow> 'c reserve_db \<Rightarrow> Branch \<Rightarrow> ('c, 'e) reserve_result" where
  "publish k db b =
     (case Changed k (component db) b of
        Inl e \<Rightarrow> Inl (ErrComponent e)
      | Inr c \<Rightarrow> Inr (answer b, db\<lparr>component := c\<rparr>))"

definition moved_row :: "instant \<Rightarrow> State \<Rightarrow> branch_row \<Rightarrow> branch_row" where
  "moved_row now to r =
     r\<lparr>row_state := to,
       row_hold_expires_at := (if to = Held then row_hold_expires_at r else None),
       row_confirmed_at :=
         (if to = Committed \<and> row_confirmed_at r = None then Some now else row_confirmed_at r),
       row_version := row_version r + 1, row_updated_at := now\<rparr>"

definition move ::
  "('c, 'e) Kind \<Rightarrow> instant \<Rightarrow> 'c reserve_db \<Rightarrow> string \<Rightarrow> State \<Rightarrow> ('c, 'e) reserve_result" where
  "move k now db i to =
     (let db' = db\<lparr>branches := AList.map_entry i (moved_row now to) (branches db)\<rparr>
      in case read_branch k now db' i of
           Inl e \<Rightarrow> Inl e
         | Inr b \<Rightarrow> publish k db' b)"

definition apply_decision ::
  "('c, 'e) Kind \<Rightarrow> instant \<Rightarrow> 'c reserve_db \<Rightarrow> Branch \<Rightarrow> Decision \<Rightarrow> ('c, 'e) reserve_result" where
  "apply_decision k now db b d =
     (case (if dec_Resource d = GivesBack then GiveBack k (component db) b else Inr (component db)) of
        Inl e \<Rightarrow> Inl (ErrComponent e)
      | Inr c \<Rightarrow>
          let db' = db\<lparr>component := c\<rparr>
          in if \<not> dec_Changed d
             then Inr (\<lparr>ans_Branch = b, ans_Conflict = dec_Conflict d, ans_Refused = dec_Refused d,
                        ans_Repeated = False\<rparr>, db')
             else move k now db' (ID b) (dec_To d))"

definition locked ::
  "('c, 'e) Kind \<Rightarrow> instant \<Rightarrow> 'c reserve_db \<Rightarrow> string \<Rightarrow> 'e reserve_error + (Branch \<times> 'c reserve_db)" where
  "locked k now db i =
     (case read_branch k now db i of
        Inl e \<Rightarrow> Inl e
      | Inr b \<Rightarrow>
          if State_of b = Absent then Inr (b, db)
          else case Lock k (component db) i of
                 Inl e \<Rightarrow> Inl (ErrComponent e)
               | Inr c \<Rightarrow>
                   let db' = db\<lparr>component := c\<rparr>
                   in case read_branch k now db' i of Inl e \<Rightarrow> Inl e | Inr b' \<Rightarrow> Inr (b', db'))"

definition decide_or_panic :: "State \<Rightarrow> bool \<Rightarrow> Command \<Rightarrow> 'e reserve_error + Decision" where
  "decide_or_panic s p c = (case Decide s p c of None \<Rightarrow> Inl ErrPanic | Some d \<Rightarrow> Inr d)"

text \<open>
  The hold: the row is written first (an existing identity is left alone and answered), then
  \<open>take\<close> decides held or rejected.
\<close>

definition hold_row :: "(instant \<Rightarrow> branch_row) \<Rightarrow> instant \<Rightarrow> string \<Rightarrow> string \<Rightarrow> branch_row" where
  "hold_row fresh now kind digest =
     (fresh now)\<lparr>row_kind := kind, row_state := Held, row_digest := Some digest\<rparr>"

definition settled_row :: "instant \<Rightarrow> duration \<Rightarrow> State \<Rightarrow> string option \<Rightarrow> branch_row \<Rightarrow> branch_row" where
  "settled_row now period to why r =
     r\<lparr>row_state := to, row_reason := why,
       row_hold_expires_at := (if to = Held then Some (now + period) else None)\<rparr>"

definition Hold ::
  "(instant \<Rightarrow> branch_row) \<Rightarrow> ('c, 'e) Kind \<Rightarrow> instant \<Rightarrow> 'c reserve_db \<Rightarrow> string \<Rightarrow> string \<Rightarrow>
   ('c, 'e) Take \<Rightarrow> ('c, 'e) reserve_result" where
  "Hold fresh k now db i digest tk =
     (if map_of (branches db) i \<noteq> None
      then case read_branch k now db i of
             Inl e \<Rightarrow> Inl e
           | Inr b \<Rightarrow>
               (case decide_or_panic (State_of b) (past b)
                       (if Digest b = digest then OnHoldSame else OnHoldOther) of
                  Inl e \<Rightarrow> Inl e
                | Inr d \<Rightarrow> Inr (\<lparr>ans_Branch = b, ans_Conflict = dec_Conflict d, ans_Refused = None,
                                  ans_Repeated = \<not> dec_Conflict d\<rparr>, db))
      else
        let db1 = db\<lparr>branches := AList.update i (hold_row fresh now (Name k) digest) (branches db)\<rparr>
        in case tk (component db1) of
             Inl e \<Rightarrow> Inl (ErrComponent e)
           | Inr (enough, reason, c) \<Rightarrow>
               (case decide_or_panic Absent False (if enough then OnHoldEnough else OnHoldShort) of
                  Inl e \<Rightarrow> Inl e
                | Inr d \<Rightarrow>
                    let why = (if \<not> enough \<and> reason \<noteq> [] then Some reason else None);
                        db2 = db1\<lparr>component := c, branches :=
                          AList.map_entry i (settled_row now (Period k) (dec_To d) why) (branches db1)\<rparr>
                    in case read_branch k now db2 i of
                         Inl e \<Rightarrow> Inl e
                       | Inr b \<Rightarrow> publish k db2 b))"

definition Confirm ::
  "('c, 'e) Kind \<Rightarrow> instant \<Rightarrow> 'c reserve_db \<Rightarrow> string \<Rightarrow> ('c, 'e) reserve_result" where
  "Confirm k now db i =
     (case locked k now db i of
        Inl e \<Rightarrow> Inl e
      | Inr (b, db') \<Rightarrow>
          if State_of b = Absent then Inr (answer b, db')
          else case decide_or_panic (State_of b) (past b) OnConfirm of
                 Inl e \<Rightarrow> Inl e
               | Inr d \<Rightarrow> apply_decision k now db' b d)"

definition tombstone_row :: "(instant \<Rightarrow> branch_row) \<Rightarrow> instant \<Rightarrow> string \<Rightarrow> branch_row" where
  "tombstone_row fresh now kind = (fresh now)\<lparr>row_kind := kind, row_state := Cancelled\<rparr>"

definition Cancel ::
  "(instant \<Rightarrow> branch_row) \<Rightarrow> ('c, 'e) Kind \<Rightarrow> instant \<Rightarrow> 'c reserve_db \<Rightarrow> string \<Rightarrow> ('c, 'e) reserve_result" where
  "Cancel fresh k now db i =
     (if map_of (branches db) i = None
      then let db1 = db\<lparr>branches := AList.update i (tombstone_row fresh now (Name k)) (branches db)\<rparr>
           in case read_branch k now db1 i of
                Inl e \<Rightarrow> Inl e
              | Inr b \<Rightarrow> publish k db1 b
      else case locked k now db i of
             Inl e \<Rightarrow> Inl e
           | Inr (b, db') \<Rightarrow>
               (case decide_or_panic (State_of b) (past b) OnCancel of
                  Inl e \<Rightarrow> Inl e
                | Inr d \<Rightarrow> apply_decision k now db' b d))"

definition Query ::
  "('c, 'e) Kind \<Rightarrow> instant \<Rightarrow> 'c reserve_db \<Rightarrow> string \<Rightarrow> ('c, 'e) reserve_result" where
  "Query k now db i =
     (case read_branch k now db i of Inl e \<Rightarrow> Inl e | Inr b \<Rightarrow> Inr (answer b, db))"

definition Consume ::
  "('c, 'e) Kind \<Rightarrow> instant \<Rightarrow> 'c reserve_db \<Rightarrow> string \<Rightarrow> string \<Rightarrow> string \<Rightarrow> ('c, 'e) Use \<Rightarrow>
   ('c, 'e) reserve_result" where
  "Consume k now db i consumption digest use =
     (case map_of (consumptions db) consumption of
        Some (usedBranch, usedDigest) \<Rightarrow>
          (case read_branch k now db i of
             Inl e \<Rightarrow> Inl e
           | Inr b \<Rightarrow>
               (case decide_or_panic (State_of b) (past b)
                       (if usedBranch = i \<and> usedDigest = digest then OnConsumeUsedSame
                        else OnConsumeUsedOther) of
                  Inl e \<Rightarrow> Inl e
                | Inr d \<Rightarrow> Inr (\<lparr>ans_Branch = b, ans_Conflict = dec_Conflict d, ans_Refused = None,
                                  ans_Repeated = \<not> dec_Conflict d\<rparr>, db)))
      | None \<Rightarrow>
          (case locked k now db i of
             Inl e \<Rightarrow> Inl e
           | Inr (b, db1) \<Rightarrow>
               (case decide_or_panic (State_of b) (past b) OnConsumeWithin of
                  Inl e \<Rightarrow> Inl e
                | Inr d0 \<Rightarrow>
                    if dec_Refused d0 \<noteq> None
                    then Inr ((answer b)\<lparr>ans_Refused := dec_Refused d0\<rparr>, db1)
                    else case use (component db1) b of
                           Inl e \<Rightarrow> Inl (ErrComponent e)
                         | Inr (left, beyond, c) \<Rightarrow>
                             let db2 = db1\<lparr>component := c\<rparr>
                             in case decide_or_panic (State_of b) (past b)
                                     (if beyond then OnConsumeBeyond
                                      else if left then OnConsumeWithin else OnConsumeExact) of
                                  Inl e \<Rightarrow> Inl e
                                | Inr d \<Rightarrow>
                                    if dec_Refused d \<noteq> None
                                    then Inr ((answer b)\<lparr>ans_Refused := dec_Refused d\<rparr>, db2)
                                    else apply_decision k now
                                           (db2\<lparr>consumptions :=
                                              AList.update consumption (i, digest) (consumptions db2)\<rparr>)
                                           b d)))"

section \<open>The expiry job\<close>

text \<open>
  \<open>ExpireDue\<close> runs one transaction that lists a batch of due branches and then one transaction
  per branch, until a batch is short. Each transaction has its own \<open>now()\<close>: \<open>clk n\<close> is the
  instant of the job's \<open>n\<close>-th transaction. The loop has no bound in the code, hence the fuel.
\<close>

abbreviation batch :: nat where "batch \<equiv> 100"

definition is_due :: "('c, 'e) Kind \<Rightarrow> instant \<Rightarrow> branch_row \<Rightarrow> bool" where
  "is_due k now r \<longleftrightarrow> row_kind r = Name k \<and> row_state r = Held \<and>
     (case row_hold_expires_at r of None \<Rightarrow> False | Some t \<Rightarrow> t \<le> now)"

definition due_ids :: "('c, 'e) Kind \<Rightarrow> instant \<Rightarrow> 'c reserve_db \<Rightarrow> string list" where
  "due_ids k now db =
     take batch (map fst (sort_key (\<lambda>(i, r). case row_hold_expires_at r of None \<Rightarrow> 0 | Some t \<Rightarrow> t)
       (filter (\<lambda>(i, r). is_due k now r) (branches db))))"

definition expire_one ::
  "('c, 'e) Kind \<Rightarrow> instant \<Rightarrow> 'c reserve_db \<Rightarrow> string \<Rightarrow> 'e reserve_error + 'c reserve_db" where
  "expire_one k now db i =
     (case locked k now db i of
        Inl e \<Rightarrow> Inl e
      | Inr (b, db') \<Rightarrow>
          if State_of b = Absent then Inr db'
          else case decide_or_panic (State_of b) (past b) OnExpire of
                 Inl e \<Rightarrow> Inl e
               | Inr d \<Rightarrow> (case apply_decision k now db' b d of Inl e \<Rightarrow> Inl e | Inr (_, db'') \<Rightarrow> Inr db''))"

fun expire_batch ::
  "('c, 'e) Kind \<Rightarrow> (nat \<Rightarrow> instant) \<Rightarrow> nat \<Rightarrow> 'c reserve_db \<Rightarrow> string list \<Rightarrow>
   'e reserve_error + 'c reserve_db" where
  "expire_batch k clk n db [] = Inr db"
| "expire_batch k clk n db (i # is) =
     (case expire_one k (clk n) db i of
        Inl e \<Rightarrow> Inl e
      | Inr db' \<Rightarrow> expire_batch k clk (Suc n) db' is)"

fun ExpireDue ::
  "nat \<Rightarrow> ('c, 'e) Kind \<Rightarrow> (nat \<Rightarrow> instant) \<Rightarrow> nat \<Rightarrow> 'c reserve_db \<Rightarrow>
   ('e reserve_error + 'c reserve_db) option" where
  "ExpireDue 0 k clk n db = None"
| "ExpireDue (Suc fuel) k clk n db =
     (let due = due_ids k (clk n) db
      in case expire_batch k clk (Suc n) db due of
           Inl e \<Rightarrow> Some (Inl e)
         | Inr db' \<Rightarrow>
             if length due < batch then Some (Inr db')
             else ExpireDue fuel k clk (Suc n + length due) db')"

end
