(* ===== verification/Reserve_Correct.thy ===== *)
theory Reserve_Correct
  imports Reserve
begin

text \<open>
  What the reservation participant promises. An operation is one of the commands of \<open>Kind\<close> or one
  step of the expiry job (\<open>Op\<close>, \<open>exec_op\<close>); a run is a sequence of operations, each in its own
  transaction, so that a failing one leaves the database as it was (\<open>commit_op\<close>). Every operation
  follows one row of the table \<open>Decide\<close> (\<open>follows\<close>), keeps the database well formed (\<open>db_ok\<close>) and
  only moves branches forward (\<open>db_le\<close>).
\<close>

section \<open>Well-formed databases, operations and runs\<close>

definition row_ok :: "branch_row \<Rightarrow> bool" where
  "row_ok r \<longleftrightarrow> row_state r \<noteq> Absent \<and>
     (row_state r = Held \<longleftrightarrow> row_hold_expires_at r \<noteq> None) \<and>
     (row_state r = Committed \<or> row_state r = Consumed \<longrightarrow> row_confirmed_at r \<noteq> None) \<and>
     (row_reason r \<noteq> None \<longrightarrow> row_state r = Rejected) \<and>
     (row_state r = Cancelled \<longleftrightarrow> row_digest r = None)"

definition fresh_ok :: "(instant \<Rightarrow> branch_row) \<Rightarrow> bool" where
  "fresh_ok fresh \<longleftrightarrow> (\<forall>now. row_hold_expires_at (fresh now) = None \<and> row_confirmed_at (fresh now) = None \<and>
     row_reason (fresh now) = None \<and> row_digest (fresh now) = None)"

definition state_at :: "'c reserve_db \<Rightarrow> string \<Rightarrow> State" where
  "state_at db i = (case map_of (branches db) i of None \<Rightarrow> Absent | Some r \<Rightarrow> row_state r)"

definition db_ok :: "'c reserve_db \<Rightarrow> bool" where
  "db_ok db \<longleftrightarrow> distinct (map fst (branches db)) \<and> (\<forall>i r. map_of (branches db) i = Some r \<longrightarrow> row_ok r) \<and>
     (\<forall>c i d. map_of (consumptions db) c = Some (i, d) \<longrightarrow> state_at db i \<in> {Committed, Consumed, Released})"

datatype ('c, 'e) Op =
    OpHold string "('c, 'e) Take" | OpConfirm | OpCancel | OpQuery
  | OpConsume string string "('c, 'e) Use" | OpExpire

definition exec_op ::
  "(instant \<Rightarrow> branch_row) \<Rightarrow> ('c, 'e) Kind \<Rightarrow> instant \<Rightarrow> string \<Rightarrow> ('c, 'e) Op \<Rightarrow> 'c reserve_db \<Rightarrow>
   'e reserve_error + 'c reserve_db" where
  "exec_op fresh k now i op db =
     (case op of
        OpHold digest tk \<Rightarrow> map_sum id snd (Hold fresh k now db i digest tk)
      | OpConfirm \<Rightarrow> map_sum id snd (Confirm k now db i)
      | OpCancel \<Rightarrow> map_sum id snd (Cancel fresh k now db i)
      | OpQuery \<Rightarrow> map_sum id snd (Query k now db i)
      | OpConsume c digest use \<Rightarrow> map_sum id snd (Consume k now db i c digest use)
      | OpExpire \<Rightarrow> expire_one k now db i)"

definition commit_op ::
  "(instant \<Rightarrow> branch_row) \<Rightarrow> ('c, 'e) Kind \<Rightarrow> 'c reserve_db \<Rightarrow> instant \<times> string \<times> ('c, 'e) Op \<Rightarrow> 'c reserve_db" where
  "commit_op fresh k db e =
     (case e of (now, i, op) \<Rightarrow> (case exec_op fresh k now i op db of Inl _ \<Rightarrow> db | Inr db' \<Rightarrow> db'))"

fun branch_rank :: "State \<Rightarrow> nat" where
  "branch_rank Absent = 0"
| "branch_rank Held = 1"
| "branch_rank Committed = 2"
| "branch_rank _ = 3"

definition row_le :: "branch_row \<Rightarrow> branch_row \<Rightarrow> bool" where
  "row_le r r' \<longleftrightarrow> r' = r \<or>
     \<not> Ended (row_state r) \<and> row_version r < row_version r' \<and>
     branch_rank (row_state r) \<le> branch_rank (row_state r') \<and>
     row_kind r' = row_kind r \<and> row_digest r' = row_digest r"

definition db_le :: "'c reserve_db \<Rightarrow> 'c reserve_db \<Rightarrow> bool" where
  "db_le db db' \<longleftrightarrow>
     (\<forall>i r. map_of (branches db) i = Some r \<longrightarrow> (\<exists>r'. map_of (branches db') i = Some r' \<and> row_le r r')) \<and>
     (\<forall>c u. map_of (consumptions db) c = Some u \<longrightarrow> map_of (consumptions db') c = Some u)"

text \<open>
  One command on a branch, as the table has it: the state and the passing of the period it finds,
  the decision the table takes, and what the command leaves in the tables.
\<close>

definition past_at :: "instant \<Rightarrow> 'c reserve_db \<Rightarrow> string \<Rightarrow> bool" where
  "past_at now db i =
     (case map_of (branches db) i of None \<Rightarrow> False | Some r \<Rightarrow> past (branch_of now i r))"

definition follows :: "instant \<Rightarrow> string \<Rightarrow> 'c reserve_db \<Rightarrow> Command \<Rightarrow> 'c reserve_db \<Rightarrow> bool" where
  "follows now i db c db' \<longleftrightarrow> (\<exists>d. Decide (state_at db i) (past_at now db i) c = Some d \<and>
     state_at db' = (state_at db)(i := dec_To d) \<and>
     (\<not> dec_Changed d \<longrightarrow> branches db' = branches db) \<and>
     (dec_Changed d \<longrightarrow> map_of (branches db) i \<noteq> None \<longrightarrow>
        branches db' = AList.map_entry i (moved_row now (dec_To d)) (branches db)))"

fun op_commands :: "('c, 'e) Op \<Rightarrow> Command set" where
  "op_commands (OpHold _ _) = {OnHoldEnough, OnHoldShort, OnHoldSame, OnHoldOther}"
| "op_commands OpConfirm = {OnConfirm}"
| "op_commands OpCancel = {OnCancel}"
| "op_commands OpQuery = {OnQuery}"
| "op_commands (OpConsume _ _ _) =
     {OnConsumeWithin, OnConsumeExact, OnConsumeBeyond, OnConsumeUsedSame, OnConsumeUsedOther}"
| "op_commands OpExpire = {OnExpire}"

text \<open>
  The errors a caller can meet: the identity belongs to another kind, or a callback of the
  component failed.
\<close>

definition expected_error :: "('c, 'e) Kind \<Rightarrow> 'c reserve_db \<Rightarrow> string \<Rightarrow> 'e reserve_error \<Rightarrow> bool" where
  "expected_error k db i e \<longleftrightarrow>
     (e = ErrKind \<and> (\<exists>r. map_of (branches db) i = Some r \<and> row_kind r \<noteq> Name k)) \<or> (\<exists>x. e = ErrComponent x)"

text \<open>Database \<open>db'\<close> is \<open>db\<close> with exactly the held branches \<open>A\<close> expired.\<close>

definition expired_from :: "string set \<Rightarrow> 'c reserve_db \<Rightarrow> 'c reserve_db \<Rightarrow> bool" where
  "expired_from A db db' \<longleftrightarrow> map fst (branches db') = map fst (branches db) \<and>
     (\<forall>i. i \<notin> A \<longrightarrow> map_of (branches db') i = map_of (branches db) i) \<and>
     (\<forall>i \<in> A. state_at db i = Held \<and> state_at db' i = Expired)"

section \<open>What a command leaves in the tables\<close>

lemma moved_row_cols [table_simps]:
  "row_state (moved_row now to r) = to"
  "row_kind (moved_row now to r) = row_kind r"
  "row_reason (moved_row now to r) = row_reason r"
  "row_digest (moved_row now to r) = row_digest r"
  "row_hold_expires_at (moved_row now to r) = (if to = Held then row_hold_expires_at r else None)"
  "row_confirmed_at (moved_row now to r) =
     (if to = Committed \<and> row_confirmed_at r = None then Some now else row_confirmed_at r)"
  "row_version (moved_row now to r) = row_version r + 1"
  by (simp_all add: moved_row_def)

lemma settled_row_cols [table_simps]:
  "row_state (settled_row now p to why r) = to"
  "row_kind (settled_row now p to why r) = row_kind r"
  "row_reason (settled_row now p to why r) = why"
  "row_digest (settled_row now p to why r) = row_digest r"
  "row_hold_expires_at (settled_row now p to why r) = (if to = Held then Some (now + p) else None)"
  "row_confirmed_at (settled_row now p to why r) = row_confirmed_at r"
  "row_version (settled_row now p to why r) = row_version r"
  by (simp_all add: settled_row_def)

lemma hold_row_cols [table_simps]:
  "row_state (hold_row fresh now kind dg) = Held"
  "row_kind (hold_row fresh now kind dg) = kind"
  "row_reason (hold_row fresh now kind dg) = row_reason (fresh now)"
  "row_digest (hold_row fresh now kind dg) = Some dg"
  "row_hold_expires_at (hold_row fresh now kind dg) = row_hold_expires_at (fresh now)"
  "row_confirmed_at (hold_row fresh now kind dg) = row_confirmed_at (fresh now)"
  by (simp_all add: hold_row_def)

lemma tombstone_row_cols [table_simps]:
  "row_state (tombstone_row fresh now kind) = Cancelled"
  "row_kind (tombstone_row fresh now kind) = kind"
  "row_reason (tombstone_row fresh now kind) = row_reason (fresh now)"
  "row_digest (tombstone_row fresh now kind) = row_digest (fresh now)"
  "row_hold_expires_at (tombstone_row fresh now kind) = row_hold_expires_at (fresh now)"
  "row_confirmed_at (tombstone_row fresh now kind) = row_confirmed_at (fresh now)"
  by (simp_all add: tombstone_row_def)

lemma read_branch_cases:
  assumes "read_branch k now db i = Inr b"
  obtains "map_of (branches db) i = None" "b = absent_branch k i"
  | r where "map_of (branches db) i = Some r" "row_kind r = Name k" "b = branch_of now i r"
      "row_state r = Held \<Longrightarrow> row_hold_expires_at r \<noteq> None"
  using assms by (auto simp: read_branch_def split: option.splits if_splits)

lemma read_branch_state:
  "read_branch k now db i = Inr b \<Longrightarrow> State_of b = state_at db i \<and> past b = past_at now db i \<and> ID b = i"
  by (auto simp: state_at_def past_at_def branch_of_def absent_branch_def elim!: read_branch_cases)

lemma read_branch_component [simp]: "read_branch k now (db\<lparr>component := c\<rparr>) i = read_branch k now db i"
  by (simp add: read_branch_def)

lemma read_branch_consumptions [simp]:
  "read_branch k now (db\<lparr>consumptions := c\<rparr>) i = read_branch k now db i"
  by (simp add: read_branch_def)

lemma publish_Inr:
  "publish k db b = Inr (a, db') \<Longrightarrow>
   a = answer b \<and> (\<exists>c. Changed k (component db) b = Inr c \<and> db' = db\<lparr>component := c\<rparr>)"
  by (auto simp: publish_def split: sum.splits)

lemma locked_Inr:
  "locked k now db i = Inr (b, db') \<Longrightarrow> read_branch k now db i = Inr b \<and>
     (db' = db \<and> State_of b = Absent \<or>
      State_of b \<noteq> Absent \<and> (\<exists>c. Lock k (component db) i = Inr c \<and> db' = db\<lparr>component := c\<rparr>))"
  by (auto simp: locked_def Let_def split: sum.splits if_splits)

lemma move_Inr:
  "move k now db i to = Inr (a, db') \<Longrightarrow>
   (\<exists>b c. read_branch k now (db\<lparr>branches := AList.map_entry i (moved_row now to) (branches db)\<rparr>) i = Inr b \<and>
     a = answer b \<and> Changed k (component db) b = Inr c \<and>
     db' = db\<lparr>branches := AList.map_entry i (moved_row now to) (branches db), component := c\<rparr>)"
  by (auto simp: move_def Let_def split: sum.splits dest!: publish_Inr)

lemma apply_Inr:
  "apply_decision k now db b d = Inr (a, db') \<Longrightarrow>
   (\<exists>c. (if dec_Resource d = GivesBack then GiveBack k (component db) b else Inr (component db)) = Inr c \<and>
     (if dec_Changed d then move k now (db\<lparr>component := c\<rparr>) (ID b) (dec_To d) = Inr (a, db')
      else db' = db\<lparr>component := c\<rparr>))"
  by (auto simp: apply_decision_def Let_def split: sum.splits if_splits)


lemma map_sum_Inr: "map_sum f g x = Inr y \<longleftrightarrow> (\<exists>z. x = Inr z \<and> y = g z)"
  by (cases x) auto

lemma decide_or_panic_Inr: "decide_or_panic s p c = Inr d \<longleftrightarrow> Decide s p c = Some d"
  by (auto simp: decide_or_panic_def split: option.splits)

lemma Decide_moves:
  "Decide s p c = Some d \<Longrightarrow> dec_Changed d \<Longrightarrow>
   s = Absent \<and> dec_To d \<in> {Held, Rejected, Cancelled} \<or>
   s = Held \<and> dec_To d \<in> {Expired, Committed, Released} \<or>
   s = Committed \<and> dec_To d \<in> {Released, Consumed, Committed}"
  by (auto simp: Decide_def split: Command.splits if_splits)

lemma Decide_unchanged: "Decide s p c = Some d \<Longrightarrow> \<not> dec_Changed d \<Longrightarrow> dec_To d = s \<and> dec_Resource d = Untouched"
  by (auto simp: Decide_def split: Command.splits if_splits)

lemma Decide_gives_back:
  "Decide s p c = Some d \<Longrightarrow> dec_Resource d = GivesBack \<longleftrightarrow>
   dec_Changed d \<and> (s = Held \<or> s = Committed) \<and> dec_To d \<in> {Expired, Released}"
  by (auto simp: Decide_def split: Command.splits if_splits)

lemma apply_tables:
  "apply_decision k now db b d = Inr (a, db') \<Longrightarrow> consumptions db' = consumptions db \<and>
   branches db' = (if dec_Changed d then AList.map_entry (ID b) (moved_row now (dec_To d)) (branches db)
                   else branches db)"
  by (auto dest!: apply_Inr move_Inr split: if_splits)

lemma apply_component:
  assumes "apply_decision k now db b d = Inr (a, db')"
  obtains c where
    "if dec_Resource d = GivesBack then GiveBack k (component db) b = Inr c else c = component db"
    "if dec_Changed d then (\<exists>b'. Changed k c b' = Inr (component db')) else component db' = c"
proof -
  from apply_Inr [OF assms] obtain c where
    c: "(if dec_Resource d = GivesBack then GiveBack k (component db) b else Inr (component db)) = Inr c"
    and m: "if dec_Changed d then move k now (db\<lparr>component := c\<rparr>) (ID b) (dec_To d) = Inr (a, db')
      else db' = db\<lparr>component := c\<rparr>" by blast
  show ?thesis
  proof (rule that [of c])
    show "if dec_Resource d = GivesBack then GiveBack k (component db) b = Inr c else c = component db"
      using c by (auto split: if_splits)
    show "if dec_Changed d then (\<exists>b'. Changed k c b' = Inr (component db')) else component db' = c"
      using m by (auto split: if_splits dest!: move_Inr)
  qed
qed

section \<open>Every command follows the table\<close>

lemma state_at_branches: "branches db' = branches db \<Longrightarrow> state_at db' = state_at db"
  by (simp add: state_at_def [abs_def])

lemma state_at_moved:
  assumes present: "map_of (branches db) i = Some r"
    and moved: "branches db' = AList.map_entry i (moved_row now to) (branches db)"
  shows "state_at db' = (state_at db)(i := to)"
proof (rule ext)
  fix j
  have "map_of (branches db') j = (if j = i then Some (moved_row now to r) else map_of (branches db) j)"
    by (simp add: moved map_entry_eq present)
  then show "state_at db' j = ((state_at db)(i := to)) j"
    by (cases "j = i") (simp_all add: state_at_def table_simps)
qed

lemma follows_stay:
  assumes "Decide (state_at db i) (past_at now db i) c = Some d" "\<not> dec_Changed d"
    and b: "branches db' = branches db"
  shows "follows now i db c db'"
  using assms(1,2) Decide_unchanged [OF assms(1,2)] b state_at_branches [OF b] by (simp add: follows_def)

lemma follows_same:
  "c \<in> {OnQuery, OnHoldSame, OnConsumeUsedSame} \<Longrightarrow> branches db' = branches db \<Longrightarrow> follows now i db c db'"
  by (rule follows_stay [where d = "stay (state_at db i)"]) (auto simp: Decide_def)

lemma follows_apply:
  assumes d: "Decide (state_at db i) (past_at now db i) c = Some d" and present: "map_of (branches db) i = Some r"
    and b: "branches db' = (if dec_Changed d then AList.map_entry i (moved_row now (dec_To d)) (branches db)
      else branches db)"
  shows "follows now i db c db'"
proof (cases "dec_Changed d")
  case True
  with b have "branches db' = AList.map_entry i (moved_row now (dec_To d)) (branches db)" by simp
  with state_at_moved [OF present this] d True show ?thesis by (simp add: follows_def)
next
  case False
  with b have "branches db' = branches db" by simp
  with state_at_branches [OF this] Decide_unchanged [OF d False] d False show ?thesis
    by (simp add: follows_def)
qed

lemma guarded_follows:
  assumes l: "locked k now db i = Inr (b, db1)" and present: "map_of (branches db) i = Some r"
    and d: "Decide (State_of b) (past b) c = Some d"
    and same: "branches db2 = branches db1"
    and ap: "apply_decision k now db2 b d = Inr (a, db')"
  shows "follows now i db c db' \<and> consumptions db' = consumptions db2"
proof -
  from locked_Inr [OF l] have rb: "read_branch k now db i = Inr b" and "branches db1 = branches db"
    by auto
  with read_branch_state [OF rb] present d same apply_tables [OF ap] show ?thesis
    by (intro conjI follows_apply [of _ _ _ _ d]) auto
qed

lemma present_row: "state_at db i \<noteq> Absent \<Longrightarrow> \<exists>r. map_of (branches db) i = Some r"
  by (auto simp: state_at_def split: option.splits)

lemma locked_present:
  "locked k now db i = Inr (b, db1) \<Longrightarrow> State_of b \<noteq> Absent \<Longrightarrow> \<exists>r. map_of (branches db) i = Some r"
  by (metis locked_Inr read_branch_state present_row)

lemma Confirm_follows:
  assumes "Confirm k now db i = Inr (a, db')"
  shows "follows now i db OnConfirm db' \<and> consumptions db' = consumptions db"
proof -
  from assms obtain b db1 where l: "locked k now db i = Inr (b, db1)"
    by (auto simp: Confirm_def split: sum.splits)
  note b = locked_Inr [OF l] read_branch_state [of k now db i b]
  show ?thesis
  proof (cases "State_of b = Absent")
    case True
    with assms l b have "db' = db" by (auto simp: Confirm_def)
    with True b show ?thesis by (auto simp: Decide_def intro!: follows_stay [where d = "stay Absent"])
  next
    case False
    with assms l obtain d where d: "Decide (State_of b) (past b) OnConfirm = Some d"
      and ap: "apply_decision k now db1 b d = Inr (a, db')"
      by (auto simp: Confirm_def decide_or_panic_Inr split: sum.splits)
    from locked_present [OF l False] obtain r where "map_of (branches db) i = Some r" by blast
    from guarded_follows [OF l this d refl ap] b show ?thesis by auto
  qed
qed

lemma expire_one_follows:
  assumes "expire_one k now db i = Inr db'"
  shows "follows now i db OnExpire db' \<and> consumptions db' = consumptions db"
proof -
  from assms obtain b db1 where l: "locked k now db i = Inr (b, db1)"
    by (auto simp: expire_one_def split: sum.splits)
  note b = locked_Inr [OF l] read_branch_state [of k now db i b]
  show ?thesis
  proof (cases "State_of b = Absent")
    case True
    with assms l b have "db' = db" by (auto simp: expire_one_def)
    with True b show ?thesis by (auto simp: Decide_def intro!: follows_stay [where d = "stay Absent"])
  next
    case False
    with assms l obtain d a where d: "Decide (State_of b) (past b) OnExpire = Some d"
      and ap: "apply_decision k now db1 b d = Inr (a, db')"
      by (auto simp: expire_one_def decide_or_panic_Inr split: sum.splits)
    from locked_present [OF l False] obtain r where "map_of (branches db) i = Some r" by blast
    from guarded_follows [OF l this d refl ap] b show ?thesis by auto
  qed
qed

lemma state_at_new:
  assumes "map_of (branches db') = (map_of (branches db))(i \<mapsto> r)"
  shows "state_at db' = (state_at db)(i := row_state r)"
proof (rule ext)
  fix j
  show "state_at db' j = ((state_at db)(i := row_state r)) j"
    by (cases "j = i") (simp_all add: state_at_def assms)
qed

lemma Cancel_new:
  assumes "Cancel fresh k now db i = Inr (a, db')" "map_of (branches db) i = None"
  shows "branches db' = AList.update i (tombstone_row fresh now (Name k)) (branches db) \<and>
    consumptions db' = consumptions db \<and> (\<exists>b. Changed k (component db) b = Inr (component db'))"
  using assms by (auto simp: Cancel_def Let_def split: sum.splits dest!: publish_Inr)

lemma Cancel_follows:
  assumes "Cancel fresh k now db i = Inr (a, db')"
  shows "follows now i db OnCancel db' \<and> consumptions db' = consumptions db"
proof (cases "map_of (branches db) i")
  case None
  then have "state_at db i = Absent" by (simp add: state_at_def)
  moreover from Cancel_new [OF assms None]
  have m: "map_of (branches db') = (map_of (branches db))(i \<mapsto> tombstone_row fresh now (Name k))"
    and "consumptions db' = consumptions db"
    by (simp_all add: update_conv')
  moreover from state_at_new [OF m] have "state_at db' = (state_at db)(i := Cancelled)"
    by (simp add: table_simps)
  ultimately show ?thesis using None by (auto simp: follows_def Decide_def)
next
  case (Some r)
  with assms obtain b db1 d where l: "locked k now db i = Inr (b, db1)"
    and d: "Decide (State_of b) (past b) OnCancel = Some d"
    and ap: "apply_decision k now db1 b d = Inr (a, db')"
    by (auto simp: Cancel_def decide_or_panic_Inr split: sum.splits)
  from guarded_follows [OF l Some d refl ap] locked_Inr [OF l] show ?thesis by auto
qed

lemma Hold_new:
  assumes "Hold fresh k now db i digest tk = Inr (a, db')" "map_of (branches db) i = None"
  obtains enough reason c why b where "tk (component db) = Inr (enough, reason, c)"
    "branches db' = AList.map_entry i (settled_row now (Period k) (if enough then Held else Rejected) why)
       (AList.update i (hold_row fresh now (Name k) digest) (branches db))"
    "enough \<Longrightarrow> why = None" "consumptions db' = consumptions db" "Changed k c b = Inr (component db')"
  using assms
  by (auto simp: Hold_def Let_def decide_or_panic_def Decide_def split: sum.splits if_splits dest!: publish_Inr)

lemma Hold_new_row:
  assumes "map_of (branches db) i = None"
    "branches db' = AList.map_entry i (settled_row now p to why) (AList.update i r (branches db))"
  shows "map_of (branches db') = (map_of (branches db))(i \<mapsto> settled_row now p to why r)"
  using assms by (simp add: map_entry_eq update_conv')

lemma Hold_known:
  assumes "Hold fresh k now db i digest tk = Inr (a, db')" "map_of (branches db) i \<noteq> None"
  shows "db' = db \<and> (\<exists>b. read_branch k now db i = Inr b)"
  using assms by (auto simp: Hold_def split: sum.splits if_splits)

lemma Hold_follows:
  assumes "Hold fresh k now db i digest tk = Inr (a, db')"
  shows "\<exists>c \<in> op_commands (OpHold digest tk). follows now i db c db' \<and> consumptions db' = consumptions db"
proof (cases "map_of (branches db) i")
  case None
  then have ab: "state_at db i = Absent" by (simp add: state_at_def)
  from Hold_new [OF assms None] obtain enough why where
    br: "branches db' = AList.map_entry i (settled_row now (Period k) (if enough then Held else Rejected) why)
       (AList.update i (hold_row fresh now (Name k) digest) (branches db))"
    and cs: "consumptions db' = consumptions db" by metis
  from state_at_new [OF Hold_new_row [OF None br]]
  have "state_at db' = (state_at db)(i := if enough then Held else Rejected)"
    by (simp add: table_simps)
  with ab cs None show ?thesis
    by (intro bexI [of _ "if enough then OnHoldEnough else OnHoldShort"])
      (auto simp: follows_def Decide_def)
next
  case (Some r)
  then have "db' = db" using Hold_known [OF assms] by simp
  then show ?thesis
    by (intro bexI [of _ OnHoldSame] conjI follows_same) simp_all
qed

lemma Consume_cases:
  assumes "Consume k now db i cid digest use = Inr (a, db')"
  obtains (unchanged) "branches db' = branches db" "consumptions db' = consumptions db"
      "component db' = component db \<or> Lock k (component db) i = Inr (component db')"
  | (beyond) b c left where "read_branch k now db i = Inr b" "State_of b = Committed"
      "Lock k (component db) i = Inr c"
      "use c b = Inr (left, True, component db')"
      "branches db' = branches db" "consumptions db' = consumptions db"
  | (taken) b c left db2 d where "locked k now db i = Inr (b, db\<lparr>component := c\<rparr>)" "State_of b = Committed"
      "use c b = Inr (left, False, component db2)"
      "branches db2 = branches db" "consumptions db2 = AList.update cid (i, digest) (consumptions db)"
      "Decide Committed (past b) (if left then OnConsumeWithin else OnConsumeExact) = Some d"
      "apply_decision k now db2 b d = Inr (a, db')"
      "map_of (consumptions db) cid = None"
proof (cases "map_of (consumptions db) cid")
  case (Some u)
  with assms have "db' = db" by (auto simp: Consume_def split: sum.splits prod.splits)
  then show ?thesis by (intro unchanged) auto
next
  case None
  with assms obtain b db1 where l: "locked k now db i = Inr (b, db1)"
    by (auto simp: Consume_def split: sum.splits)
  note lk = locked_Inr [OF l]
  show ?thesis
  proof (cases "State_of b = Committed")
    case False
    with assms None l have "db' = db1"
      by (auto simp: Consume_def decide_or_panic_def Decide_def split: sum.splits if_splits)
    with lk show ?thesis by (intro unchanged) auto
  next
    case True
    with lk obtain c where lc: "Lock k (component db) i = Inr c" and db1: "db1 = db\<lparr>component := c\<rparr>"
      and rb: "read_branch k now db i = Inr b" by auto
    from assms None l True obtain left bey c' where u: "use (component db1) b = Inr (left, bey, c')"
      by (auto simp: Consume_def decide_or_panic_def Decide_def split: sum.splits if_splits)
    show ?thesis
    proof (cases bey)
      case True
      with assms None l \<open>State_of b = Committed\<close> u have "db' = db1\<lparr>component := c'\<rparr>"
        by (auto simp: Consume_def decide_or_panic_def Decide_def split: sum.splits if_splits)
      with rb \<open>State_of b = Committed\<close> lc u True db1 show ?thesis by (intro beyond) auto
    next
      case False
      let ?c = "if left then OnConsumeWithin else OnConsumeExact"
      from assms None l \<open>State_of b = Committed\<close> u False
      obtain d where d: "Decide Committed (past b) ?c = Some d"
        and ap: "apply_decision k now
          (db1\<lparr>component := c', consumptions := AList.update cid (i, digest) (consumptions db1)\<rparr>) b d = Inr (a, db')"
        by (auto simp: Consume_def decide_or_panic_def Decide_def split: sum.splits if_splits)
      show ?thesis
        by (rule taken [OF _ _ _ _ _ d ap]) (use l \<open>State_of b = Committed\<close> u False db1 None in auto)
    qed
  qed
qed


lemma Consume_follows:
  assumes "Consume k now db i cid digest use = Inr (a, db')"
  shows "\<exists>c \<in> op_commands (OpConsume cid digest use). follows now i db c db' \<and>
    (consumptions db' = consumptions db \<or>
     state_at db i = Committed \<and> state_at db' i \<in> {Committed, Consumed} \<and>
     map_of (consumptions db) cid = None \<and>
     consumptions db' = AList.update cid (i, digest) (consumptions db))"
  using assms
proof (cases rule: Consume_cases)
  case unchanged
  then show ?thesis
    by (intro bexI [of _ OnConsumeUsedSame] conjI follows_same) simp_all
next
  case (beyond b c left)
  then show ?thesis
    by (intro bexI [of _ OnConsumeUsedSame] conjI follows_same) simp_all
next
  case (taken b c left db2 d)
  let ?c = "if left then OnConsumeWithin else OnConsumeExact"
  from locked_present [OF taken(1)] taken(2) obtain r where r: "map_of (branches db) i = Some r" by auto
  from taken(2,6) have d: "Decide (State_of b) (past b) ?c = Some d" by simp
  from guarded_follows [OF taken(1) r d _ taken(7)] taken(4,5)
  have f: "follows now i db ?c db'" "consumptions db' = AList.update cid (i, digest) (consumptions db)"
    by auto
  from locked_Inr [OF taken(1)] read_branch_state taken(2) have s: "state_at db i = Committed" by metis
  with f(1) have "state_at db' i \<in> {Committed, Consumed}"
    by (auto simp: follows_def Decide_def split: if_splits)
  with f s taken(8) show ?thesis by (intro bexI [of _ ?c]) auto
qed

lemma Query_Inr: "Query k now db i = Inr (a, db') \<Longrightarrow> db' = db"
  by (auto simp: Query_def split: sum.splits)

lemma exec_op_follows:
  assumes "exec_op fresh k now i op db = Inr db'"
  shows "\<exists>c \<in> op_commands op. follows now i db c db'"
proof (cases op)
  case (OpHold digest tk)
  with assms show ?thesis by (auto simp: exec_op_def map_sum_Inr dest!: Hold_follows)
next
  case OpConfirm
  with assms show ?thesis by (auto simp: exec_op_def map_sum_Inr dest!: Confirm_follows)
next
  case OpCancel
  with assms show ?thesis by (auto simp: exec_op_def map_sum_Inr dest!: Cancel_follows)
next
  case OpQuery
  with assms have "db' = db" by (auto simp: exec_op_def map_sum_Inr dest!: Query_Inr)
  then show ?thesis
    using OpQuery by (intro bexI [of _ OnQuery] follows_same) simp_all
next
  case (OpConsume cid digest use)
  with assms show ?thesis by (auto simp: exec_op_def map_sum_Inr dest!: Consume_follows)
next
  case OpExpire
  with assms show ?thesis by (auto simp: exec_op_def dest!: expire_one_follows)
qed

section \<open>Invariant and order of the databases\<close>

lemma row_ok_moved:
  assumes "row_ok r" "row_state r = Held \<and> to \<in> {Expired, Committed, Released} \<or>
    row_state r = Committed \<and> to \<in> {Released, Consumed, Committed}"
  shows "row_ok (moved_row now to r)"
  using assms(2) by (elim disjE conjE insertE emptyE) (use assms(1) in \<open>simp_all add: row_ok_def table_simps\<close>)

lemma follows_rows_ok:
  assumes "follows now i db c db'" "map_of (branches db) i \<noteq> None"
    and ok: "\<forall>i r. map_of (branches db) i = Some r \<longrightarrow> row_ok r"
    and r': "map_of (branches db') j = Some r'"
  shows "row_ok r'"
proof -
  from assms(1) obtain d where d: "Decide (state_at db i) (past_at now db i) c = Some d"
    and same: "\<not> dec_Changed d \<longrightarrow> branches db' = branches db"
    and moved: "dec_Changed d \<longrightarrow> branches db' = AList.map_entry i (moved_row now (dec_To d)) (branches db)"
    using assms(2) by (auto simp: follows_def)
  show ?thesis
  proof (cases "dec_Changed d \<and> j = i")
    case True
    with r' moved obtain r where r: "map_of (branches db) i = Some r" "r' = moved_row now (dec_To d) r"
      by (auto simp: map_entry_eq)
    then have s: "state_at db i = row_state r" by (simp add: state_at_def)
    from ok r(1) have "row_ok r" by blast
    with Decide_moves [OF d] s True have "row_ok (moved_row now (dec_To d) r)"
      by (intro row_ok_moved) (auto simp: row_ok_def)
    with r(2) show ?thesis by simp
  next
    case False
    with r' same moved have "map_of (branches db) j = Some r'"
      by (cases "dec_Changed d") (auto simp: map_entry_eq)
    with ok show ?thesis by blast
  qed
qed

lemma exec_op_new:
  assumes "exec_op fresh k now i op db = Inr db'" "map_of (branches db) i = None"
  shows "branches db' = branches db \<or>
    (\<exists>r. branches db' = AList.update i r (branches db) \<and> (fresh_ok fresh \<longrightarrow> row_ok r))"
proof (cases op)
  case (OpHold digest tk)
  with assms obtain a where "Hold fresh k now db i digest tk = Inr (a, db')"
    by (auto simp: exec_op_def map_sum_Inr)
  from Hold_new [OF this assms(2)] obtain enough why where
    "branches db' = AList.map_entry i (settled_row now (Period k) (if enough then Held else Rejected) why)
       (AList.update i (hold_row fresh now (Name k) digest) (branches db))" "enough \<Longrightarrow> why = None"
    by metis
  then show ?thesis
    by (auto simp: map_entry_update row_ok_def table_simps fresh_ok_def)
next
  case OpCancel
  with assms obtain a where "Cancel fresh k now db i = Inr (a, db')"
    by (auto simp: exec_op_def map_sum_Inr)
  from Cancel_new [OF this assms(2)] show ?thesis
    by (auto simp: row_ok_def table_simps fresh_ok_def)
next
  case OpConfirm
  with assms have "branches db' = branches db"
    by (auto simp: exec_op_def map_sum_Inr Confirm_def locked_def read_branch_def absent_branch_def)
  then show ?thesis ..
next
  case OpExpire
  with assms have "branches db' = branches db"
    by (auto simp: exec_op_def map_sum_Inr expire_one_def locked_def read_branch_def absent_branch_def)
  then show ?thesis ..
next
  case OpQuery
  with assms have "db' = db" by (auto simp: exec_op_def map_sum_Inr dest!: Query_Inr)
  then show ?thesis by simp
next
  case (OpConsume cid digest use)
  with assms obtain a where "Consume k now db i cid digest use = Inr (a, db')"
    by (auto simp: exec_op_def map_sum_Inr)
  then show ?thesis
  proof (cases rule: Consume_cases)
    case (taken b c left db2 d)
    with locked_present [OF taken(1)] assms(2) show ?thesis by auto
  qed auto
qed

lemma exec_op_consumptions:
  assumes "exec_op fresh k now i op db = Inr db'"
  shows "consumptions db' = consumptions db \<or>
    state_at db' i \<in> {Committed, Consumed} \<and>
    (\<exists>cid dg. map_of (consumptions db) cid = None \<and> consumptions db' = AList.update cid (i, dg) (consumptions db))"
  using assms
  by (cases op)
    (auto simp: exec_op_def map_sum_Inr
      dest!: Hold_follows Confirm_follows Cancel_follows Query_Inr Consume_follows expire_one_follows)

lemma follows_used:
  assumes "follows now j db c db'" "state_at db i \<in> {Committed, Consumed, Released}"
  shows "state_at db' i \<in> {Committed, Consumed, Released}"
proof -
  from assms(1) obtain d where d: "Decide (state_at db j) (past_at now db j) c = Some d"
    and s: "state_at db' = (state_at db)(j := dec_To d)" by (auto simp: follows_def)
  from Decide_unchanged [OF d] Decide_moves [OF d] assms(2) show ?thesis
    by (cases "dec_Changed d"; cases "i = j") (auto simp: s)
qed

lemma exec_op_le:
  assumes ex: "exec_op fresh k now i op db = Inr db'"
  shows "db_le db db'"
proof -
  have "\<exists>r'. map_of (branches db') j = Some r' \<and> row_le r r'" if r: "map_of (branches db) j = Some r" for j r
  proof (cases "map_of (branches db) i")
    case None
    with exec_op_new [OF ex None] r show ?thesis by (auto simp: update_conv' row_le_def)
  next
    case (Some q)
    from exec_op_follows [OF ex] obtain c d where d: "Decide (state_at db i) (past_at now db i) c = Some d"
      and "\<not> dec_Changed d \<longrightarrow> branches db' = branches db"
      and "dec_Changed d \<longrightarrow> branches db' = AList.map_entry i (moved_row now (dec_To d)) (branches db)"
      using Some by (auto simp: follows_def)
    with r Some Decide_moves [OF d] show ?thesis
      by (cases "dec_Changed d"; cases "j = i")
        (auto simp: row_le_def map_entry_eq table_simps Ended_def state_at_def)
  qed
  with exec_op_consumptions [OF ex] show ?thesis
    by (auto simp: db_le_def update_conv')
qed

lemma exec_op_db_ok:
  assumes ex: "exec_op fresh k now i op db = Inr db'" and ok: "db_ok db" and fr: "fresh_ok fresh"
  shows "db_ok db'"
proof -
  from exec_op_follows [OF ex] obtain c where f: "follows now i db c db'" by blast
  have rows: "distinct (map fst (branches db')) \<and> (\<forall>i r. map_of (branches db') i = Some r \<longrightarrow> row_ok r)"
  proof (cases "map_of (branches db) i")
    case None
    from exec_op_new [OF ex None] fr ok show ?thesis
      by (auto simp: db_ok_def distinct_update update_conv' split: if_splits)
  next
    case (Some r)
    with f ok follows_rows_ok [OF f] show ?thesis by (auto simp: follows_def db_ok_def)
  qed
  have "state_at db' j \<in> {Committed, Consumed, Released}" if "map_of (consumptions db') cid = Some (j, dg)" for cid j dg
  proof (cases "map_of (consumptions db) cid = Some (j, dg)")
    case True
    with ok have "state_at db j \<in> {Committed, Consumed, Released}" unfolding db_ok_def by blast
    with f show ?thesis by (rule follows_used)
  next
    case False
    with exec_op_consumptions [OF ex] that have "state_at db' i \<in> {Committed, Consumed}" "j = i"
      by (auto simp: update_conv' split: if_splits)
    then show ?thesis by auto
  qed
  with rows show ?thesis by (simp add: db_ok_def)
qed

interpretation reserve_run: invariant_machine "commit_op fresh k" "\<lambda>db. fresh_ok fresh \<longrightarrow> db_ok db"
  for fresh :: "instant \<Rightarrow> branch_row" and k :: "('c, 'e) Kind"
  by unfold_locales (auto simp: commit_op_def split: prod.splits sum.splits intro: exec_op_db_ok)

lemma row_le_refl: "row_le r r"
  by (simp add: row_le_def)

lemma row_le_trans: "row_le r s \<Longrightarrow> row_le s t \<Longrightarrow> row_le r t"
  by (auto simp: row_le_def)

lemma db_le_refl: "db_le db db"
  by (simp add: db_le_def row_le_refl)

lemma db_le_trans: "db_le s t \<Longrightarrow> db_le t u \<Longrightarrow> db_le s u"
  unfolding db_le_def by (meson row_le_trans)

interpretation reserve_up: forward_machine "commit_op fresh k" db_le
  for fresh :: "instant \<Rightarrow> branch_row" and k :: "('c, 'e) Kind"
  by unfold_locales
    (auto simp: commit_op_def split: prod.splits sum.splits intro: db_le_refl db_le_trans exec_op_le)

section \<open>Every change is published\<close>

lemma publish_published:
  assumes "publish k db b = Inr (a, db')" "read_branch k now db i = Inr b"
  shows "\<exists>c b'. read_branch k now db' i = Inr b' \<and> Changed k c b' = Inr (component db')"
  using publish_Inr [OF assms(1)] assms(2) by auto

lemma apply_published:
  assumes "apply_decision k now db b d = Inr (a, db')" "branches db' \<noteq> branches db"
  shows "\<exists>c b'. read_branch k now db' (ID b) = Inr b' \<and> Changed k c b' = Inr (component db')"
proof -
  from apply_Inr [OF assms(1)] obtain c where
    "if dec_Changed d then move k now (db\<lparr>component := c\<rparr>) (ID b) (dec_To d) = Inr (a, db')
     else db' = db\<lparr>component := c\<rparr>" by blast
  with assms(2) have "move k now (db\<lparr>component := c\<rparr>) (ID b) (dec_To d) = Inr (a, db')"
    by (auto split: if_splits)
  from move_Inr [OF this] show ?thesis by (fastforce simp: read_branch_def)
qed

lemma guarded_published:
  assumes "locked k now db i = Inr (b, db1)" "branches db2 = branches db1"
    "apply_decision k now db2 b d = Inr (a, db')" "branches db' \<noteq> branches db"
  shows "\<exists>c b'. read_branch k now db' i = Inr b' \<and> Changed k c b' = Inr (component db')"
  using apply_published [OF assms(3)] assms(2,4) locked_Inr [OF assms(1)] read_branch_state [of k now db i b]
  by fastforce

lemma Hold_published:
  assumes "Hold fresh k now db i digest tk = Inr (a, db')" "branches db' \<noteq> branches db"
  shows "\<exists>c b'. read_branch k now db' i = Inr b' \<and> Changed k c b' = Inr (component db')"
  using assms
  by (auto simp: Hold_def Let_def split: sum.splits if_splits elim: publish_published)

lemma Cancel_published:
  assumes "Cancel fresh k now db i = Inr (a, db')" "branches db' \<noteq> branches db"
  shows "\<exists>c b'. read_branch k now db' i = Inr b' \<and> Changed k c b' = Inr (component db')"
proof (cases "map_of (branches db) i")
  case None
  with assms show ?thesis
    by (auto simp: Cancel_def Let_def split: sum.splits if_splits elim: publish_published)
next
  case (Some r)
  with assms(1) obtain b db1 d where "locked k now db i = Inr (b, db1)"
    "apply_decision k now db1 b d = Inr (a, db')"
    by (auto simp: Cancel_def split: sum.splits)
  from guarded_published [OF this(1) refl this(2) assms(2)] show ?thesis .
qed

lemma Confirm_published:
  assumes "Confirm k now db i = Inr (a, db')" "branches db' \<noteq> branches db"
  shows "\<exists>c b'. read_branch k now db' i = Inr b' \<and> Changed k c b' = Inr (component db')"
proof -
  from assms(1) obtain b db1 where l: "locked k now db i = Inr (b, db1)"
    by (auto simp: Confirm_def split: sum.splits)
  from assms l locked_Inr [OF l] obtain d where "apply_decision k now db1 b d = Inr (a, db')"
    by (auto simp: Confirm_def split: sum.splits if_splits)
  from guarded_published [OF l refl this assms(2)] show ?thesis .
qed

lemma expire_one_published:
  assumes "expire_one k now db i = Inr db'" "branches db' \<noteq> branches db"
  shows "\<exists>c b'. read_branch k now db' i = Inr b' \<and> Changed k c b' = Inr (component db')"
proof -
  from assms(1) obtain b db1 where l: "locked k now db i = Inr (b, db1)"
    by (auto simp: expire_one_def split: sum.splits)
  from assms l locked_Inr [OF l] obtain d a where "apply_decision k now db1 b d = Inr (a, db')"
    by (auto simp: expire_one_def split: sum.splits if_splits)
  from guarded_published [OF l refl this assms(2)] show ?thesis .
qed

lemma Consume_published:
  assumes "Consume k now db i cid digest use = Inr (a, db')" "branches db' \<noteq> branches db"
  shows "\<exists>c b'. read_branch k now db' i = Inr b' \<and> Changed k c b' = Inr (component db')"
  using assms(1)
proof (cases rule: Consume_cases)
  case (taken b c left db2 d)
  from guarded_published [OF taken(1) _ taken(7) assms(2)] taken(4) show ?thesis by simp
qed (use assms(2) in auto)

lemma exec_op_published:
  assumes "exec_op fresh k now i op db = Inr db'" "branches db' \<noteq> branches db"
  shows "\<exists>c b'. read_branch k now db' i = Inr b' \<and> Changed k c b' = Inr (component db')"
proof (cases op)
  case OpQuery
  with assms show ?thesis by (auto simp: exec_op_def map_sum_Inr dest!: Query_Inr)
qed (use assms in \<open>auto simp: exec_op_def map_sum_Inr
       intro: Hold_published Confirm_published Cancel_published Consume_published expire_one_published\<close>)

section \<open>Errors\<close>

lemma read_branch_Inl:
  "read_branch k now db i = Inl e \<Longrightarrow> db_ok db \<Longrightarrow> expected_error k db i e"
  by (auto simp: read_branch_def expected_error_def db_ok_def row_ok_def split: option.splits if_splits)

lemma publish_Inl: "publish k db b = Inl e \<Longrightarrow> expected_error k' db' i e"
  by (auto simp: publish_def expected_error_def split: sum.splits)

lemma locked_Inl:
  "locked k now db i = Inl e \<Longrightarrow> db_ok db \<Longrightarrow> expected_error k db i e"
  by (auto simp: locked_def Let_def split: sum.splits if_splits dest: read_branch_Inl)
    (auto simp: expected_error_def)

lemma move_Inl:
  assumes "move k now db i to = Inl e" "read_branch k now db i = Inr b" "to \<noteq> Held"
  shows "expected_error k db' j e"
proof -
  let ?db = "db\<lparr>branches := AList.map_entry i (moved_row now to) (branches db)\<rparr>"
  from assms(2,3) have "\<exists>b. read_branch k now ?db i = Inr b"
    by (auto simp: read_branch_def map_entry_eq table_simps split: option.splits if_splits)
  with assms(1) show ?thesis by (auto simp: move_def Let_def intro: publish_Inl)
qed

lemma apply_Inl:
  assumes "apply_decision k now db b d = Inl e" "read_branch k now db (ID b) = Inr b"
    "Decide (State_of b) p c = Some d" "State_of b = Absent \<Longrightarrow> c = OnCancel"
  shows "expected_error k db' i e"
proof -
  have "dec_Changed d \<longrightarrow> dec_To d \<noteq> Held"
    using assms(3,4) by (auto simp: Decide_def split: Command.splits if_splits)
  then show ?thesis using assms(1,2)
    by (auto simp: apply_decision_def Let_def split: sum.splits if_splits intro: move_Inl)
      (auto simp: expected_error_def)
qed

lemma decide_or_panic_Inl: "decide_or_panic s p c = Inl e \<longleftrightarrow> Decide s p c = None \<and> e = ErrPanic"
  by (auto simp: decide_or_panic_def split: option.splits)

lemma Decide_total: "Decide s p c = None \<longleftrightarrow> (\<exists>x. c = OtherCommand x)"
  by (auto simp: Decide_def split: Command.splits)

lemma locked_read: "locked k now db i = Inr (b, db1) \<Longrightarrow> read_branch k now db1 (ID b) = Inr b"
  using read_branch_state by (fastforce dest!: locked_Inr)

lemma guarded_Inl:
  assumes "apply_decision k now db2 b d = Inl e" "locked k now db i = Inr (b, db1)"
    "Decide (State_of b) (past b) c = Some d" "State_of b = Absent \<Longrightarrow> c = OnCancel"
    "branches db2 = branches db1"
  shows "expected_error k db i e"
  by (rule apply_Inl [OF assms(1) _ assms(3)]) (use locked_read [OF assms(2)] assms(4,5) in \<open>auto simp: read_branch_def\<close>)

lemma Confirm_Inl: "Confirm k now db i = Inl e \<Longrightarrow> db_ok db \<Longrightarrow> expected_error k db i e"
  by (auto simp: Confirm_def decide_or_panic_Inl decide_or_panic_Inr Decide_total
      split: sum.splits if_splits intro: locked_Inl elim!: guarded_Inl)

lemma expire_one_Inl: "expire_one k now db i = Inl e \<Longrightarrow> db_ok db \<Longrightarrow> expected_error k db i e"
  by (auto simp: expire_one_def decide_or_panic_Inl decide_or_panic_Inr Decide_total
      split: sum.splits if_splits intro: locked_Inl elim!: guarded_Inl)

lemma Query_Inl: "Query k now db i = Inl e \<Longrightarrow> db_ok db \<Longrightarrow> expected_error k db i e"
  by (auto simp: Query_def split: sum.splits intro: read_branch_Inl)

lemma Cancel_Inl:
  assumes "Cancel fresh k now db i = Inl e" "db_ok db" "fresh_ok fresh"
  shows "expected_error k db i e"
proof (cases "map_of (branches db) i")
  case None
  let ?db = "db\<lparr>branches := AList.update i (tombstone_row fresh now (Name k)) (branches db)\<rparr>"
  have "\<exists>b. read_branch k now ?db i = Inr b"
    by (simp add: read_branch_def update_conv' table_simps)
  with assms None show ?thesis by (auto simp: Cancel_def Let_def intro: publish_Inl)
next
  case (Some r)
  with assms show ?thesis
    by (auto simp: Cancel_def decide_or_panic_Inl decide_or_panic_Inr Decide_total
        split: sum.splits intro: locked_Inl elim!: guarded_Inl)
qed

lemma Hold_Inl:
  assumes "Hold fresh k now db i digest tk = Inl e" "db_ok db"
  shows "expected_error k db i e"
proof (cases "map_of (branches db) i")
  case None
  show ?thesis
  proof (cases "tk (component db)")
    case (Inl x)
    with assms None show ?thesis by (auto simp: Hold_def expected_error_def)
  next
    case (Inr u)
    obtain enough reason c where u: "u = (enough, reason, c)" by (cases u)
    define why where "why = (if \<not> enough \<and> reason \<noteq> [] then Some reason else None)"
    define db2 where "db2 = db\<lparr>component := c, branches :=
      AList.map_entry i (settled_row now (Period k) (if enough then Held else Rejected) why)
        (AList.update i (hold_row fresh now (Name k) digest) (branches db))\<rparr>"
    have "\<exists>b. read_branch k now db2 i = Inr b"
      by (simp add: db2_def read_branch_def map_entry_update update_conv' table_simps)
    then obtain b where b: "read_branch k now db2 i = Inr b" ..
    have "Hold fresh k now db i digest tk = publish k db2 b"
      using None Inr b unfolding why_def db2_def
      by (cases enough) (simp_all add: Hold_def u decide_or_panic_def Decide_def Let_def)
    with assms(1) show ?thesis by (simp add: publish_Inl)
  qed
next
  case (Some r)
  with assms show ?thesis
    by (auto simp: Hold_def decide_or_panic_Inl Decide_total split: sum.splits if_splits intro: read_branch_Inl)
qed

lemma Consume_Inl:
  assumes "Consume k now db i cid digest use = Inl e" "db_ok db"
  shows "expected_error k db i e"
proof (cases "map_of (consumptions db) cid")
  case None
  show ?thesis
  proof (cases "locked k now db i")
    case (Inl e')
    with assms None show ?thesis by (auto simp: Consume_def intro: locked_Inl)
  next
    case (Inr bd)
    obtain b db1 where l: "locked k now db i = Inr (b, db1)" using Inr by (cases bd) auto
    show ?thesis
    proof (cases "State_of b = Committed")
      case False
      with assms None l show ?thesis
        by (auto simp: Consume_def decide_or_panic_def Decide_def split: if_splits)
    next
      case True
      show ?thesis
      proof (cases "use (component db1) b")
        case (Inl x)
        with assms None l True show ?thesis
          by (auto simp: Consume_def decide_or_panic_def Decide_def expected_error_def)
      next
        case (Inr u)
        obtain left beyond c where u: "u = (left, beyond, c)" by (cases u)
        with assms None l True Inr obtain d where
          d: "Decide Committed (past b) (if left then OnConsumeWithin else OnConsumeExact) = Some d"
          and ap: "apply_decision k now (db1\<lparr>component := c,
            consumptions := AList.update cid (i, digest) (consumptions db1)\<rparr>) b d = Inl e"
          by (auto simp: Consume_def decide_or_panic_def Decide_def split: if_splits)
        show ?thesis by (rule guarded_Inl [OF ap l]) (use d True in auto)
      qed
    qed
  qed
next
  case (Some u)
  with assms show ?thesis
    by (auto simp: Consume_def decide_or_panic_Inl Decide_total split: sum.splits if_splits prod.splits intro: read_branch_Inl)
qed

lemma exec_op_Inl:
  assumes "exec_op fresh k now i op db = Inl e" "db_ok db" "fresh_ok fresh"
  shows "expected_error k db i e"
proof -
  have *: "map_sum id f x = Inl y \<longleftrightarrow> x = Inl y" for f :: "'x \<Rightarrow> 'y" and x and y :: 'z by (cases x) auto
  from assms show ?thesis
    by (cases op) (auto simp: exec_op_def * intro: Hold_Inl Confirm_Inl Cancel_Inl Query_Inl Consume_Inl expire_one_Inl)
qed

section \<open>The expiry job ends and leaves nothing due\<close>

lemma state_at_keys: "i \<notin> fst ` set (branches db) \<Longrightarrow> state_at db i = Absent"
  using map_of_eq_None_iff [of "branches db" i] by (simp add: state_at_def)

lemma is_due_past:
  "map_of (branches db) i = Some r \<Longrightarrow> is_due k t r \<Longrightarrow> t \<le> now \<Longrightarrow>
   state_at db i = Held \<and> past_at now db i"
  by (auto simp: is_due_def state_at_def past_at_def branch_of_def split: option.splits)

lemma expire_one_due:
  assumes "expire_one k now db i = Inr db'" "map_of (branches db) i = Some r" "is_due k t r" "t \<le> now"
  shows "branches db' = AList.map_entry i (moved_row now Expired) (branches db)"
  using expire_one_follows [OF assms(1)] is_due_past [OF assms(2-4)] assms(2)
  by (auto simp: follows_def Decide_def)

lemma expired_from_refl: "expired_from {} db db"
  by (simp add: expired_from_def)

lemma expired_from_trans:
  assumes "expired_from A db db'" "expired_from B db' db''"
  shows "expired_from (A \<union> B) db db'' \<and> A \<inter> B = {}"
proof -
  have state: "state_at x i = state_at y i" if "map_of (branches x) i = map_of (branches y) i" for x y :: "'a reserve_db" and i
    using that by (simp add: state_at_def)
  from assms have disj: "A \<inter> B = {}" by (auto simp: expired_from_def)
  have "state_at db i = Held \<and> state_at db'' i = Expired" if "i \<in> A" for i
    using that disj assms state [of db'' i db'] by (auto simp: expired_from_def)
  moreover have "state_at db i = Held \<and> state_at db'' i = Expired" if "i \<in> B" for i
    using that disj assms state [of db' i db] by (auto simp: expired_from_def)
  ultimately show ?thesis using assms disj by (auto simp: expired_from_def)
qed

lemma expire_batch_due:
  assumes "mono clk" "t \<le> clk n" "distinct is"
    and "\<forall>i \<in> set is. \<exists>r. map_of (branches db) i = Some r \<and> is_due k t r"
    and "expire_batch k clk n db is = Inr db'"
  shows "expired_from (set is) db db'"
  using assms(2-)
proof (induction "is" arbitrary: n db)
  case (Cons i js)
  then obtain r db1 where r: "map_of (branches db) i = Some r" "is_due k t r"
    and one: "expire_one k (clk n) db i = Inr db1" and rest: "expire_batch k clk (Suc n) db1 js = Inr db'"
    by (auto split: sum.splits)
  from expire_one_due [OF one r Cons.prems(1)]
  have b1: "branches db1 = AList.map_entry i (moved_row (clk n) Expired) (branches db)" .
  with is_due_past [OF r Cons.prems(1)] r(1) have first: "expired_from {i} db db1"
    by (simp add: expired_from_def map_entry_eq state_at_def table_simps)
  have "expired_from (set js) db1 db'"
  proof (rule Cons.IH [OF _ _ _ rest])
    show "t \<le> clk (Suc n)" using Cons.prems(1) monoD [OF \<open>mono clk\<close>, of n "Suc n"] by simp
    show "\<forall>j \<in> set js. \<exists>r. map_of (branches db1) j = Some r \<and> is_due k t r"
      using Cons.prems(2,3) b1 by (auto simp: map_entry_eq)
  qed (use Cons.prems(2) in simp)
  with expired_from_trans [OF first this] show ?case by simp
qed (simp add: expired_from_refl)

lemma due_ids_props:
  assumes "distinct (map fst (branches db))"
  shows "distinct (due_ids k t db)"
    and "\<forall>i \<in> set (due_ids k t db). \<exists>r. map_of (branches db) i = Some r \<and> is_due k t r"
    and "length (due_ids k t db) < batch \<Longrightarrow> map_of (branches db) i = Some r \<Longrightarrow> is_due k t r \<Longrightarrow>
      i \<in> set (due_ids k t db)"
proof -
  let ?f = "\<lambda>(i, r). case row_hold_expires_at r of None \<Rightarrow> 0 | Some t \<Rightarrow> t"
  let ?xs = "sort_key ?f (filter (\<lambda>(i, r). is_due k t r) (branches db))"
  have "mset (map fst ?xs) = mset (map fst (filter (\<lambda>(i, r). is_due k t r) (branches db)))"
    by simp
  moreover have "distinct (map fst (filter (\<lambda>(i, r). is_due k t r) (branches db)))"
    using assms by (rule distinct_map_filter)
  ultimately have d: "distinct (map fst ?xs)" using mset_eq_imp_distinct_iff by blast
  then show "distinct (due_ids k t db)" by (simp add: due_ids_def distinct_take)
  show "\<forall>i \<in> set (due_ids k t db). \<exists>r. map_of (branches db) i = Some r \<and> is_due k t r"
    using assms by (force simp: due_ids_def dest!: in_set_takeD)
  show "i \<in> set (due_ids k t db)" if "length (due_ids k t db) < batch" "map_of (branches db) i = Some r" "is_due k t r"
  proof -
    from that(1) have "due_ids k t db = map fst ?xs" by (simp add: due_ids_def)
    with that(2,3) map_of_SomeD [OF that(2)] show ?thesis by force
  qed
qed

lemma expired_from_held:
  "expired_from A db db' \<Longrightarrow> {i. state_at db' i = Held} = {i. state_at db i = Held} - A"
proof -
  assume e: "expired_from A db db'"
  have "state_at db' i = state_at db i" if "i \<notin> A" for i
    using e that by (simp add: expired_from_def state_at_def)
  with e show ?thesis by (auto simp: expired_from_def)
qed

lemma finite_held: "finite {i. state_at db i = Held}"
proof -
  have "{i. state_at db i = Held} \<subseteq> fst ` set (branches db)"
    using state_at_keys [of _ db] by force
  then show ?thesis by (rule finite_subset) simp
qed

lemma ExpireDue_total:
  assumes "mono clk" "distinct (map fst (branches db))"
    and "card {i. state_at db i = Held} < batch * fuel"
  shows "\<exists>res. ExpireDue fuel k clk n db = Some res \<and>
    (\<forall>db'. res = Inr db' \<longrightarrow> (\<exists>A. expired_from A db db') \<and>
      (\<forall>i r. map_of (branches db') i = Some r \<longrightarrow> \<not> is_due k (clk n) r))"
  using assms(2-)
proof (induction fuel arbitrary: n db)
  case (Suc fuel)
  let ?due = "due_ids k (clk n) db"
  note due = due_ids_props [OF Suc.prems(1), of k "clk n"]
  show ?case
  proof (cases "expire_batch k clk (Suc n) db ?due")
    case (Inr db1)
    from expire_batch_due [OF \<open>mono clk\<close> _ due(1,2) Inr] monoD [OF \<open>mono clk\<close>, of n "Suc n"]
    have e: "expired_from (set ?due) db db1" by simp
    show ?thesis
    proof (cases "length ?due < batch")
      case True
      have "\<not> is_due k (clk n) r" if r: "map_of (branches db1) i = Some r" for i r
      proof (cases "i \<in> set ?due")
        case True
        with e r show ?thesis by (auto simp: expired_from_def state_at_def is_due_def)
      next
        case False
        with e r have "map_of (branches db) i = Some r" by (simp add: expired_from_def)
        with due(3) [OF True] False show ?thesis by blast
      qed
      with Inr True e show ?thesis by (auto simp: Let_def)
    next
      case False
      then have len: "card (set ?due) = batch"
        using due(1) by (simp add: distinct_card) (simp add: due_ids_def)
      have sub: "set ?due \<subseteq> {i. state_at db i = Held}" using e by (auto simp: expired_from_def)
      from card_mono [OF finite_held this] len have "batch \<le> card {i. state_at db i = Held}" by simp
      with sub len Suc.prems(2) have "card {i. state_at db1 i = Held} < batch * fuel"
        by (simp add: expired_from_held [OF e] card_Diff_subset)
      moreover from e Suc.prems(1) have "distinct (map fst (branches db1))" by (simp add: expired_from_def)
      ultimately obtain res where res: "ExpireDue fuel k clk (Suc n + length ?due) db1 = Some res"
        and ok: "\<And>db'. res = Inr db' \<Longrightarrow> (\<exists>A. expired_from A db1 db') \<and>
          (\<forall>i r. map_of (branches db') i = Some r \<longrightarrow> \<not> is_due k (clk (Suc n + length ?due)) r)"
        using Suc.IH by blast
      have "clk n \<le> clk (Suc n + length ?due)" using monoD [OF \<open>mono clk\<close>] by simp
      then have later: "is_due k (clk n) r \<Longrightarrow> is_due k (clk (Suc n + length ?due)) r" for r
        by (auto simp: is_due_def split: option.splits)
      from Inr False res have "ExpireDue (Suc fuel) k clk n db = Some res" by (simp add: Let_def)
      with ok expired_from_trans [OF e] later show ?thesis by blast
    qed
  qed (simp add: Let_def)
qed simp

end
