(* ===== verification/Reserve_Stock.thy ===== *)
theory Reserve_Stock
  imports Reserve_Correct
begin

text \<open>
  The books of a participant. What a component counts (free, held per branch, used up) is a
  \<open>stock\<close> read off its tables by an abstraction function; the contract of the callbacks is the one
  the package documents: \<open>take\<close> takes what is free, \<open>use\<close> uses what the branch holds, \<open>GiveBack\<close>
  frees everything the branch holds, \<open>Lock\<close> and \<open>Changed\<close> touch nothing. Every operation is then a
  step of the abstract books (\<open>stock_step\<close>), so that what is free, held and used adds up to the
  same amount for ever and a branch that ended holds nothing.
\<close>

section \<open>The books and the contract of the callbacks\<close>

record stock =
  free :: int
  held :: "string \<Rightarrow> int"
  used :: int

definition take_out :: "string \<Rightarrow> int \<Rightarrow> stock \<Rightarrow> stock" where
  "take_out i q a = a\<lparr>free := free a - q, held := (held a)(i := held a i + q)\<rparr>"

definition give_back :: "string \<Rightarrow> stock \<Rightarrow> stock" where
  "give_back i a = a\<lparr>free := free a + held a i, held := (held a)(i := 0)\<rparr>"

definition use_up :: "string \<Rightarrow> int \<Rightarrow> stock \<Rightarrow> stock" where
  "use_up i q a = a\<lparr>held := (held a)(i := held a i - q), used := used a + q\<rparr>"

definition participant_ok :: "('c \<Rightarrow> stock) \<Rightarrow> ('c, 'e) Kind \<Rightarrow> bool" where
  "participant_ok stk k \<longleftrightarrow>
     (\<forall>c i c'. Lock k c i = Inr c' \<longrightarrow> stk c' = stk c) \<and>
     (\<forall>c b c'. Changed k c b = Inr c' \<longrightarrow> stk c' = stk c) \<and>
     (\<forall>c b c'. GiveBack k c b = Inr c' \<longrightarrow> stk c' = give_back (ID b) (stk c))"

definition take_ok :: "('c \<Rightarrow> stock) \<Rightarrow> string \<Rightarrow> ('c, 'e) Take \<Rightarrow> bool" where
  "take_ok stk i tk \<longleftrightarrow> (\<forall>c enough reason c'. tk c = Inr (enough, reason, c') \<longrightarrow>
     (if enough then \<exists>q. 0 \<le> q \<and> q \<le> free (stk c) \<and> stk c' = take_out i q (stk c) else stk c' = stk c))"

definition use_ok :: "('c \<Rightarrow> stock) \<Rightarrow> ('c, 'e) Use \<Rightarrow> bool" where
  "use_ok stk use \<longleftrightarrow> (\<forall>c b left beyond c'. use c b = Inr (left, beyond, c') \<longrightarrow>
     (if beyond then stk c' = stk c
      else \<exists>q. 0 \<le> q \<and> q \<le> held (stk c) (ID b) \<and> stk c' = use_up (ID b) q (stk c) \<and>
             (left \<longleftrightarrow> q < held (stk c) (ID b))))"

fun op_ok :: "('c \<Rightarrow> stock) \<Rightarrow> string \<Rightarrow> ('c, 'e) Op \<Rightarrow> bool" where
  "op_ok stk i (OpHold _ tk) \<longleftrightarrow> take_ok stk i tk"
| "op_ok stk i (OpConsume _ _ use) \<longleftrightarrow> use_ok stk use"
| "op_ok stk i _ \<longleftrightarrow> True"

definition stock_step :: "string \<Rightarrow> State \<Rightarrow> State \<Rightarrow> stock \<Rightarrow> stock \<Rightarrow> bool" where
  "stock_step i s s' a a' \<longleftrightarrow>
     a' = a \<and> (s' = s \<or> s = Absent \<and> s' \<in> {Rejected, Cancelled} \<or> s = Held \<and> s' = Committed)
   \<or> a' = give_back i a \<and> s \<in> {Held, Committed} \<and> s' \<in> {Expired, Released}
   \<or> (\<exists>q. a' = take_out i q a \<and> 0 \<le> q \<and> q \<le> free a \<and> s = Absent \<and> s' = Held)
   \<or> (\<exists>q. a' = use_up i q a \<and> 0 \<le> q \<and> q \<le> held a i \<and> s = Committed \<and>
          s' = (if q < held a i then Committed else Consumed))"

definition stock_ok :: "('c \<Rightarrow> stock) \<Rightarrow> 'c reserve_db \<Rightarrow> bool" where
  "stock_ok stk db \<longleftrightarrow> 0 \<le> free (stk (component db)) \<and> 0 \<le> used (stk (component db)) \<and>
     (\<forall>i. 0 \<le> held (stk (component db)) i \<and>
       (held (stk (component db)) i \<noteq> 0 \<longrightarrow> state_at db i = Held \<or> state_at db i = Committed))"

definition stock_total :: "('c \<Rightarrow> stock) \<Rightarrow> 'c reserve_db \<Rightarrow> int" where
  "stock_total stk db = free (stk (component db)) + used (stk (component db)) +
     (\<Sum>i \<in> fst ` set (branches db). held (stk (component db)) i)"

section \<open>Every operation is a step of the books\<close>

lemma apply_stock:
  assumes "participant_ok stk k" "apply_decision k now db b d = Inr (a, db')"
  shows "stk (component db') = (if dec_Resource d = GivesBack then give_back (ID b) (stk (component db))
    else stk (component db))"
  using assms(2) by (cases rule: apply_component)
    (use assms(1) in \<open>auto simp: participant_ok_def split: if_splits\<close>)

lemma locked_stock:
  "participant_ok stk k \<Longrightarrow> locked k now db i = Inr (b, db1) \<Longrightarrow> stk (component db1) = stk (component db)"
  by (drule locked_Inr) (auto simp: participant_ok_def)

lemma Decide_guarded:
  "c \<in> {OnConfirm, OnCancel, OnExpire} \<Longrightarrow> Decide s p c = Some d \<Longrightarrow>
   dec_Resource d = GivesBack \<and> s \<in> {Held, Committed} \<and> dec_To d \<in> {Expired, Released} \<or>
   dec_Resource d \<noteq> GivesBack \<and>
     (dec_To d = s \<or> s = Absent \<and> dec_To d = Cancelled \<or> s = Held \<and> dec_To d = Committed)"
  by (auto simp: Decide_def split: if_splits)

lemma guarded_stock:
  assumes p: "participant_ok stk k" and l: "locked k now db i = Inr (b, db1)"
    and d: "Decide (State_of b) (past b) c = Some d" and c: "c \<in> {OnConfirm, OnCancel, OnExpire}"
    and ap: "apply_decision k now db1 b d = Inr (a, db')"
    and f: "follows now i db c db'"
  shows "stock_step i (state_at db i) (state_at db' i) (stk (component db)) (stk (component db'))"
proof -
  from locked_Inr [OF l] read_branch_state [of k now db i b]
  have s: "State_of b = state_at db i" "past b = past_at now db i" "ID b = i" by auto
  with f d have "state_at db' i = dec_To d" by (auto simp: follows_def)
  moreover from apply_stock [OF p ap] locked_stock [OF p l] s(3)
  have "stk (component db') = (if dec_Resource d = GivesBack then give_back i (stk (component db))
    else stk (component db))" by simp
  moreover from Decide_guarded [OF c d] s(1) have
    "dec_Resource d = GivesBack \<and> state_at db i \<in> {Held, Committed} \<and> dec_To d \<in> {Expired, Released} \<or>
     dec_Resource d \<noteq> GivesBack \<and> (dec_To d = state_at db i \<or>
       state_at db i = Absent \<and> dec_To d = Cancelled \<or> state_at db i = Held \<and> dec_To d = Committed)"
    by simp
  ultimately show ?thesis unfolding stock_step_def by (elim disjE conjE) simp_all
qed

lemma Confirm_stock:
  assumes p: "participant_ok stk k" and ex: "Confirm k now db i = Inr (a, db')"
  shows "stock_step i (state_at db i) (state_at db' i) (stk (component db)) (stk (component db'))"
proof -
  from ex obtain b db1 where l: "locked k now db i = Inr (b, db1)"
    by (auto simp: Confirm_def split: sum.splits)
  show ?thesis
  proof (cases "State_of b = Absent")
    case True
    with ex l locked_Inr [OF l] have "db' = db" by (auto simp: Confirm_def)
    then show ?thesis by (simp add: stock_step_def)
  next
    case False
    with ex l obtain d where "Decide (State_of b) (past b) OnConfirm = Some d"
      "apply_decision k now db1 b d = Inr (a, db')"
      by (auto simp: Confirm_def decide_or_panic_Inr split: sum.splits)
    from guarded_stock [OF p l this(1) _ this(2)] Confirm_follows [OF ex] show ?thesis by simp
  qed
qed

lemma expire_one_stock:
  assumes p: "participant_ok stk k" and ex: "expire_one k now db i = Inr db'"
  shows "stock_step i (state_at db i) (state_at db' i) (stk (component db)) (stk (component db'))"
proof -
  from ex obtain b db1 where l: "locked k now db i = Inr (b, db1)"
    by (auto simp: expire_one_def split: sum.splits)
  show ?thesis
  proof (cases "State_of b = Absent")
    case True
    with ex l locked_Inr [OF l] have "db' = db" by (auto simp: expire_one_def)
    then show ?thesis by (simp add: stock_step_def)
  next
    case False
    with ex l obtain d a where "Decide (State_of b) (past b) OnExpire = Some d"
      "apply_decision k now db1 b d = Inr (a, db')"
      by (auto simp: expire_one_def decide_or_panic_Inr split: sum.splits)
    from guarded_stock [OF p l this(1) _ this(2)] expire_one_follows [OF ex] show ?thesis by simp
  qed
qed

lemma Cancel_stock:
  assumes p: "participant_ok stk k" and ex: "Cancel fresh k now db i = Inr (a, db')"
  shows "stock_step i (state_at db i) (state_at db' i) (stk (component db)) (stk (component db'))"
proof (cases "map_of (branches db) i")
  case None
  then have "state_at db i = Absent" by (simp add: state_at_def)
  moreover from Cancel_new [OF ex None] p have "stk (component db') = stk (component db)"
    by (auto simp: participant_ok_def)
  moreover from Cancel_new [OF ex None] have "state_at db' i = Cancelled"
    by (simp add: state_at_def update_conv' table_simps)
  ultimately show ?thesis by (simp add: stock_step_def)
next
  case (Some r)
  with ex obtain b db1 d where l: "locked k now db i = Inr (b, db1)"
    and "Decide (State_of b) (past b) OnCancel = Some d" "apply_decision k now db1 b d = Inr (a, db')"
    by (auto simp: Cancel_def decide_or_panic_Inr split: sum.splits)
  from guarded_stock [OF p l this(2) _ this(3)] Cancel_follows [OF ex] show ?thesis by simp
qed

lemma Hold_stock:
  assumes p: "participant_ok stk k" and tk: "take_ok stk i tk"
    and ex: "Hold fresh k now db i digest tk = Inr (a, db')"
  shows "stock_step i (state_at db i) (state_at db' i) (stk (component db)) (stk (component db'))"
proof (cases "map_of (branches db) i")
  case None
  then have ab: "state_at db i = Absent" by (simp add: state_at_def)
  from ex None show ?thesis
  proof (cases rule: Hold_new)
    case (1 enough reason c why b)
    from Hold_new_row [OF None 1(2)] have st: "state_at db' i = (if enough then Held else Rejected)"
      by (simp add: state_at_def table_simps)
    from 1(5) p have "stk (component db') = stk c" by (auto simp: participant_ok_def)
    moreover from tk 1(1) have "if enough then \<exists>q. 0 \<le> q \<and> q \<le> free (stk (component db)) \<and>
        stk c = take_out i q (stk (component db)) else stk c = stk (component db)"
      unfolding take_ok_def by blast
    ultimately show ?thesis using ab st by (cases enough) (auto simp: stock_step_def)
  qed
next
  case (Some r)
  with Hold_known [OF ex] show ?thesis by (simp add: stock_step_def)
qed

lemma Consume_stock:
  assumes p: "participant_ok stk k" and us: "use_ok stk use"
    and ex: "Consume k now db i cid digest use = Inr (a, db')"
  shows "stock_step i (state_at db i) (state_at db' i) (stk (component db)) (stk (component db'))"
  using ex
proof (cases rule: Consume_cases)
  case unchanged
  with p have "stk (component db') = stk (component db)" by (auto simp: participant_ok_def)
  with state_at_branches [OF unchanged(1)] show ?thesis by (simp add: stock_step_def)
next
  case (beyond b c left)
  with p us have "stk (component db') = stk (component db)"
    unfolding participant_ok_def use_ok_def by (metis (full_types))
  with state_at_branches [OF beyond(5)] show ?thesis by (simp add: stock_step_def)
next
  case (taken b c left db2 d)
  from locked_Inr [OF taken(1)] read_branch_state [of k now db i b]
  have b: "ID b = i" "State_of b = state_at db i" "past b = past_at now db i" by auto
  from locked_stock [OF p taken(1)] have "stk c = stk (component db)" by simp
  with us taken(3) b obtain q where q: "0 \<le> q" "q \<le> held (stk (component db)) i"
    "stk (component db2) = use_up i q (stk (component db))" "left \<longleftrightarrow> q < held (stk (component db)) i"
    unfolding use_ok_def by (metis (full_types))
  from taken(6) have d: "dec_Resource d \<noteq> GivesBack" "dec_To d = (if left then Committed else Consumed)" "dec_Changed d"
    by (auto simp: Decide_def split: if_splits)
  from apply_stock [OF p taken(7)] d q(3) have "stk (component db') = use_up i q (stk (component db))" by simp
  moreover from apply_tables [OF taken(7)] d b taken(4)
  have "branches db' = AList.map_entry i (moved_row now (dec_To d)) (branches db)" by simp
  with locked_present [OF taken(1)] taken(2) d have "state_at db' i = (if left then Committed else Consumed)"
    by (auto simp: state_at_def map_entry_eq table_simps)
  ultimately show ?thesis using q b taken(2) by (auto simp: stock_step_def)
qed

lemma exec_op_stock:
  assumes "participant_ok stk k" "op_ok stk i op" "exec_op fresh k now i op db = Inr db'"
  shows "stock_step i (state_at db i) (state_at db' i) (stk (component db)) (stk (component db'))"
proof (cases op)
  case OpQuery
  with assms have "db' = db" by (auto simp: exec_op_def map_sum_Inr dest!: Query_Inr)
  then show ?thesis by (simp add: stock_step_def)
qed (use assms in \<open>auto simp: exec_op_def map_sum_Inr
       intro: Hold_stock Confirm_stock Cancel_stock Consume_stock expire_one_stock\<close>)

section \<open>The books add up\<close>

lemma sum_fun_upd:
  fixes f :: "'a \<Rightarrow> int"
  assumes "finite K" "i \<in> K"
  shows "sum (f(i := v)) K = sum f K - f i + v"
proof -
  have "sum (f(i := v)) (K - {i}) = sum f (K - {i})" by (rule sum.cong) auto
  with assms show ?thesis by (simp add: sum.remove [of K i])
qed

lemma stock_step_total:
  assumes "finite K" "i \<in> K" "stock_step i s s' a a'"
  shows "free a' + used a' + sum (held a') K = free a + used a + sum (held a) K"
  using assms by (auto simp: stock_step_def give_back_def take_out_def use_up_def sum_fun_upd simp del: fun_upd_apply)

lemma stock_total_superset:
  assumes "stock_ok stk db" "finite K" "fst ` set (branches db) \<subseteq> K"
  shows "stock_total stk db = free (stk (component db)) + used (stk (component db)) +
    sum (held (stk (component db))) K"
proof -
  have "sum (held (stk (component db))) (fst ` set (branches db)) = sum (held (stk (component db))) K"
    by (rule sum.mono_neutral_left) (use assms state_at_keys [of _ db] in \<open>force simp: stock_ok_def\<close>)+
  then show ?thesis by (simp add: stock_total_def)
qed

lemma stock_step_ok:
  assumes "stock_step i (st i) s' a a'" "0 \<le> free a" "0 \<le> used a"
    and "\<forall>i. 0 \<le> held a i \<and> (held a i \<noteq> 0 \<longrightarrow> st i = Held \<or> st i = Committed)"
  shows "0 \<le> free a' \<and> 0 \<le> used a' \<and>
    (0 \<le> held a' j \<and> (held a' j \<noteq> 0 \<longrightarrow> (st(i := s')) j = Held \<or> (st(i := s')) j = Committed))"
  using assms(1-3) spec [OF assms(4), of i] spec [OF assms(4), of j]
  by (cases "j = i")
    (auto simp: stock_step_def give_back_def take_out_def use_up_def split: if_splits)

lemma exec_op_stock_ok:
  assumes "participant_ok stk k" "op_ok stk i op" and ex: "exec_op fresh k now i op db = Inr db'"
    and ok: "stock_ok stk db"
  shows "stock_ok stk db' \<and> stock_total stk db' = stock_total stk db"
proof -
  let ?a = "stk (component db)" and ?a' = "stk (component db')"
  let ?K = "insert i (fst ` set (branches db) \<union> fst ` set (branches db'))"
  note step = exec_op_stock [OF assms(1-3)]
  from exec_op_follows [OF ex] obtain c where "follows now i db c db'" by blast
  then have "state_at db' = (state_at db)(i := state_at db' i)" by (auto simp: follows_def)
  with stock_step_ok [of i "state_at db", OF step] ok have ok': "stock_ok stk db'"
    unfolding stock_ok_def by metis
  moreover have K: "finite ?K" "i \<in> ?K" "fst ` set (branches db) \<subseteq> ?K" "fst ` set (branches db') \<subseteq> ?K"
    by auto
  have "stock_total stk db' = stock_total stk db"
    using stock_total_superset [OF ok K(1,3)] stock_total_superset [OF ok' K(1,4)]
      stock_step_total [OF K(1,2) step] by simp
  ultimately show ?thesis ..
qed

lemma run_stock_ok:
  assumes "participant_ok stk k" "stock_ok stk db" "\<forall>(now, i, op) \<in> set es. op_ok stk i op"
  shows "stock_ok stk (foldl (commit_op fresh k) db es) \<and>
    stock_total stk (foldl (commit_op fresh k) db es) = stock_total stk db"
  using assms(2,3)
proof (induction es arbitrary: db)
  case (Cons e es)
  obtain now i op where e: "e = (now, i, op)" by (cases e)
  have "stock_ok stk (commit_op fresh k db e) \<and> stock_total stk (commit_op fresh k db e) = stock_total stk db"
  proof (cases "exec_op fresh k now i op db")
    case (Inr db')
    with exec_op_stock_ok [OF assms(1) _ Inr] Cons.prems e show ?thesis by (simp add: commit_op_def)
  qed (use Cons.prems in \<open>simp add: commit_op_def e\<close>)
  with Cons show ?case by auto
qed simp

section \<open>Repeated commands\<close>

lemma Hold_again:
  assumes "map_of (branches db) i = Some r" "row_ok r" "row_kind r = Name k" "row_digest r = Some dg"
  shows "\<exists>a. Hold fresh k now db i dg' tk = Inr (a, db) \<and>
    ans_Repeated a = (dg' = dg) \<and> ans_Conflict a = (dg' \<noteq> dg)"
proof -
  from assms have "row_state r \<noteq> Cancelled" by (simp add: row_ok_def)
  moreover from assms have "read_branch k now db i = Inr (branch_of now i r)"
    by (auto simp: read_branch_def row_ok_def)
  ultimately show ?thesis using assms
    by (simp add: Hold_def decide_or_panic_def Decide_def branch_of_def)
qed

lemma Hold_stored:
  assumes "Hold fresh k now db i dg tk = Inr (a, db1)" "map_of (branches db) i = None"
  obtains r where "map_of (branches db1) i = Some r" "row_kind r = Name k" "row_digest r = Some dg"
  using assms
proof (cases rule: Hold_new)
  case (1 enough reason c why b)
  from Hold_new_row [OF assms(2) 1(2)] that show ?thesis by (simp add: table_simps)
qed

lemma Consume_again:
  assumes "map_of (consumptions db) cid = Some (i, dg)" "read_branch k now db j = Inr b"
  shows "\<exists>a. Consume k now db j cid dg' use = Inr (a, db) \<and>
    ans_Repeated a = (j = i \<and> dg' = dg) \<and> ans_Conflict a = (\<not> (j = i \<and> dg' = dg))"
  using assms by (auto simp: Consume_def decide_or_panic_def Decide_def)

lemma Consume_kind:
  assumes "map_of (consumptions db) cid = None" "Consume k now db i cid dg use = Inr (a, db1)" "ans_Refused a = None"
  obtains r where "map_of (branches db) i = Some r" "row_kind r = Name k"
proof -
  from assms obtain b db1 where l: "locked k now db i = Inr (b, db1)" and s: "State_of b \<noteq> Absent"
    by (auto simp: Consume_def decide_or_panic_def Decide_def split: sum.splits if_splits)
  from locked_Inr [OF l] have "read_branch k now db i = Inr b" by simp
  then show thesis
    by (cases rule: read_branch_cases) (use s that in \<open>auto simp: absent_branch_def\<close>)
qed

lemma Consume_stored:
  assumes "Consume k now db i cid dg use = Inr (a, db1)" "map_of (consumptions db) cid = None"
    "ans_Refused a = None"
  shows "map_of (consumptions db1) cid = Some (i, dg)"
  using assms
  by (auto simp: Consume_def decide_or_panic_def Decide_def update_conv'
      split: sum.splits if_splits dest!: apply_tables)

section \<open>A component that counts\<close>

text \<open>A concrete component: its tables are the books themselves.\<close>

definition demo_kind :: "(stock, unit) Kind" where
  "demo_kind = \<lparr>Name = ''stock'', Period = 900 * Second, Lock = (\<lambda>c i. Inr c),
     GiveBack = (\<lambda>c b. Inr (give_back (ID b) c)), Changed = (\<lambda>c b. Inr c)\<rparr>"

definition demo_take :: "string \<Rightarrow> int \<Rightarrow> (stock, unit) Take" where
  "demo_take i q c =
     (if 0 \<le> q \<and> q \<le> free c then Inr (True, [], take_out i q c) else Inr (False, ''short'', c))"

definition demo_use :: "int \<Rightarrow> (stock, unit) Use" where
  "demo_use q c b =
     (if 0 \<le> q \<and> q \<le> held c (ID b) then Inr (q < held c (ID b), False, use_up (ID b) q c)
      else Inr (False, True, c))"

definition demo_fresh :: "instant \<Rightarrow> branch_row" where
  "demo_fresh now = \<lparr>row_kind = [], row_state = Absent, row_reason = None, row_digest = None,
     row_hold_expires_at = None, row_confirmed_at = None, row_version = 1,
     row_created_at = now, row_updated_at = now\<rparr>"

definition demo_db :: "stock reserve_db" where
  "demo_db = \<lparr>branches = [], consumptions = [], component = \<lparr>free = 10, held = (\<lambda>_. 0), used = 0\<rparr>\<rparr>"

lemma demo_participant: "participant_ok id demo_kind" "take_ok id i (demo_take i q)" "use_ok id (demo_use q)"
  by (auto simp: participant_ok_def demo_kind_def take_ok_def demo_take_def use_ok_def demo_use_def
      split: if_splits)

lemma demo_fresh_ok: "fresh_ok demo_fresh"
  by (simp add: fresh_ok_def demo_fresh_def)

lemma demo_db_ok: "db_ok demo_db" "stock_ok id demo_db" "stock_total id demo_db = 10"
  by (simp_all add: db_ok_def stock_ok_def stock_total_def demo_db_def)

lemmas demo_run_simps = commit_op_def exec_op_def demo_db_def demo_kind_def demo_take_def demo_use_def
  demo_fresh_def Hold_def Confirm_def Cancel_def Consume_def locked_def read_branch_def branch_of_def
  absent_branch_def publish_def move_def moved_row_def apply_decision_def decide_or_panic_def Decide_def
  hold_row_def settled_row_def tombstone_row_def answer_def take_out_def give_back_def use_up_def
  expire_one_def state_at_def

section \<open>The promises of a participant\<close>

text \<open>
  C1. Stock is conserved: when the component's callbacks keep their contract, then after any
  sequence of holds, confirmations, cancellations, consumptions and expirations, in any order, on
  any branches and with any of them failing, what is free, used up and held by the branches adds up
  to what it was, nothing is negative, and only a held or a committed branch holds anything.
\<close>

theorem reserve_conserves_stock:
  assumes "participant_ok stk k" "stock_ok stk db" "\<forall>(now, i, op) \<in> set es. op_ok stk i op"
  shows "stock_total stk (foldl (commit_op fresh k) db es) = stock_total stk db \<and>
    stock_ok stk (foldl (commit_op fresh k) db es)"
  using run_stock_ok [OF assms] by simp

theorem reserve_conserves_stock_witness:
  "let es = [(0, ''b1'', OpHold ''d'' (demo_take ''b1'' 4)), (1, ''b1'', OpConfirm),
             (2, ''b1'', OpConsume ''c'' ''d'' (demo_use 3)), (3, ''b1'', OpCancel)];
       db = foldl (commit_op demo_fresh demo_kind) demo_db es
   in stock_total id db = 10 \<and> stock_ok id db \<and> free (component db) = 7 \<and> used (component db) = 3 \<and>
      state_at db ''b1'' = Released"
proof -
  let ?es = "[(0, ''b1'', OpHold ''d'' (demo_take ''b1'' 4)), (1, ''b1'', OpConfirm),
    (2, ''b1'', OpConsume ''c'' ''d'' (demo_use 3)), (3, ''b1'', OpCancel)]"
  have "\<forall>(now, i, op) \<in> set ?es. op_ok id i op"
    by (auto simp: demo_participant)
  from reserve_conserves_stock [OF demo_participant(1) demo_db_ok(2) this, of demo_fresh] demo_db_ok(3)
  show ?thesis unfolding Let_def by (simp add: demo_run_simps)
qed







text \<open>
  A hold is taken once: after a hold was decided for a new identity, the same identity asked
  again, at any later point and with whatever operations in between, answers without running
  \<open>take\<close> and without changing anything: as a repetition when the request is the same, as a
  conflict when it is another one.
\<close>

lemma hold_once:
  assumes "fresh_ok fresh" "db_ok db" "map_of (branches db) i = None"
    and "Hold fresh k now db i dg tk = Inr (a, db1)"
  shows "\<exists>a'. Hold fresh k now' (foldl (commit_op fresh k) db1 es) i dg' tk' =
      Inr (a', foldl (commit_op fresh k) db1 es) \<and>
    ans_Repeated a' = (dg' = dg) \<and> ans_Conflict a' = (dg' \<noteq> dg)"
proof -
  let ?db = "foldl (commit_op fresh k) db1 es"
  from assms(4) have "exec_op fresh k now i (OpHold dg tk) db = Inr db1" by (simp add: exec_op_def)
  from exec_op_db_ok [OF this assms(2,1)] have "db_ok db1" .
  with reserve_run.run_inv [of fresh db1 k es] assms(1) have ok: "db_ok ?db" by blast
  obtain r where r: "map_of (branches db1) i = Some r" "row_kind r = Name k" "row_digest r = Some dg"
    using Hold_stored [OF assms(4,3)] by blast
  with reserve_up.run_le [of db1 fresh k es] obtain r' where
    r': "map_of (branches ?db) i = Some r'" "row_kind r' = Name k" "row_digest r' = Some dg"
    unfolding db_le_def row_le_def by metis
  with ok have "row_ok r'" by (auto simp: db_ok_def)
  from Hold_again [OF r'(1) this r'(2,3)] show ?thesis .
qed

text \<open>
  A consumption is used once: after a consumption was accepted on a branch, the same
  consumption identity asked again on that branch, at any later point and with whatever operations
  in between, answers without running \<open>use\<close> and without changing anything: as a repetition when the
  request is the same, as a conflict otherwise.
\<close>

lemma consume_once:
  assumes "fresh_ok fresh" "db_ok db" "map_of (consumptions db) cid = None"
    and "Consume k now db i cid dg use = Inr (a, db1)" "ans_Refused a = None"
  shows "\<exists>a'. Consume k now' (foldl (commit_op fresh k) db1 es) i cid dg' use' =
      Inr (a', foldl (commit_op fresh k) db1 es) \<and>
    ans_Repeated a' = (dg' = dg) \<and> ans_Conflict a' = (dg' \<noteq> dg)"
proof -
  let ?db = "foldl (commit_op fresh k) db1 es"
  from assms(4) have ex: "exec_op fresh k now i (OpConsume cid dg use) db = Inr db1" by (simp add: exec_op_def)
  from exec_op_db_ok [OF ex assms(2,1)] reserve_run.run_inv [of fresh db1 k es] assms(1)
  have ok: "db_ok ?db" by blast
  from Consume_stored [OF assms(4,3,5)] reserve_up.run_le [of db1 fresh k es]
  have c: "map_of (consumptions ?db) cid = Some (i, dg)" by (simp add: db_le_def)
  from assms(3,4,5) obtain r where "map_of (branches db) i = Some r" "row_kind r = Name k"
    by (cases rule: Consume_kind)
  with exec_op_le [OF ex] reserve_up.run_le [of db1 fresh k es] obtain r' where
    "map_of (branches ?db) i = Some r'" "row_kind r' = Name k"
    unfolding db_le_def row_le_def by metis
  with ok have "read_branch k now' ?db i = Inr (branch_of now' i r')"
    by (auto simp: read_branch_def db_ok_def row_ok_def)
  from Consume_again [OF c this, of dg' use'] show ?thesis by auto
qed





end
