(* ===== verification/Epochs.thy ===== *)
theory Epochs
  imports SDK_Prelude
begin

text \<open>
  Database epochs, written \<open><recovery generation>.<timeline>\<close>. Three packages read and order them,
  each with code of its own: \<open>events\<close> (\<open>Epoch\<close>, \<open>ParseEpoch\<close>, \<open>Point\<close>), \<open>projection\<close> (\<open>epochKey\<close> and
  \<open>cmpEpoch\<close> for watermark sources, \<open>parseEpoch\<close> and \<open>compareEpochs\<close> for received inputs) and \<open>authz\<close>
  (\<open>epochBefore\<close>). All are the lexicographic order of generation and timeline, and they agree on
  what \<open>Epoch.String\<close> writes.
\<close>

section \<open>Package events\<close>

record Epoch =
  Generation :: int
  Timeline :: int

definition Epoch_String :: "Epoch \<Rightarrow> string" where
  "Epoch_String e = FormatInt (Generation e) @ ''.'' @ FormatInt (Timeline e)"

definition ParseEpoch :: "string \<Rightarrow> Epoch option" where
  "ParseEpoch s =
     (case cut CHR ''.'' s of (g, t, found) \<Rightarrow>
        (case (ParseInt g, ParseInt t) of ((gen, err1), (tml, err2)) \<Rightarrow>
           if \<not> found \<or> err1 \<noteq> None \<or> err2 \<noteq> None \<or> gen < 0 \<or> tml < 0 \<or>
              FormatInt gen \<noteq> g \<or> FormatInt tml \<noteq> t
           then None
           else Some \<lparr>Generation = gen, Timeline = tml\<rparr>))"

definition Epoch_Less :: "Epoch \<Rightarrow> Epoch \<Rightarrow> bool" where
  "Epoch_Less e p \<longleftrightarrow> Generation e < Generation p \<or> Generation e = Generation p \<and> Timeline e < Timeline p"

record Point =
  Point_Epoch :: Epoch
  Seq :: int

definition Point_Less :: "Point \<Rightarrow> Point \<Rightarrow> bool" where
  "Point_Less p q =
     (if Generation (Point_Epoch p) \<noteq> Generation (Point_Epoch q)
      then Generation (Point_Epoch p) < Generation (Point_Epoch q)
      else if Timeline (Point_Epoch p) \<noteq> Timeline (Point_Epoch q)
      then Timeline (Point_Epoch p) < Timeline (Point_Epoch q)
      else Seq p < Seq q)"

definition Point_String :: "Point \<Rightarrow> string" where
  "Point_String p = Epoch_String (Point_Epoch p) @ ''/'' @ FormatInt (Seq p)"

section \<open>Package projection\<close>

text \<open>Errors of the number parser are ignored: what it returns beside the error is used.\<close>

definition epochKey :: "string \<Rightarrow> int \<times> int" where
  "epochKey e = (case cut CHR ''.'' e of (g, t, _) \<Rightarrow> (fst (ParseInt g), fst (ParseInt t)))"

definition Generation_of :: "string \<Rightarrow> int" where
  "Generation_of e = fst (epochKey e)"

text \<open>The loop over the two parts, of either integer type.\<close>

fun cmp_parts :: "('a::linorder) list \<Rightarrow> 'a list \<Rightarrow> int" where
  "cmp_parts (a # as) (b # bs) = (if a \<noteq> b then (if a < b then -1 else 1) else cmp_parts as bs)"
| "cmp_parts _ _ = 0"

definition cmpEpoch :: "int \<times> int \<Rightarrow> int \<times> int \<Rightarrow> int" where
  "cmpEpoch a b = cmp_parts [fst a, snd a] [fst b, snd b]"

definition parseEpoch :: "string \<Rightarrow> (nat \<times> nat) option" where
  "parseEpoch s =
     (case cut CHR ''.'' s of (g, t, found) \<Rightarrow>
        (case (ParseUint g, ParseUint t) of ((gen, err1), (tml, err2)) \<Rightarrow>
           if \<not> found \<or> err1 \<noteq> None \<or> err2 \<noteq> None then None else Some (gen, tml)))"

definition compareEpochs :: "string \<Rightarrow> string \<Rightarrow> int option" where
  "compareEpochs a b =
     (case parseEpoch a of
        None \<Rightarrow> None
      | Some pa \<Rightarrow>
          (case parseEpoch b of
             None \<Rightarrow> None
           | Some pb \<Rightarrow> Some (cmp_parts [fst pa, snd pa] [fst pb, snd pb])))"

section \<open>Package authz\<close>

definition epochBefore :: "string \<Rightarrow> string \<Rightarrow> bool" where
  "epochBefore a b =
     (case (cut CHR ''.'' a, cut CHR ''.'' b) of ((ag, atl, _), (bg, btl, _)) \<Rightarrow>
        let x = fst (ParseInt ag); y = fst (ParseInt bg)
        in if x \<noteq> y then x < y else fst (ParseInt atl) < fst (ParseInt btl))"

section \<open>Each is the lexicographic order\<close>

interpretation epoch_less: less_by_key Epoch_Less "\<lambda>e. (Generation e, Timeline e)"
  by unfold_locales (auto simp: Epoch_Less_def)

interpretation point_less: less_by_key Point_Less
  "\<lambda>p. (Generation (Point_Epoch p), Timeline (Point_Epoch p), Seq p)"
  by unfold_locales (auto simp: Point_Less_def)

interpretation cmp_epoch: three_way cmpEpoch "\<lambda>a. a"
  by unfold_locales (auto simp: cmpEpoch_def less_prod_def)

interpretation epoch_before: less_by_key epochBefore epochKey
  by unfold_locales
    (auto simp: epochBefore_def epochKey_def Let_def less_prod_def split: prod.splits)

text \<open>An epoch a database writes: both parts are non-negative 64-bit integers.\<close>

definition epoch_ok :: "Epoch \<Rightarrow> bool" where
  "epoch_ok e \<longleftrightarrow> 0 \<le> Generation e \<and> Generation e < 2 ^ 63 \<and> 0 \<le> Timeline e \<and> Timeline e < 2 ^ 63"

lemma cut_Epoch_String:
  "cut CHR ''.'' (Epoch_String e) = (FormatInt (Generation e), FormatInt (Timeline e), True)"
  by (simp add: Epoch_String_def cut_append FormatInt_no_dot)

lemma epochKey_String: "epoch_ok e \<Longrightarrow> epochKey (Epoch_String e) = (Generation e, Timeline e)"
  by (simp add: epochKey_def cut_Epoch_String ParseInt_FormatInt epoch_ok_def)

lemma ParseUint_FormatInt: "0 \<le> n \<Longrightarrow> n < 2 ^ 63 \<Longrightarrow> ParseUint (FormatInt n) = (nat n, None)"
  by (simp add: FormatInt_def ParseUint_def parse_format_nat)

lemma parseEpoch_String:
  "epoch_ok e \<Longrightarrow> parseEpoch (Epoch_String e) = Some (nat (Generation e), nat (Timeline e))"
  by (simp add: parseEpoch_def cut_Epoch_String ParseUint_FormatInt epoch_ok_def)

lemma ParseInt_range: "- (2 ^ 63) \<le> fst (ParseInt s) \<and> fst (ParseInt s) < 2 ^ 63"
  by (auto simp: ParseInt_def Let_def split: list.splits prod.splits)

lemma compareEpochs_String:
  assumes "epoch_ok e" "epoch_ok p"
  shows "compareEpochs (Epoch_String e) (Epoch_String p) =
    Some (cmpEpoch (Generation e, Timeline e) (Generation p, Timeline p))"
  using assms
  by (auto simp: compareEpochs_def parseEpoch_String cmpEpoch_def epoch_ok_def)

lemma ParseEpoch_canonical: "ParseEpoch s = Some e \<Longrightarrow> Epoch_String e = s \<and> epoch_ok e"
  using ParseInt_range [of "fst (cut CHR ''.'' s)"] ParseInt_range [of "fst (snd (cut CHR ''.'' s))"]
  by (auto simp: ParseEpoch_def Epoch_String_def epoch_ok_def split: prod.splits if_splits dest: cut_found)

lemma ParseEpoch_String: "epoch_ok e \<Longrightarrow> ParseEpoch (Epoch_String e) = Some e"
  by (simp add: ParseEpoch_def cut_Epoch_String ParseInt_FormatInt epoch_ok_def)

lemma Epoch_String_inj: "epoch_ok e \<Longrightarrow> epoch_ok p \<Longrightarrow> Epoch_String e = Epoch_String p \<longleftrightarrow> e = p"
  by (metis ParseEpoch_String option.inject)


text \<open>
  C21. Every package orders the written epochs the same way: the comparison of received inputs, the
  comparison of a watermark source's declarations and the check of a view's epoch are all the order
  \<open>Epoch.Less\<close> of the epochs that were written.
\<close>

theorem epoch_orders_agree:
  assumes "epoch_ok e" "epoch_ok p"
  shows "epochBefore (Epoch_String e) (Epoch_String p) = Epoch_Less e p \<and>
    cmpEpoch (epochKey (Epoch_String e)) (epochKey (Epoch_String p)) =
      (if Epoch_Less e p then -1 else if Epoch_Less p e then 1 else 0) \<and>
    compareEpochs (Epoch_String e) (Epoch_String p) =
      Some (if Epoch_Less e p then -1 else if Epoch_Less p e then 1 else 0) \<and>
    (\<not> Epoch_Less e p \<and> \<not> Epoch_Less p e \<longleftrightarrow> Epoch_String e = Epoch_String p)"
proof -
  have "epochBefore (Epoch_String e) (Epoch_String p) = Epoch_Less e p"
    by (simp only: epoch_before.less_key epoch_less.less_key epochKey_String assms)
  moreover have cmp: "cmpEpoch (Generation e, Timeline e) (Generation p, Timeline p) =
      (if Epoch_Less e p then -1 else if Epoch_Less p e then 1 else 0)"
    by (simp only: cmp_epoch.cmp_key epoch_less.less_key)
  moreover have "\<not> Epoch_Less e p \<and> \<not> Epoch_Less p e \<longleftrightarrow> Epoch_String e = Epoch_String p"
    using epoch_less.less_total [of e p] epoch_less.less_irrefl [of e] Epoch_String_inj [OF assms]
    by (cases e; cases p) auto
  ultimately show ?thesis
    by (simp only: compareEpochs_String epochKey_String assms)
qed

theorem epoch_orders_agree_witness:
  "epochBefore ''2.9'' ''10.1'' \<and> compareEpochs ''2.9'' ''10.1'' = Some (-1)"
proof -
  let ?e = "\<lparr>Generation = 2, Timeline = 9\<rparr>" and ?p = "\<lparr>Generation = 10, Timeline = 1\<rparr>"
  have w: "Epoch_String ?e = ''2.9''" "Epoch_String ?p = ''10.1''"
    by code_simp+
  have ok: "epoch_ok ?e" "epoch_ok ?p" by (simp_all add: epoch_ok_def)
  from epoch_orders_agree [OF ok] show ?thesis unfolding w by (simp add: Epoch_Less_def)
qed

end
