(* ===== verification/Streams.thy ===== *)
theory Streams
  imports SDK_Prelude
begin

text \<open>
  Event streams (\<open>events/stream.go\<close>): the declaration and its check, the partition of a record
  (FNV-1a over 64-bit words), the names of a stream on the transport, and the matching of subjects
  against a filter (\<open>events/subject.go\<close>). Letters are lower-cased in the ASCII range.
\<close>

unbundle bit_operations_syntax

section \<open>Strings\<close>

definition is_lower :: "char \<Rightarrow> bool" where
  "is_lower c \<longleftrightarrow> 97 \<le> (of_char c :: nat) \<and> (of_char c :: nat) \<le> 122"

definition is_upper :: "char \<Rightarrow> bool" where
  "is_upper c \<longleftrightarrow> 65 \<le> (of_char c :: nat) \<and> (of_char c :: nat) \<le> 90"

definition lower_char :: "char \<Rightarrow> char" where
  "lower_char c = (if is_upper c then char_of ((of_char c :: nat) + 32) else c)"

definition upper_char :: "char \<Rightarrow> char" where
  "upper_char c = (if is_lower c then char_of ((of_char c :: nat) - 32) else c)"

definition ToLower :: "string \<Rightarrow> string" where
  "ToLower s = map lower_char s"

definition ToUpper :: "string \<Rightarrow> string" where
  "ToUpper s = map upper_char s"

section \<open>The declaration\<close>

record WatermarkDecl =
  wd_Operation :: string
  wd_Pullers :: "string list"

record RecordsDecl =
  rd_Operation :: string
  rd_Readers :: "string list"
  rd_HasRead :: bool
  rd_HasPage :: bool

record Stream =
  stream_Name :: string
  Partitions :: int
  stream_Watermark :: "WatermarkDecl option"
  stream_Records :: "RecordsDecl option"

text \<open>The expression \<open>^[a-z0-9_]+(\.[a-z0-9_]+)*$\<close>: dot-separated words, none empty.\<close>

definition word_char :: "char \<Rightarrow> bool" where
  "word_char c \<longleftrightarrow> is_lower c \<or> is_digit c \<or> c = CHR ''_''"

definition streamName :: "string \<Rightarrow> bool" where
  "streamName s \<longleftrightarrow> (\<forall>t \<in> set (split_on CHR ''.'' s). t \<noteq> [] \<and> list_all word_char t)"

datatype stream_error = BadName | BadPartitions | BadWatermark | BadRecords | NoRecordReads | NotAReader string

definition Validate :: "Stream \<Rightarrow> stream_error option" where
  "Validate s =
     (if \<not> streamName (stream_Name s) then Some BadName
      else if Partitions s < 1 \<or> Partitions s > 256 then Some BadPartitions
      else if (case stream_Watermark s of None \<Rightarrow> False
               | Some w \<Rightarrow> wd_Operation w = [] \<or> wd_Pullers w = []) then Some BadWatermark
      else if (case stream_Records s of None \<Rightarrow> False
               | Some r \<Rightarrow> rd_Operation r = [] \<or> rd_Readers r = [] \<or> \<not> rd_HasRead r \<or> \<not> rd_HasPage r)
      then Some BadRecords
      else case stream_Watermark s of
             None \<Rightarrow> None
           | Some w \<Rightarrow>
               (case stream_Records s of
                  None \<Rightarrow> Some NoRecordReads
                | Some r \<Rightarrow> map_option NotAReader (find (\<lambda>c. c \<notin> set (rd_Readers r)) (wd_Pullers w))))"

section \<open>Partitions and names\<close>

definition fnv_step :: "64 word \<Rightarrow> char \<Rightarrow> 64 word" where
  "fnv_step h c = (h XOR of_nat (of_char c)) * 1099511628211"

definition fnv64a :: "string \<Rightarrow> 64 word" where
  "fnv64a s = foldl fnv_step 14695981039346656037 s"

definition PartitionOf :: "Stream \<Rightarrow> string \<Rightarrow> int" where
  "PartitionOf s recordID = uint (fnv64a (ToLower recordID) mod word_of_int (Partitions s))"

definition Subject :: "string \<Rightarrow> int \<Rightarrow> string \<Rightarrow> string" where
  "Subject stream part eventType = ''be.'' @ stream @ ''.'' @ FormatInt part @ ''.'' @ eventType"

definition JetStreamName :: "string \<Rightarrow> string" where
  "JetStreamName stream = ''BE_'' @ ToUpper (map (\<lambda>c. if c = CHR ''.'' then CHR ''_'' else c) stream)"

definition DurableName :: "string \<Rightarrow> string \<Rightarrow> string" where
  "DurableName componentID subscription =
     map (\<lambda>c. if c = CHR ''/'' \<or> c = CHR ''.'' \<or> c = CHR ''-'' then CHR ''_'' else c)
       (componentID @ ''_'' @ subscription)"

text \<open>The matching of a subject against a pattern, token by token: \<open>*\<close> is one token, \<open>>\<close> the rest.\<close>

fun match_tokens :: "string list \<Rightarrow> string list \<Rightarrow> bool" where
  "match_tokens [] ss = (ss = [])"
| "match_tokens (tok # ps) ss =
     (if tok = ''>'' then ss \<noteq> []
      else case ss of
             [] \<Rightarrow> False
           | s # ss' \<Rightarrow> if tok \<noteq> ''*'' \<and> tok \<noteq> s then False else match_tokens ps ss')"

definition SubjectMatches :: "string \<Rightarrow> string \<Rightarrow> bool" where
  "SubjectMatches pattern subject = match_tokens (split_on CHR ''.'' pattern) (split_on CHR ''.'' subject)"

definition streamPattern :: "string \<Rightarrow> string" where
  "streamPattern stream = ''be.'' @ stream @ ''.>''"

lemma PartitionOf_range:
  assumes "Validate s = None"
  shows "0 \<le> PartitionOf s i \<and> PartitionOf s i < Partitions s"
proof -
  from assms have r: "1 \<le> Partitions s" "Partitions s \<le> 256"
    by (auto simp: Validate_def split: if_splits)
  then have u: "uint (word_of_int (Partitions s) :: 64 word) = Partitions s"
    by (simp add: uint_word_of_int take_bit_eq_mod)
  have "PartitionOf s i = uint (fnv64a (ToLower i)) mod Partitions s"
    by (simp add: PartitionOf_def uint_mod_distrib u)
  with r show ?thesis by simp
qed

lemma PartitionOf_case: "ToLower i = ToLower j \<Longrightarrow> PartitionOf s i = PartitionOf s j"
  by (simp add: PartitionOf_def)

end
