(* ===== verification/Errs.thy ===== *)
theory Errs
  imports SDK_Prelude
begin

text \<open>
  The error object (\<open>errs/errs.go\<close>, \<open>errs/catalog.go\<close>) and how it crosses the two surfaces: as a
  problem document over HTTP (\<open>errs/problem.go\<close>, \<open>errs/remote.go\<close>) and as a status with details over
  gRPC (\<open>errs/grpc.go\<close>). Go's \<open>error\<close> values are a datatype whose wrapping constructor is what
  \<open>errors.As\<close> and \<open>errors.Is\<close> unwrap; metadata is an association list, a nil map being the empty one.
  A problem document is carried as the structure it encodes, strings being valid UTF-8; a header
  is its text. \<open>Duration.Seconds\<close> is a floating-point number, exact enough for its ceiling below 97
  days; the model takes the ceiling of the exact number.
\<close>

section \<open>Codes\<close>

datatype Code =
    InvalidArgument | FailedPrecondition | OutOfRange | Unauthenticated | PermissionDenied | NotFound
  | AlreadyExists | Aborted | ResourceExhausted | Cancelled | Internal | Unknown | DataLoss
  | Unimplemented | Unavailable | DeadlineExceeded | OtherCode string

abbreviation OK :: Code where "OK \<equiv> OtherCode ''OK''"

definition codeHTTP :: "(Code \<times> int) list" where
  "codeHTTP =
     [(InvalidArgument, 400), (FailedPrecondition, 400), (OutOfRange, 400), (Unauthenticated, 401),
      (PermissionDenied, 403), (NotFound, 404), (AlreadyExists, 409), (Aborted, 409),
      (ResourceExhausted, 429), (Cancelled, 499), (Internal, 500), (Unknown, 500), (DataLoss, 500),
      (Unimplemented, 501), (Unavailable, 503), (DeadlineExceeded, 504)]"

definition HTTPStatus :: "Code \<Rightarrow> int" where
  "HTTPStatus c = (case map_of codeHTTP c of Some s \<Rightarrow> s | None \<Rightarrow> 500)"

datatype log_level = LevelInfo | LevelWarn | LevelError

definition LogLevel :: "Code \<Rightarrow> log_level option" where
  "LogLevel c =
     (case c of
        Internal \<Rightarrow> Some LevelError | Unknown \<Rightarrow> Some LevelError | DataLoss \<Rightarrow> Some LevelError
      | Unavailable \<Rightarrow> Some LevelWarn | DeadlineExceeded \<Rightarrow> Some LevelWarn
      | Cancelled \<Rightarrow> None
      | _ \<Rightarrow> Some LevelInfo)"

definition AccessLogLevel :: "int \<Rightarrow> log_level" where
  "AccessLogLevel status =
     (if status = 500 then LevelError else if status = 503 \<or> status = 504 then LevelWarn else LevelInfo)"

section \<open>The error object\<close>

record Violation =
  v_Field :: string
  v_Reason :: string
  v_Description :: string

type_synonym metadata = "(string \<times> string) list"

datatype Error =
    Error (Reason: string) (Domain: string) (err_Code: Code) (HTTP: int) (Title: string) (Detail: string)
      (Metadata: metadata) (Violations: "Violation list") (RetryAfter: duration) (cause: "go_error option")
and go_error =
    Proto Error | ContextCanceled | ContextDeadlineExceeded | UnknownReason string | OtherError string
  | Wrapped string go_error

fun With :: "string \<Rightarrow> string \<Rightarrow> Error \<Rightarrow> Error" where
  "With k v (Error r d c h t de m vs ra ca) = Error r d c h t de (AList.update k v m) vs ra ca"

fun WithViolations :: "Violation list \<Rightarrow> Error \<Rightarrow> Error" where
  "WithViolations v (Error r d c h t de m vs ra ca) = Error r d c h t de m (vs @ v) ra ca"

fun WithRetryAfter :: "duration \<Rightarrow> Error \<Rightarrow> Error" where
  "WithRetryAfter ra' (Error r d c h t de m vs ra ca) = Error r d c h t de m vs ra' ca"

fun Wrap :: "go_error option \<Rightarrow> Error \<Rightarrow> Error" where
  "Wrap e (Error r d c h t de m vs ra ca) = Error r d c h t de m vs ra e"

text \<open>\<open>errors.As\<close> for an error object and \<open>errors.Is\<close> for a context error follow the wrapped errors.\<close>

fun as_Error :: "go_error \<Rightarrow> Error option" where
  "as_Error (Proto e) = Some e"
| "as_Error (Wrapped _ e) = as_Error e"
| "as_Error _ = None"

fun is_error :: "go_error \<Rightarrow> go_error \<Rightarrow> bool" where
  "is_error target (Wrapped t e) \<longleftrightarrow> Wrapped t e = target \<or> is_error target e"
| "is_error target (Proto (Error r d c h t de m vs ra (Some ca))) \<longleftrightarrow> is_error target ca"
| "is_error target e \<longleftrightarrow> e = target"

definition Is :: "go_error \<Rightarrow> string \<Rightarrow> string \<Rightarrow> bool" where
  "Is err domain reason = (case as_Error err of None \<Rightarrow> False | Some e \<Rightarrow> Domain e = domain \<and> Reason e = reason)"

section \<open>The catalog\<close>

abbreviation (input) PlatformDomain :: string where "PlatformDomain \<equiv> ''be''"

abbreviation (input) ReasonRequestInvalid :: string where "ReasonRequestInvalid \<equiv> ''REQUEST_INVALID''"
abbreviation (input) ReasonBodyTooLarge :: string where "ReasonBodyTooLarge \<equiv> ''BODY_TOO_LARGE''"
abbreviation (input) ReasonCursorInvalid :: string where "ReasonCursorInvalid \<equiv> ''CURSOR_INVALID''"
abbreviation (input) ReasonBatchTooLarge :: string where "ReasonBatchTooLarge \<equiv> ''BATCH_TOO_LARGE''"
abbreviation (input) ReasonTokenInvalid :: string where "ReasonTokenInvalid \<equiv> ''TOKEN_INVALID''"
abbreviation (input) ReasonTokenStale :: string where "ReasonTokenStale \<equiv> ''TOKEN_STALE''"
abbreviation (input) ReasonSessionEnded :: string where "ReasonSessionEnded \<equiv> ''SESSION_ENDED''"
abbreviation (input) ReasonServiceCredentialInvalid :: string where "ReasonServiceCredentialInvalid \<equiv> ''SERVICE_CREDENTIAL_INVALID''"
abbreviation (input) ReasonPermissionDenied :: string where "ReasonPermissionDenied \<equiv> ''PERMISSION_DENIED''"
abbreviation (input) ReasonContainmentNotProven :: string where "ReasonContainmentNotProven \<equiv> ''CONTAINMENT_NOT_PROVEN''"
abbreviation (input) ReasonCSRFHeaderRequired :: string where "ReasonCSRFHeaderRequired \<equiv> ''CSRF_HEADER_REQUIRED''"
abbreviation (input) ReasonNotFound :: string where "ReasonNotFound \<equiv> ''NOT_FOUND''"
abbreviation (input) ReasonQueryNotCompletable :: string where "ReasonQueryNotCompletable \<equiv> ''QUERY_NOT_COMPLETABLE''"
abbreviation (input) ReasonFieldNotQueryable :: string where "ReasonFieldNotQueryable \<equiv> ''FIELD_NOT_QUERYABLE''"
abbreviation (input) ReasonQueryPlanChanged :: string where "ReasonQueryPlanChanged \<equiv> ''QUERY_PLAN_CHANGED''"
abbreviation (input) ReasonChangeKeyConflict :: string where "ReasonChangeKeyConflict \<equiv> ''CHANGE_KEY_CONFLICT''"
abbreviation (input) ReasonChangeRevisionStale :: string where "ReasonChangeRevisionStale \<equiv> ''CHANGE_REVISION_STALE''"
abbreviation (input) ReasonLastAdminProtected :: string where "ReasonLastAdminProtected \<equiv> ''LAST_ADMIN_PROTECTED''"
abbreviation (input) ReasonRecordSealed :: string where "ReasonRecordSealed \<equiv> ''RECORD_SEALED''"
abbreviation (input) ReasonIdempotencyKeyReused :: string where "ReasonIdempotencyKeyReused \<equiv> ''IDEMPOTENCY_KEY_REUSED''"
abbreviation (input) ReasonIdempotencyInProgress :: string where "ReasonIdempotencyInProgress \<equiv> ''IDEMPOTENCY_IN_PROGRESS''"
abbreviation (input) ReasonLockTimeout :: string where "ReasonLockTimeout \<equiv> ''LOCK_TIMEOUT''"
abbreviation (input) ReasonTxConflict :: string where "ReasonTxConflict \<equiv> ''TX_CONFLICT''"
abbreviation (input) ReasonStatementTimeout :: string where "ReasonStatementTimeout \<equiv> ''STATEMENT_TIMEOUT''"
abbreviation (input) ReasonServiceBusy :: string where "ReasonServiceBusy \<equiv> ''SERVICE_BUSY''"
abbreviation (input) ReasonOutboundLimit :: string where "ReasonOutboundLimit \<equiv> ''OUTBOUND_LIMIT''"
abbreviation (input) ReasonCircuitOpen :: string where "ReasonCircuitOpen \<equiv> ''CIRCUIT_OPEN''"
abbreviation (input) ReasonDependencyUnavailable :: string where "ReasonDependencyUnavailable \<equiv> ''DEPENDENCY_UNAVAILABLE''"
abbreviation (input) ReasonDeadlineBudgetExhausted :: string where "ReasonDeadlineBudgetExhausted \<equiv> ''DEADLINE_BUDGET_EXHAUSTED''"
abbreviation (input) ReasonDeadlineExceeded :: string where "ReasonDeadlineExceeded \<equiv> ''DEADLINE_EXCEEDED''"
abbreviation (input) ReasonRequestCancelled :: string where "ReasonRequestCancelled \<equiv> ''REQUEST_CANCELLED''"
abbreviation (input) ReasonNotReady :: string where "ReasonNotReady \<equiv> ''NOT_READY''"
abbreviation (input) ReasonAuthorizationUnprovable :: string where "ReasonAuthorizationUnprovable \<equiv> ''AUTHORIZATION_UNPROVABLE''"
abbreviation (input) ReasonAuthorizationViewExpired :: string where "ReasonAuthorizationViewExpired \<equiv> ''AUTHORIZATION_VIEW_EXPIRED''"
abbreviation (input) ReasonRecoveryInProgress :: string where "ReasonRecoveryInProgress \<equiv> ''RECOVERY_IN_PROGRESS''"
abbreviation (input) ReasonMaintenance :: string where "ReasonMaintenance \<equiv> ''MAINTENANCE''"
abbreviation (input) ReasonMemberSwitchInProgress :: string where "ReasonMemberSwitchInProgress \<equiv> ''MEMBER_SWITCH_IN_PROGRESS''"
abbreviation (input) ReasonDefinitionPending :: string where "ReasonDefinitionPending \<equiv> ''DEFINITION_PENDING''"
abbreviation (input) ReasonCapabilityUnsupported :: string where "ReasonCapabilityUnsupported \<equiv> ''CAPABILITY_UNSUPPORTED''"
abbreviation (input) ReasonResultUnknown :: string where "ReasonResultUnknown \<equiv> ''RESULT_UNKNOWN''"
abbreviation (input) ReasonAuditCapacityExhausted :: string where "ReasonAuditCapacityExhausted \<equiv> ''AUDIT_CAPACITY_EXHAUSTED''"
abbreviation (input) ReasonInternal :: string where "ReasonInternal \<equiv> ''INTERNAL''"

datatype retry = RetryNo | RetryYes | RetryAfterRefresh | RetryQueryFirst | RetryNone

record Entry =
  en_Reason :: string
  en_Code :: Code
  en_HTTP :: int
  en_Retry :: retry
  en_Title :: string

definition entry :: "string \<Rightarrow> Code \<Rightarrow> int \<Rightarrow> retry \<Rightarrow> string \<Rightarrow> Entry" where
  "entry r c h re t = \<lparr>en_Reason = r, en_Code = c, en_HTTP = h, en_Retry = re, en_Title = t\<rparr>"

definition catalog :: "Entry list" where
  "catalog =
     [entry ReasonRequestInvalid InvalidArgument 0 RetryNo ''The request is not valid'',
      entry ReasonBodyTooLarge InvalidArgument 413 RetryNo ''The request body is too large'',
      entry ReasonCursorInvalid InvalidArgument 0 RetryNo ''The cursor does not match the request'',
      entry ReasonBatchTooLarge InvalidArgument 0 RetryNo ''Too many identities in one batch'',
      entry ReasonTokenInvalid Unauthenticated 0 RetryNo ''The credentials are not valid'',
      entry ReasonTokenStale Unauthenticated 0 RetryAfterRefresh ''The credentials are out of date'',
      entry ReasonSessionEnded Unauthenticated 0 RetryNo ''The session has ended; log in again'',
      entry ReasonServiceCredentialInvalid Unauthenticated 0 RetryNo ''The calling service is not authenticated'',
      entry ReasonPermissionDenied PermissionDenied 0 RetryNo ''Not allowed'',
      entry ReasonContainmentNotProven PermissionDenied 0 RetryNo ''The change exceeds what can be proven'',
      entry ReasonCSRFHeaderRequired PermissionDenied 0 RetryNo ''The request needs the BE-Request header'',
      entry ReasonNotFound NotFound 0 RetryNo ''Not found'',
      entry ReasonQueryNotCompletable FailedPrecondition 422 RetryNo ''The query cannot be completed'',
      entry ReasonFieldNotQueryable FailedPrecondition 422 RetryNo ''A field cannot be used in this query'',
      entry ReasonQueryPlanChanged Aborted 0 RetryNo ''The query changed; run it again'',
      entry ReasonChangeKeyConflict AlreadyExists 0 RetryNo ''The change key was used for different content'',
      entry ReasonChangeRevisionStale Aborted 0 RetryNo ''The target changed; preview again'',
      entry ReasonLastAdminProtected FailedPrecondition 409 RetryNo ''The last administrator is protected'',
      entry ReasonRecordSealed FailedPrecondition 409 RetryNo ''The record belongs to a sealed archive unit; write a correction'',
      entry ReasonIdempotencyKeyReused InvalidArgument 422 RetryNo ''The idempotency key was used for another request'',
      entry ReasonIdempotencyInProgress Aborted 0 RetryYes ''The first use of this idempotency key has not finished'',
      entry ReasonLockTimeout Aborted 0 RetryYes ''Waiting for a lock took too long'',
      entry ReasonTxConflict Aborted 0 RetryYes ''A concurrent change conflicted'',
      entry ReasonStatementTimeout DeadlineExceeded 0 RetryYes ''The database took too long'',
      entry ReasonServiceBusy Unavailable 0 RetryYes ''The service is busy'',
      entry ReasonOutboundLimit ResourceExhausted 503 RetryYes ''Too many calls to a dependency are in progress'',
      entry ReasonCircuitOpen Unavailable 0 RetryYes ''A dependency is failing; calls to it are paused'',
      entry ReasonDependencyUnavailable Unavailable 0 RetryYes ''A dependency is unavailable'',
      entry ReasonDeadlineBudgetExhausted DeadlineExceeded 0 RetryNo ''Not enough time was left to make a call'',
      entry ReasonDeadlineExceeded DeadlineExceeded 0 RetryQueryFirst ''The request ran out of time'',
      entry ReasonRequestCancelled Cancelled 0 RetryNone ''The request was cancelled'',
      entry ReasonNotReady Unavailable 0 RetryYes ''The service is not ready'',
      entry ReasonAuthorizationUnprovable Unavailable 0 RetryYes ''Authorization cannot be proven right now'',
      entry ReasonAuthorizationViewExpired Unavailable 0 RetryYes ''The authorization view has expired'',
      entry ReasonRecoveryInProgress Unavailable 0 RetryYes ''The deployment is being recovered'',
      entry ReasonMaintenance Unavailable 0 RetryYes ''The deployment is in a full recovery: try again once it reopens'',
      entry ReasonMemberSwitchInProgress Unavailable 0 RetryYes ''A provider switch is in progress'',
      entry ReasonDefinitionPending Unavailable 0 RetryYes ''A definition the change needs has not been accepted yet'',
      entry ReasonCapabilityUnsupported Unimplemented 0 RetryNo ''This capability is not supported'',
      entry ReasonResultUnknown DeadlineExceeded 0 RetryQueryFirst ''The result is not known yet; query it'',
      entry ReasonAuditCapacityExhausted Unavailable 0 RetryYes ''Audited operations are paused until the audit backlog drains'',
      entry ReasonInternal Internal 0 RetryNo ''Internal error'']"

definition platform :: "(string \<times> Entry) list" where
  "platform = foldl (\<lambda>m e. AList.update (en_Reason e) e m) [] catalog"

definition Platform :: "string \<Rightarrow> Entry option" where
  "Platform reason = map_of platform reason"

definition entry_status :: "Entry \<Rightarrow> int" where
  "entry_status e = (if en_HTTP e \<noteq> 0 then en_HTTP e else HTTPStatus (en_Code e))"

definition internalDetail :: string where
  "internalDetail = ''an internal error occurred; quote the trace id when reporting it''"

definition New :: "string \<Rightarrow> string \<Rightarrow> Error" where
  "New reason detail =
     (case Platform reason of
        None \<Rightarrow>
          (let i = the (Platform ReasonInternal)
           in Error (en_Reason i) PlatformDomain (en_Code i) (entry_status i) (en_Title i) internalDetail [] [] 0
                (Some (UnknownReason reason)))
      | Some e \<Rightarrow> Error (en_Reason e) PlatformDomain (en_Code e) (entry_status e) (en_Title e) detail [] [] 0 None)"

record Declared = Entry +
  dl_Domain :: string

definition Define :: "string \<Rightarrow> string \<Rightarrow> Code \<Rightarrow> int \<Rightarrow> retry \<Rightarrow> string \<Rightarrow> Declared" where
  "Define domain reason code http retry title =
     \<lparr>en_Reason = reason, en_Code = code, en_HTTP = http, en_Retry = retry, en_Title = title, dl_Domain = domain\<rparr>"

definition Declared_New :: "Declared \<Rightarrow> string \<Rightarrow> Error" where
  "Declared_New d detail =
     Error (en_Reason d) (dl_Domain d) (en_Code d) (entry_status (Entry.truncate d)) (en_Title d) detail [] [] 0 None"

definition From :: "go_error option \<Rightarrow> Error option" where
  "From err =
     (case err of
        None \<Rightarrow> None
      | Some x \<Rightarrow>
          Some (case as_Error x of
             Some e \<Rightarrow> e
           | None \<Rightarrow>
               if is_error ContextCanceled x then Wrap err (New ReasonRequestCancelled ''the request was cancelled'')
               else if is_error ContextDeadlineExceeded x then
                 Wrap err (New ReasonDeadlineExceeded ''the request ran out of time'')
               else Wrap err (New ReasonInternal internalDetail)))"

section \<open>The user surface\<close>

record Problem =
  p_Type :: string
  p_Title :: string
  p_Status :: int
  p_Detail :: string
  p_Reason :: string
  p_Domain :: string
  p_Metadata :: metadata
  p_TraceID :: string
  p_Violations :: "Violation list"

definition internal_code :: "Code \<Rightarrow> bool" where
  "internal_code c \<longleftrightarrow> c = Internal \<or> c = Unknown \<or> c = DataLoss"

definition Error_Problem :: "Error \<Rightarrow> string \<Rightarrow> Problem" where
  "Error_Problem e traceID =
     (let p = \<lparr>p_Type = ''urn:be:'' @ Domain e @ '':'' @ Reason e, p_Title = Title e, p_Status = HTTP e,
               p_Detail = Detail e, p_Reason = Reason e, p_Domain = Domain e, p_Metadata = Metadata e,
               p_TraceID = traceID, p_Violations = Violations e\<rparr>;
          p = (if internal_code (err_Code e)
               then p\<lparr>p_Reason := ReasonInternal, p_Domain := PlatformDomain,
                      p_Type := ''urn:be:be:'' @ ReasonInternal, p_Detail := internalDetail,
                      p_Metadata := [], p_Violations := [],
                      p_Title := en_Title (the (Platform ReasonInternal)), p_Status := 500\<rparr>
               else p);
          p = (if p_Title p = [] then p\<lparr>p_Title := p_Reason p\<rparr> else p)
      in if p_Detail p = [] then p\<lparr>p_Detail := p_Title p\<rparr> else p)"

record http_answer =
  ha_Status :: int
  ha_ContentType :: string
  ha_RetryAfter :: string
  ha_Body :: "Problem option"

abbreviation (input) ProblemContentType :: string where "ProblemContentType \<equiv> ''application/problem+json''"

definition ceil_seconds :: "duration \<Rightarrow> int" where
  "ceil_seconds d = - ((- d) div Second)"

definition WriteHTTP :: "Error \<Rightarrow> string \<Rightarrow> http_answer" where
  "WriteHTTP e traceID =
     (let p = Error_Problem e traceID
      in \<lparr>ha_Status = p_Status p, ha_ContentType = ProblemContentType,
          ha_RetryAfter = (if RetryAfter e > 0 then FormatInt (ceil_seconds (RetryAfter e)) else []),
          ha_Body = Some p\<rparr>)"

definition wanted_code :: "Code \<Rightarrow> bool" where
  "wanted_code c \<longleftrightarrow> c = InvalidArgument \<or> c = Unauthenticated \<or> c = PermissionDenied \<or> c = NotFound \<or>
     c = Aborted \<or> c = ResourceExhausted"

definition CodeOfStatus :: "int \<Rightarrow> Code" where
  "CodeOfStatus status =
     (if status < 400 then OK
      else if status = 502 \<or> status = 503 then Unavailable
      else if status = 504 then DeadlineExceeded
      else if status = 499 then Cancelled
      else if status \<ge> 500 then Internal
      else case find (\<lambda>(c, s). s = status \<and> wanted_code c) codeHTTP of
             Some (c, _) \<Rightarrow> c
           | None \<Rightarrow> FailedPrecondition)"

definition codeOfHTTP :: "string \<Rightarrow> string \<Rightarrow> int \<Rightarrow> Code" where
  "codeOfHTTP domain reason status =
     (case (if domain = PlatformDomain then Platform reason else None) of
        Some e \<Rightarrow> en_Code e
      | None \<Rightarrow> CodeOfStatus status)"

definition FromHTTP :: "http_answer \<Rightarrow> Error option" where
  "FromHTTP resp =
     (if ha_ContentType resp \<noteq> ProblemContentType then None
      else case ha_Body resp of
        None \<Rightarrow> None
      | Some p \<Rightarrow>
          if p_Reason p = [] \<or> p_Domain p = [] then None
          else
            (let ra = (case ParseInt (ha_RetryAfter resp) of
                         (s, None) \<Rightarrow> if s > 0 then wrap64 (s * Second) else 0
                       | (_, Some _) \<Rightarrow> 0)
             in Some (Error (p_Reason p) (p_Domain p) (codeOfHTTP (p_Domain p) (p_Reason p) (ha_Status resp))
                   (ha_Status resp) (p_Title p) (p_Detail p) (p_Metadata p) (p_Violations p) ra None)))"

section \<open>The system surface\<close>

datatype grpc_code =
    GrpcOK | GrpcCanceled | GrpcUnknown | GrpcInvalidArgument | GrpcDeadlineExceeded | GrpcNotFound
  | GrpcAlreadyExists | GrpcPermissionDenied | GrpcResourceExhausted | GrpcFailedPrecondition | GrpcAborted
  | GrpcOutOfRange | GrpcUnimplemented | GrpcInternal | GrpcUnavailable | GrpcDataLoss | GrpcUnauthenticated
  | GrpcOther nat

definition grpcCodes :: "(Code \<times> grpc_code) list" where
  "grpcCodes =
     [(InvalidArgument, GrpcInvalidArgument), (FailedPrecondition, GrpcFailedPrecondition),
      (OutOfRange, GrpcOutOfRange), (Unauthenticated, GrpcUnauthenticated),
      (PermissionDenied, GrpcPermissionDenied), (NotFound, GrpcNotFound), (AlreadyExists, GrpcAlreadyExists),
      (Aborted, GrpcAborted), (ResourceExhausted, GrpcResourceExhausted), (Cancelled, GrpcCanceled),
      (Internal, GrpcInternal), (Unknown, GrpcUnknown), (DataLoss, GrpcDataLoss),
      (Unimplemented, GrpcUnimplemented), (Unavailable, GrpcUnavailable), (DeadlineExceeded, GrpcDeadlineExceeded)]"

definition GRPCCode :: "Code \<Rightarrow> grpc_code" where
  "GRPCCode c = (case map_of grpcCodes c of Some g \<Rightarrow> g | None \<Rightarrow> GrpcUnknown)"

definition CodeOf :: "grpc_code \<Rightarrow> Code" where
  "CodeOf g =
     (if g = GrpcOK then OK
      else case find (\<lambda>(_, x). x = g) grpcCodes of Some (c, _) \<Rightarrow> c | None \<Rightarrow> Unknown)"

datatype grpc_detail =
    ErrorInfo string string metadata | BadRequest "Violation list" | RetryInfo duration | OtherDetail string

record grpc_status =
  gs_Code :: grpc_code
  gs_Message :: string
  gs_Details :: "grpc_detail list"

definition GRPCStatus :: "Error \<Rightarrow> grpc_status" where
  "GRPCStatus e =
     (let p = Error_Problem e []
      in \<lparr>gs_Code = (if p_Reason p = ReasonInternal then GrpcInternal else GRPCCode (err_Code e)),
          gs_Message = p_Detail p,
          gs_Details =
            [ErrorInfo (p_Reason p) (p_Domain p) (p_Metadata p)] @
            (if p_Violations p \<noteq> [] then [BadRequest (p_Violations p)] else []) @
            (if RetryAfter e > 0 \<and> p_Reason p \<noteq> ReasonInternal then [RetryInfo (RetryAfter e)] else [])\<rparr>)"

definition statusOf :: "string \<Rightarrow> string \<Rightarrow> Code \<Rightarrow> int" where
  "statusOf domain reason code =
     (case (if domain = PlatformDomain then Platform reason else None) of
        Some e \<Rightarrow> entry_status e
      | None \<Rightarrow> HTTPStatus code)"

definition titleOf :: "string \<Rightarrow> string \<Rightarrow> string" where
  "titleOf domain reason =
     (case (if domain = PlatformDomain then Platform reason else None) of Some e \<Rightarrow> en_Title e | None \<Rightarrow> [])"

fun read_info :: "go_error \<Rightarrow> Code \<Rightarrow> string \<Rightarrow> grpc_detail list \<Rightarrow> Error option \<Rightarrow> Error option" where
  "read_info err code msg [] e = e"
| "read_info err code msg (ErrorInfo r d m # ds) e =
     read_info err code msg ds
       (Some (Error r d code (statusOf d r code) (titleOf d r) msg m [] 0 (Some err)))"
| "read_info err code msg (_ # ds) e = read_info err code msg ds e"

fun read_details :: "grpc_detail list \<Rightarrow> Error \<Rightarrow> Error" where
  "read_details [] e = e"
| "read_details (BadRequest vs # ds) e = read_details ds (WithViolations vs e)"
| "read_details (RetryInfo d # ds) e = read_details ds (WithRetryAfter d e)"
| "read_details (_ # ds) e = read_details ds e"

text \<open>The status is what \<open>status.FromError\<close> finds in the error, if any.\<close>

definition FromGRPC :: "go_error \<Rightarrow> grpc_status option \<Rightarrow> Error option \<times> Code" where
  "FromGRPC err st =
     (case st of
        None \<Rightarrow> (None, Unknown)
      | Some s \<Rightarrow>
          (let code = CodeOf (gs_Code s)
           in case read_info err code (gs_Message s) (gs_Details s) None of
                None \<Rightarrow> (None, code)
              | Some e \<Rightarrow> (Some (read_details (gs_Details s) e), code)))"

section \<open>What crosses the surfaces\<close>

lemma platform_eq: "platform = map (\<lambda>e. (en_Reason e, e)) catalog"
proof -
  have "distinct (map en_Reason catalog)" by code_simp
  then show ?thesis by (simp add: platform_def foldl_update_distinct)
qed

declare platform_eq [code]

lemma Platform_catalog: "Platform r = Some e \<Longrightarrow> e \<in> set catalog \<and> en_Reason e = r"
  by (auto simp: Platform_def platform_eq dest: map_of_SomeD)

lemma catalog_checked:
  "list_all (\<lambda>e. en_Title e \<noteq> [] \<and> en_Reason e \<noteq> [] \<and> CodeOf (GRPCCode (en_Code e)) = en_Code e \<and>
     (internal_code (en_Code e) \<longleftrightarrow> en_Reason e = ReasonInternal) \<and>
     (internal_code (en_Code e) \<longrightarrow> en_Code e = Internal \<and> entry_status e = 500 \<and> en_Title e = ''Internal error'')) catalog"
  by code_simp

lemma Platform_checked:
  assumes "Platform r = Some e"
  shows "en_Title e \<noteq> []" "r \<noteq> []" "CodeOf (GRPCCode (en_Code e)) = en_Code e"
    and "internal_code (en_Code e) \<longleftrightarrow> r = ReasonInternal"
    and "internal_code (en_Code e) \<Longrightarrow> en_Code e = Internal \<and> entry_status e = 500 \<and> en_Title e = ''Internal error''"
  using Platform_catalog [OF assms] catalog_checked by (auto simp: list_all_iff)

lemma Platform_internal: "map_option en_Title (Platform ReasonInternal) = Some ''Internal error''"
  by code_simp

lemma CodeOf_Internal: "CodeOf GrpcInternal = Internal"
  by code_simp

text \<open>What \<open>New\<close> and the copying methods build from a reason of the catalog.\<close>

definition platform_error :: "Error \<Rightarrow> bool" where
  "platform_error e =
     (case Platform (Reason e) of
        None \<Rightarrow> False
      | Some en \<Rightarrow> Domain e = PlatformDomain \<and> err_Code e = en_Code en \<and> HTTP e = entry_status en \<and> Title e = en_Title en)"

lemma copies_name [simp]:
  "Reason (With k v e) = Reason e" "Domain (With k v e) = Domain e"
  "Reason (WithRetryAfter ra e) = Reason e" "Domain (WithRetryAfter ra e) = Domain e"
  "Reason (Wrap ca e) = Reason e" "Domain (Wrap ca e) = Domain e"
  by (cases e, simp)+

lemma New_name:
  assumes "Platform reason \<noteq> None"
  shows "Reason (New reason detail) = reason" "Domain (New reason detail) = PlatformDomain"
proof -
  from assms obtain e where e: "Platform reason = Some e" by blast
  then have "New reason detail = Error (en_Reason e) PlatformDomain (en_Code e) (entry_status e) (en_Title e) detail [] [] 0 None"
    by (simp only: New_def option.case)
  with Platform_catalog [OF e] show "Reason (New reason detail) = reason" "Domain (New reason detail) = PlatformDomain" by simp_all
qed

lemma platform_error_copies:
  "platform_error (With k v e) = platform_error e"
  "platform_error (WithViolations vs e) = platform_error e"
  "platform_error (WithRetryAfter ra e) = platform_error e"
  "platform_error (Wrap ca e) = platform_error e"
  by (cases e, simp add: platform_error_def split: option.splits)+

lemma New_platform: "platform_error (New reason detail)"
proof (cases "Platform reason")
  case None
  obtain i where "Platform ReasonInternal = Some i" using Platform_internal by auto
  with None Platform_catalog [OF this] show ?thesis by (simp add: New_def platform_error_def)
next
  case (Some e)
  then have r: "en_Reason e = reason" using Platform_catalog by blast
  have "New reason detail = Error (en_Reason e) PlatformDomain (en_Code e) (entry_status e) (en_Title e) detail [] [] 0 None"
    by (simp only: New_def Some option.case)
  then show ?thesis by (simp add: platform_error_def Some r)
qed

lemma ceil_seconds_bounds: "d \<le> ceil_seconds d * Second \<and> ceil_seconds d * Second < d + Second"
proof -
  have "(- d) div Second * Second + (- d) mod Second = - d" by (rule div_mult_mod_eq)
  moreover have "0 \<le> (- d) mod Second" "(- d) mod Second < Second" by simp_all
  ultimately show ?thesis unfolding ceil_seconds_def by linarith
qed

lemma read_back_retry:
  assumes "0 < d" "d < 2 ^ 62"
  shows "ParseInt (FormatInt (ceil_seconds d)) = (ceil_seconds d, None)" "wrap64 (ceil_seconds d * Second) = ceil_seconds d * Second"
    "0 < ceil_seconds d"
proof -
  from ceil_seconds_bounds [of d] assms have b: "d \<le> ceil_seconds d * Second" "ceil_seconds d * Second < 2 ^ 63 - 1" by auto
  with assms show "0 < ceil_seconds d" by (simp add: zero_less_mult_iff)
  with b show "ParseInt (FormatInt (ceil_seconds d)) = (ceil_seconds d, None)" by (intro ParseInt_FormatInt) auto
  from b \<open>0 < ceil_seconds d\<close> show "wrap64 (ceil_seconds d * Second) = ceil_seconds d * Second" by (intro wrap64_id) auto
qed

lemma Problem_plain:
  assumes "\<not> internal_code (err_Code e)" "Title e \<noteq> []"
  shows "p_Reason (Error_Problem e t) = Reason e" "p_Domain (Error_Problem e t) = Domain e" "p_Title (Error_Problem e t) = Title e"
    "p_Status (Error_Problem e t) = HTTP e" "p_Metadata (Error_Problem e t) = Metadata e" "p_Violations (Error_Problem e t) = Violations e"
  using assms by (simp_all add: Error_Problem_def Let_def)

lemma Problem_internal:
  assumes "internal_code (err_Code e)"
  shows "Error_Problem e t = \<lparr>p_Type = ''urn:be:be:'' @ ReasonInternal, p_Title = ''Internal error'', p_Status = 500,
    p_Detail = internalDetail, p_Reason = ReasonInternal, p_Domain = PlatformDomain, p_Metadata = [], p_TraceID = t,
    p_Violations = []\<rparr>"
  using assms Platform_internal by (auto simp: Error_Problem_def Let_def internalDetail_def)

lemma FromGRPC_plain:
  assumes "\<not> internal_code (err_Code e)" "Title e \<noteq> []" "Reason e \<noteq> ReasonInternal" "CodeOf (GRPCCode (err_Code e)) = err_Code e"
  shows "FromGRPC err (Some (GRPCStatus e)) =
    (Some (Error (Reason e) (Domain e) (err_Code e) (statusOf (Domain e) (Reason e) (err_Code e)) (titleOf (Domain e) (Reason e))
       (p_Detail (Error_Problem e [])) (Metadata e) (Violations e) (if RetryAfter e > 0 then RetryAfter e else 0) (Some err)), err_Code e)"
  using assms by (cases "Violations e = []") (simp_all add: FromGRPC_def GRPCStatus_def Problem_plain Let_def)

lemma FromGRPC_internal:
  assumes "internal_code (err_Code e)"
  shows "\<exists>g. FromGRPC err (Some (GRPCStatus e)) = (Some g, Internal) \<and> Reason g = ReasonInternal \<and> Domain g = PlatformDomain \<and>
    err_Code g = Internal \<and> HTTP g = statusOf PlatformDomain ReasonInternal Internal \<and> Title g = titleOf PlatformDomain ReasonInternal"
  using assms by (simp add: FromGRPC_def GRPCStatus_def Problem_internal Let_def CodeOf_Internal)

lemma FromHTTP_back:
  assumes "p_Reason (Error_Problem e t) \<noteq> []" "p_Domain (Error_Problem e t) \<noteq> []"
  shows "\<exists>h. FromHTTP (WriteHTTP e t) = Some h \<and> Reason h = p_Reason (Error_Problem e t) \<and> Domain h = p_Domain (Error_Problem e t) \<and>
    err_Code h = codeOfHTTP (p_Domain (Error_Problem e t)) (p_Reason (Error_Problem e t)) (p_Status (Error_Problem e t)) \<and>
    HTTP h = p_Status (Error_Problem e t) \<and> Title h = p_Title (Error_Problem e t) \<and>
    Metadata h = p_Metadata (Error_Problem e t) \<and> Violations h = p_Violations (Error_Problem e t) \<and>
    (0 < RetryAfter e \<and> RetryAfter e < 2 ^ 62 \<longrightarrow> RetryAfter h = ceil_seconds (RetryAfter e) * Second)"
  using assms read_back_retry [of "RetryAfter e"]
  by (auto simp: FromHTTP_def WriteHTTP_def Let_def split: prod.splits option.splits)

text \<open>
  C27. Both surfaces tell the same error: an error of the catalog, whatever was added to it, is read
  back from the HTTP answer and from the gRPC status with the reason, domain, code, HTTP status
  and title it was built with; unless it is internal its metadata and field errors arrive too,
  and the time to retry after arrives exactly over gRPC and rounded up to a full second over HTTP.
\<close>

theorem errs_surfaces_agree:
  assumes "platform_error e"
  shows "\<exists>h g. FromHTTP (WriteHTTP e t) = Some h \<and> FromGRPC err (Some (GRPCStatus e)) = (Some g, err_Code e) \<and>
    (\<forall>x \<in> {h, g}. Reason x = Reason e \<and> Domain x = Domain e \<and> err_Code x = err_Code e \<and> HTTP x = HTTP e \<and> Title x = Title e \<and>
       (Reason e \<noteq> ReasonInternal \<longrightarrow> Metadata x = Metadata e \<and> Violations x = Violations e)) \<and>
    (Reason e \<noteq> ReasonInternal \<and> 0 < RetryAfter e \<and> RetryAfter e < 2 ^ 62 \<longrightarrow>
       RetryAfter g = RetryAfter e \<and> RetryAfter e \<le> RetryAfter h \<and> RetryAfter h < RetryAfter e + Second)"
proof -
  from assms obtain en where en: "Platform (Reason e) = Some en" and d: "Domain e = PlatformDomain" "err_Code e = en_Code en"
    "HTTP e = entry_status en" "Title e = en_Title en" by (auto simp: platform_error_def split: option.splits)
  note chk = Platform_checked [OF en]
  show ?thesis
  proof (cases "internal_code (err_Code e)")
    case True
    then have r: "Reason e = ReasonInternal" "err_Code e = Internal" "HTTP e = 500" "Title e = ''Internal error''"
      using chk(4,5) d by auto
    then have "codeOfHTTP PlatformDomain ReasonInternal 500 = Internal" "statusOf PlatformDomain ReasonInternal Internal = 500"
      "titleOf PlatformDomain ReasonInternal = ''Internal error''"
      using en d by (auto simp: codeOfHTTP_def statusOf_def titleOf_def)
    with FromGRPC_internal [OF True, of err] FromHTTP_back [of e t] r d show ?thesis by (auto simp: Problem_internal [OF True])
  next
    case False
    then have p: "\<not> internal_code (err_Code e)" "Title e \<noteq> []" "Reason e \<noteq> ReasonInternal" "CodeOf (GRPCCode (err_Code e)) = err_Code e"
      using chk(1,3,4) d by auto
    have c: "codeOfHTTP (Domain e) (Reason e) (HTTP e) = err_Code e" "statusOf (Domain e) (Reason e) (err_Code e) = HTTP e"
      "titleOf (Domain e) (Reason e) = Title e" using en d by (auto simp: codeOfHTTP_def statusOf_def titleOf_def)
    have ne: "p_Reason (Error_Problem e t) \<noteq> []" "p_Domain (Error_Problem e t) \<noteq> []"
      using chk(2) d(1) Problem_plain [OF p(1,2)] by simp_all
    from FromHTTP_back [OF ne, unfolded Problem_plain [OF p(1,2)] c] obtain h where "FromHTTP (WriteHTTP e t) = Some h" "Reason h = Reason e" "Domain h = Domain e"
      "err_Code h = err_Code e" "HTTP h = HTTP e" "Title h = Title e" "Metadata h = Metadata e" "Violations h = Violations e"
      "0 < RetryAfter e \<and> RetryAfter e < 2 ^ 62 \<longrightarrow> RetryAfter h = ceil_seconds (RetryAfter e) * Second"
      by blast
    with FromGRPC_plain [OF p, of err] c ceil_seconds_bounds [of "RetryAfter e"] show ?thesis by simp
  qed
qed

theorem errs_surfaces_agree_witness:
  "\<exists>h g. FromHTTP (WriteHTTP (WithRetryAfter 1500000000 (New ''CIRCUIT_OPEN'' ''paused'')) ''t'') = Some h \<and>
     FromGRPC ContextCanceled (Some (GRPCStatus (WithRetryAfter 1500000000 (New ''CIRCUIT_OPEN'' ''paused'')))) =
       (Some g, err_Code (New ''CIRCUIT_OPEN'' ''paused'')) \<and> HTTP h = HTTP g"
proof -
  let ?e = "WithRetryAfter 1500000000 (New ''CIRCUIT_OPEN'' ''paused'')"
  have p: "platform_error ?e" by (simp add: platform_error_copies New_platform)
  have "err_Code ?e = err_Code (New ''CIRCUIT_OPEN'' ''paused'')" by (cases "New ''CIRCUIT_OPEN'' ''paused''") simp
  with errs_surfaces_agree [OF p, of "''t''" ContextCanceled] show ?thesis by fastforce
qed



end
