(* ===== verification/Transactions.thy ===== *)
theory Transactions
  imports Errs
begin

text \<open>
  Database transactions (\<open>db/tx.go\<close>). A transaction body is a function of the database state that
  fails or gives a result and the new state, and says which functions it registered to run after
  the commit or after the rollback. \<open>run\<close> is \<open>DB.run\<close>: the body is redone after a serialization
  failure or a deadlock, at most three times, and the error is mapped to the protocol's reasons.
  What the pool, the server and the clock answer at each attempt, and what other transactions
  committed before it, are parameters. A commit that reports an error may have taken effect.

  The components see the short form \<open>BackgroundTx\<close>, in which the server answers and only the body
  can fail.
\<close>

section \<open>One transaction among others\<close>

text \<open>What other transactions did to the database, by the number of transactions begun.\<close>

type_synonym 'd interference = "nat \<Rightarrow> 'd \<Rightarrow> 'd"

abbreviation (input) alone :: "'d interference" where
  "alone \<equiv> (\<lambda>_ db. db)"

text \<open>A background transaction: it commits its result, or leaves the database as the others left it.\<close>

definition BackgroundTx ::
  "'d interference \<Rightarrow> ('d \<Rightarrow> 'e + ('a \<times> 'd)) \<Rightarrow> nat \<times> 'd \<Rightarrow> ('e + 'a) \<times> nat \<times> 'd" where
  "BackgroundTx others f st =
     (case st of (n, db) \<Rightarrow>
        let db0 = others n db
        in case f db0 of
             Inl e \<Rightarrow> (Inl e, Suc n, db0)
           | Inr (a, db1) \<Rightarrow> (Inr a, Suc n, db1))"

section \<open>Attempts and retries\<close>

abbreviation (input) maxAttempts :: nat where "maxAttempts \<equiv> 3"

type_synonym ('a, 'd, 'h, 'r) body = "'d \<Rightarrow> (go_error + 'a \<times> 'd) \<times> 'h list \<times> 'r list"

text \<open>
  What a transaction meets: the budget; by attempt, the pool, the begin, the session settings, the
  others' commits, the cutoff check's statement and clock, the commit and whether a commit that
  failed took effect; and the driver's view of an error (its code, and whether it means that the
  database cannot be reached).
\<close>

datatype budget_answer = Free | TimedOut | CtxDone go_error

record 'd server =
  sv_InTx :: bool
  sv_budget :: budget_answer
  sv_ctx :: "go_error option"
  sv_Acquire :: "nat \<Rightarrow> go_error option"
  sv_BeginTx :: "nat \<Rightarrow> go_error option"
  sv_settings :: "nat \<Rightarrow> go_error option"
  sv_others :: "'d interference"
  sv_cutoff :: "duration option"
  sv_window :: "nat \<Rightarrow> go_error option"
  sv_Boot :: "nat \<Rightarrow> duration"
  sv_Commit :: "nat \<Rightarrow> go_error option"
  sv_took_effect :: "nat \<Rightarrow> bool"
  sv_PgCode :: "go_error \<Rightarrow> string option"
  sv_PgDetail :: "go_error \<Rightarrow> string"
  sv_unreachable :: "go_error \<Rightarrow> bool"

text \<open>A background transaction waits for its budget; a foreground one gives up after two seconds.\<close>

definition acquire :: "bool \<Rightarrow> budget_answer \<Rightarrow> go_error option" where
  "acquire foreground answer =
     (case answer of
        Free \<Rightarrow> None
      | CtxDone e \<Rightarrow> Some e
      | TimedOut \<Rightarrow>
          if foreground
          then Some (Proto (WithRetryAfter Second (With ''resource'' ''db_pool''
                 (New ReasonServiceBusy ''no database connection became free in time''))))
          else None)"

definition retryable :: "'d server \<Rightarrow> go_error \<Rightarrow> bool" where
  "retryable s err = (case sv_PgCode s err of None \<Rightarrow> False | Some c \<Rightarrow> c = ''40001'' \<or> c = ''40P01'')"

definition expired :: Error where
  "expired = New ReasonAuthorizationViewExpired ''the authorization expired before the change could be committed''"

definition check_cutoff :: "'d server \<Rightarrow> nat \<Rightarrow> go_error option" where
  "check_cutoff s n =
     (case sv_cutoff s of
        None \<Rightarrow> None
      | Some cutoff \<Rightarrow>
          (case sv_window s n of
             Some e \<Rightarrow> Some e
           | None \<Rightarrow> if sv_Boot s n \<ge> cutoff then Some (Proto expired) else None))"

text \<open>
  One attempt: its result, the database, the functions run after the commit, and those registered
  for a rollback.
\<close>

definition once ::
  "'d server \<Rightarrow> ('a, 'd, 'h, 'r) body \<Rightarrow> nat \<Rightarrow> 'd \<Rightarrow> (go_error + 'a) \<times> 'd \<times> 'h list \<times> 'r list" where
  "once s fn n db =
     (let db0 = sv_others s n db
      in case sv_Acquire s n of
           Some e \<Rightarrow> (Inl e, db0, [], [])
         | None \<Rightarrow>
        (case sv_BeginTx s n of
           Some e \<Rightarrow> (Inl e, db0, [], [])
         | None \<Rightarrow>
        (case sv_settings s n of
           Some e \<Rightarrow> (Inl e, db0, [], [])
         | None \<Rightarrow>
        (case fn db0 of
           (Inl e, _, rolled) \<Rightarrow> (Inl e, db0, [], rolled)
         | (Inr (a, db1), after, rolled) \<Rightarrow>
             (case check_cutoff s n of
                Some e \<Rightarrow> (Inl e, db0, [], rolled)
              | None \<Rightarrow>
                  (case sv_Commit s n of
                     Some e \<Rightarrow> (Inl e, if sv_took_effect s n then db1 else db0, [], rolled)
                   | None \<Rightarrow> (Inr a, db1, after, rolled)))))))"

fun tx_attempts ::
  "nat \<Rightarrow> 'd server \<Rightarrow> ('a, 'd, 'h, 'r) body \<Rightarrow> nat \<Rightarrow> 'd \<Rightarrow> (go_error + 'a) \<times> 'd \<times> 'h list \<times> 'r list" where
  "tx_attempts 0 s fn n db = (Inl (OtherError []), db, [], [])"
| "tx_attempts (Suc left) s fn n db =
     (case once s fn n db of
        (Inr a, db', after, rolled) \<Rightarrow> (Inr a, db', after, rolled)
      | (Inl e, db', after, rolled) \<Rightarrow>
          if \<not> retryable s e \<or> left = 0 then (Inl e, db', after, rolled)
          else tx_attempts left s fn (Suc n) db')"

definition mapError :: "'d server \<Rightarrow> go_error \<Rightarrow> go_error" where
  "mapError s err =
     (let unavailable = Proto (Wrap (Some err) (With ''dependency'' ''db''
                          (New ReasonDependencyUnavailable ''the database is unavailable'')));
          plain = (case From (Some err) of Some e \<Rightarrow> Proto e | None \<Rightarrow> err)
      in if as_Error err \<noteq> None then err
         else if sv_ctx s \<noteq> None then
           (case From (sv_ctx s) of Some e \<Rightarrow> Proto (Wrap (Some err) e) | None \<Rightarrow> err)
         else case sv_PgCode s err of
           Some c \<Rightarrow>
             if c = ''40001'' \<or> c = ''40P01'' then
               Proto (Wrap (Some err) (New ReasonTxConflict ''a concurrent change conflicted; try again''))
             else if c = ''55P03'' then
               Proto (Wrap (Some err) (New ReasonLockTimeout ''waiting for a lock took too long''))
             else if c = ''57014'' then
               Proto (Wrap (Some err) (New ReasonStatementTimeout ''the database took too long''))
             else if c = ''BE001'' then
               Proto (Wrap (Some err) (With ''record'' (sv_PgDetail s err)
                 (New ReasonRecordSealed ''the record belongs to a sealed archive unit'')))
             else if c \<in> {''53300'', ''57P01'', ''57P02'', ''57P03''} then unavailable
             else plain
         | None \<Rightarrow> if sv_unreachable s err then unavailable else plain)"

text \<open>The whole: the answer, the database, and the functions that ran after the commit or the rollback.\<close>

definition run ::
  "'d server \<Rightarrow> bool \<Rightarrow> ('a, 'd, 'h, 'r) body \<Rightarrow> 'd \<Rightarrow> (go_error + 'a) \<times> 'd \<times> 'h list \<times> 'r list" where
  "run s foreground fn db =
     (if sv_InTx s
      then (Inl (Proto (Wrap (Some (OtherError ''NESTED_TX: a transaction was opened inside another''))
              (New ReasonInternal []))), db, [], [])
      else case acquire foreground (sv_budget s) of
        Some e \<Rightarrow> (Inl e, db, [], [])
      | None \<Rightarrow>
          (case tx_attempts maxAttempts s fn 1 db of
             (Inr a, db', after, _) \<Rightarrow> (Inr a, db', after, [])
           | (Inl e, db', after, rolled) \<Rightarrow> (Inl (mapError s e), db', after, rolled)))"

section \<open>All or nothing\<close>

text \<open>The database as the others leave it after so many attempts.\<close>

fun others_until :: "'d server \<Rightarrow> nat \<Rightarrow> nat \<Rightarrow> 'd \<Rightarrow> 'd" where
  "others_until s n 0 db = db"
| "others_until s n (Suc k) db = others_until s (Suc n) k (sv_others s n db)"

lemma others_until_Suc: "others_until s n (Suc k) db = sv_others s (n + k) (others_until s n k db)"
  by (induction k arbitrary: n db) auto

lemma once_cases:
  assumes "once s fn n db = (res, db', after, rolled)"
  shows "case res of
      Inr a \<Rightarrow> fn (sv_others s n db) = (Inr (a, db'), after, rolled) \<and> check_cutoff s n = None
    | Inl e \<Rightarrow> after = [] \<and>
        (db' = sv_others s n db \<or> sv_took_effect s n \<and> sv_Commit s n = Some e \<and> (\<exists>a h. fn (sv_others s n db) = (Inr (a, db'), h, rolled)))"
  using assms by (auto simp: once_def Let_def split: option.splits prod.splits sum.splits if_splits)

lemma tx_attempts_cases:
  assumes "tx_attempts left s fn n db = (res, db', after, rolled)" "0 < left"
    and "\<And>n e. sv_Commit s n = Some e \<Longrightarrow> retryable s e \<Longrightarrow> \<not> sv_took_effect s n"
  shows "\<exists>k < left. case res of
      Inr a \<Rightarrow> fn (others_until s n (Suc k) db) = (Inr (a, db'), after, rolled) \<and> check_cutoff s (n + k) = None
    | Inl e \<Rightarrow> after = [] \<and>
        (db' = others_until s n (Suc k) db \<or>
         sv_took_effect s (n + k) \<and> sv_Commit s (n + k) = Some e \<and> (\<exists>a h. fn (others_until s n (Suc k) db) = (Inr (a, db'), h, rolled)))"
  using assms(1,2)
proof (induction left arbitrary: n db)
  case (Suc left)
  obtain r d1 a1 r1 where o: "once s fn n db = (r, d1, a1, r1)" by (metis prod_cases4)
  show ?case
  proof (cases "\<exists>e. r = Inl e \<and> retryable s e \<and> left \<noteq> 0")
    case False
    then have "res = r" "db' = d1" "after = a1" "rolled = r1" using Suc.prems o by (auto split: sum.splits if_splits)
    with once_cases [OF o] show ?thesis by (intro exI [of _ 0]) (simp split: sum.splits)
  next
    case True
    then obtain e where e: "r = Inl e" "retryable s e" "left \<noteq> 0" by blast
    with Suc.prems o have rest: "tx_attempts left s fn (Suc n) d1 = (res, db', after, rolled)" by simp
    have "d1 = sv_others s n db" using once_cases [OF o] e assms(3) by auto
    with Suc.IH [OF rest] e(3) obtain k where "k < left" "case res of
      Inr a \<Rightarrow> fn (others_until s (Suc n) (Suc k) (sv_others s n db)) = (Inr (a, db'), after, rolled) \<and> check_cutoff s (Suc n + k) = None
    | Inl e \<Rightarrow> after = [] \<and>
        (db' = others_until s (Suc n) (Suc k) (sv_others s n db) \<or>
         sv_took_effect s (Suc n + k) \<and> sv_Commit s (Suc n + k) = Some e \<and>
           (\<exists>a h. fn (others_until s (Suc n) (Suc k) (sv_others s n db)) = (Inr (a, db'), h, rolled)))" by auto
    then show ?thesis by (intro exI [of _ "Suc k"]) (simp split: sum.splits)
  qed
qed simp

lemma run_once_or_not:
  assumes "run s foreground fn db = (res, db', after, rolled)"
    and "\<forall>n e. sv_Commit s n = Some e \<and> retryable s e \<longrightarrow> \<not> sv_took_effect s n"
  shows "\<exists>k \<le> 3. case res of
      Inr a \<Rightarrow> (\<exists>r. fn (others_until s 1 k db) = (Inr (a, db'), after, r)) \<and> rolled = [] \<and> check_cutoff s k = None
    | Inl e \<Rightarrow> after = [] \<and>
        (db' = others_until s 1 k db \<or>
         sv_took_effect s k \<and> sv_Commit s k \<noteq> None \<and> (\<exists>a h r. fn (others_until s 1 k db) = (Inr (a, db'), h, r)))"
proof (cases "sv_InTx s \<or> acquire foreground (sv_budget s) \<noteq> None")
  case True
  with assms(1) show ?thesis by (intro exI [of _ 0]) (auto simp: run_def split: option.splits if_splits)
next
  case False
  obtain r d1 a1 r1 where a: "tx_attempts maxAttempts s fn 1 db = (r, d1, a1, r1)" by (metis prod_cases4)
  from tx_attempts_cases [OF a] assms(2) obtain k where k: "k < maxAttempts" "case r of
      Inr a \<Rightarrow> fn (others_until s 1 (Suc k) db) = (Inr (a, d1), a1, r1) \<and> check_cutoff s (1 + k) = None
    | Inl e \<Rightarrow> a1 = [] \<and>
        (d1 = others_until s 1 (Suc k) db \<or>
         sv_took_effect s (1 + k) \<and> sv_Commit s (1 + k) = Some e \<and> (\<exists>a h. fn (others_until s 1 (Suc k) db) = (Inr (a, d1), h, r1)))"
    by auto
  show ?thesis
  proof (cases r)
    case (Inr x)
    with False assms(1) a have "res = Inr x" "db' = d1" "after = a1" "rolled = []" by (auto simp: run_def)
    with k Inr show ?thesis by (intro exI [of _ "Suc k"]) auto
  next
    case (Inl e)
    with False assms(1) a have "res = Inl (mapError s e)" "db' = d1" "after = a1" by (auto simp: run_def)
    with k Inl show ?thesis by (intro exI [of _ "Suc k"]) auto
  qed
qed

text \<open>
  C7. A transaction happens once or not at all: after at most three attempts, a success means that
  the body ran to its end once on what the others had committed, that its result is what is in the
  database, that exactly the functions this attempt registered for after the commit ran and none
  for a rollback, and that a write authorized until a cutoff was committed before it; a failure
  means that no such function ran and that the database is as the others left it, unless a commit
  reported an error and took effect all the same. A serialization failure or deadlock reported by
  a commit means that it did not take effect.
\<close>

theorem tx_once_or_not:
  assumes "run s foreground fn db = (res, db', after, rolled)"
    and "\<forall>n e. sv_Commit s n = Some e \<and> retryable s e \<longrightarrow> \<not> sv_took_effect s n"
  shows "\<exists>k \<le> 3. case res of
      Inr a \<Rightarrow> (\<exists>r. fn (others_until s 1 k db) = (Inr (a, db'), after, r)) \<and> rolled = [] \<and> check_cutoff s k = None
    | Inl e \<Rightarrow> after = [] \<and>
        (db' = others_until s 1 k db \<or>
         sv_took_effect s k \<and> sv_Commit s k \<noteq> None \<and> (\<exists>a h r. fn (others_until s 1 k db) = (Inr (a, db'), h, r)))"
  using assms by (rule run_once_or_not)

text \<open>When the server answers and the body does not meet a conflict, a transaction is its short form.\<close>

lemma run_BackgroundTx:
  assumes "\<not> sv_InTx s" "sv_budget s = Free" "\<And>n. sv_Acquire s n = None" "\<And>n. sv_BeginTx s n = None" "\<And>n. sv_settings s n = None"
    and "sv_cutoff s = None" "\<And>n. sv_Commit s n = None" "\<And>d e h r. fn d = (Inl e, h, r) \<Longrightarrow> \<not> retryable s e"
  shows "(case run s False fn db of (res, db', _) \<Rightarrow> (res, db')) =
    (case BackgroundTx (sv_others s) (\<lambda>d. fst (fn d)) (1, db) of (res, _, db') \<Rightarrow> (map_sum (mapError s) id res, db'))"
proof (cases "fn (sv_others s 1 db)")
  case (fields res h r)
  then have "once s fn 1 db = (case res of Inl e \<Rightarrow> (Inl e, sv_others s 1 db, [], r) | Inr (a, d) \<Rightarrow> (Inr a, d, h, r))"
    using assms by (auto simp: once_def check_cutoff_def Let_def split: sum.splits)
  then have "tx_attempts maxAttempts s fn 1 db = (case res of Inl e \<Rightarrow> (Inl e, sv_others s 1 db, [], r) | Inr (a, d) \<Rightarrow> (Inr a, d, h, r))"
    using assms(8) fields by (auto simp: numeral_3_eq_3 split: sum.splits)
  with fields assms show ?thesis by (auto simp: run_def acquire_def BackgroundTx_def Let_def split: sum.splits)
qed

definition demo_server :: "string list server" where
  "demo_server = \<lparr>sv_InTx = False, sv_budget = Free, sv_ctx = None, sv_Acquire = (\<lambda>_. None), sv_BeginTx = (\<lambda>_. None),
     sv_settings = (\<lambda>_. None), sv_others = (\<lambda>_ db. ''other'' # db), sv_cutoff = None, sv_window = (\<lambda>_. None), sv_Boot = (\<lambda>_. 0),
     sv_Commit = (\<lambda>n. if n = 1 then Some (OtherError ''40001'') else None), sv_took_effect = (\<lambda>_. False),
     sv_PgCode = (\<lambda>e. case e of OtherError c \<Rightarrow> Some c | _ \<Rightarrow> None), sv_PgDetail = (\<lambda>_. []), sv_unreachable = (\<lambda>_. False)\<rparr>"

definition demo_body :: "(unit, string list, string, string) body" where
  "demo_body db = (Inr ((), ''mine'' # db), [''wake''], [''count''])"

lemma demo_once:
  "once demo_server demo_body n db =
    (if n = 1 then (Inl (OtherError ''40001''), ''other'' # db, [], [''count''])
     else (Inr (), ''mine'' # ''other'' # db, [''wake''], [''count'']))"
  unfolding once_def check_cutoff_def by (simp add: demo_server_def demo_body_def)

lemma demo_run: "run demo_server True demo_body [] = (Inr (), [''mine'', ''other'', ''other''], [''wake''], [])"
proof -
  have "retryable demo_server (OtherError ''40001'')" by (simp add: retryable_def demo_server_def)
  then have "tx_attempts maxAttempts demo_server demo_body 1 [] = (Inr (), [''mine'', ''other'', ''other''], [''wake''], [''count''])"
    by (simp only: numeral_3_eq_3 tx_attempts.simps demo_once) simp
  then show ?thesis by (simp add: run_def acquire_def demo_server_def)
qed

theorem tx_once_or_not_witness:
  "\<exists>k \<le> 3. (\<exists>r. demo_body (others_until demo_server 1 k []) = (Inr ((), [''mine'', ''other'', ''other'']), [''wake''], r)) \<and>
     check_cutoff demo_server k = None"
proof -
  have "\<forall>n e. sv_Commit demo_server n = Some e \<and> retryable demo_server e \<longrightarrow> \<not> sv_took_effect demo_server n"
    by (simp add: demo_server_def)
  from tx_once_or_not [OF demo_run this] show ?thesis by (simp only: sum.case) blast
qed

end
