(* ===== verification/Projection.thy ===== *)
theory Projection
  imports Epochs Transactions
begin

text \<open>
  Local copies of other components' records (package \<open>projection\<close>: \<open>projection.go\<close>, \<open>align.go\<close>):
  the state table one row is received by (\<open>Decide\<close>), the receiving of one input (\<open>Apply\<close>), the full
  re-fetch (\<open>alignTo\<close>) and the repair of incomplete rows (\<open>Repair\<close>). The tables \<open>be_projection\<close> and
  \<open>be_projection_source\<close> are kept for one projection name; a JSON document is an arbitrary type
  \<open>'j\<close>, an input whose bytes are no JSON document has \<open>None\<close>, and what PostgreSQL does to merge two
  documents is the parameter \<open>jcat\<close> (with \<open>jnil\<close> for the empty object). The column \<open>updated_at\<close>, which
  nothing reads, is left out. The record of the tables is extensible: a watermark source adds its own.
\<close>

section \<open>The state table of one row\<close>

datatype row_state = Complete | Incomplete | Tombstone

datatype input_kind = Full | Partial | Delete | Purged | OtherKind string

datatype row_action = Write | Overwrite | MergeAndFetch | WriteAndFetch | Ignore

record Row =
  State :: row_state
  Version :: int
  NeedVersion :: int
  Old :: bool

abbreviation complete_row :: "int \<Rightarrow> Row" where
  "complete_row v \<equiv> \<lparr>State = Complete, Version = v, NeedVersion = 0, Old = False\<rparr>"

abbreviation incomplete_row :: "int \<Rightarrow> Row" where
  "incomplete_row v \<equiv> \<lparr>State = Incomplete, Version = v, NeedVersion = v, Old = False\<rparr>"

abbreviation tombstone :: "int \<Rightarrow> Row" where
  "tombstone v \<equiv> \<lparr>State = Tombstone, Version = v, NeedVersion = 0, Old = False\<rparr>"

definition Decide :: "Row option \<Rightarrow> input_kind \<Rightarrow> int \<Rightarrow> Row \<times> row_action" where
  "Decide cur kind v =
     (if kind = Purged then (tombstone 0, Write)
      else case cur of
        None \<Rightarrow>
          (case kind of
             Full \<Rightarrow> (complete_row v, Write)
           | Partial \<Rightarrow> (incomplete_row v, WriteAndFetch)
           | _ \<Rightarrow> (tombstone v, Write))
      | Some r \<Rightarrow>
          if Old r then
            (case kind of
               Partial \<Rightarrow> (incomplete_row v, WriteAndFetch)
             | Full \<Rightarrow> (complete_row v, Overwrite)
             | _ \<Rightarrow> (tombstone v, Overwrite))
          else if State r = Tombstone \<and> v \<le> Version r then (r, Ignore)
          else if State r = Tombstone then
            (case kind of
               Full \<Rightarrow> (complete_row v, Overwrite)
             | Partial \<Rightarrow> (incomplete_row v, WriteAndFetch)
             | _ \<Rightarrow> (tombstone v, Write))
          else if kind = Full \<and> State r = Complete \<and> v > Version r \<or>
                  kind = Full \<and> State r = Incomplete \<and> v \<ge> NeedVersion r
          then (complete_row v, Overwrite)
          else if kind = Partial \<and> v > Version r then (incomplete_row v, MergeAndFetch)
          else if kind = Delete \<and> v \<ge> Version r then (tombstone v, Write)
          else (r, Ignore))"

section \<open>The tables\<close>

datatype source_status = Aligned | Aligning | Stalled | Blocked

record 'j proj_row =
  p_state :: row_state
  p_version :: int
  p_need :: "int option"
  p_impl :: "string option"
  p_epoch :: "string option"
  p_data :: "'j option"
  p_aligned_gen :: "int option"
  p_min_read :: "int option"

record source_row =
  s_impl :: "string option"
  s_epoch :: "string option"
  s_align_gen :: int
  s_status :: source_status

record ('j, 'c) proj_db =
  rows :: "(string \<times> 'j proj_row) list"
  source :: "source_row option"
  comp :: 'c

record 'j Input =
  RecordID :: string
  in_Kind :: input_kind
  in_Version :: int
  in_Impl :: string
  in_Epoch :: string
  in_Data :: "'j option"
  in_Seq :: int

datatype skipped = NotSkipped | OtherInstance | OlderEpoch | NewerEpoch

record Outcome =
  Fetch :: bool
  Changed :: bool
  Skipped :: skipped

text \<open>
  The errors: an epoch that is no epoch, bytes that are no JSON document, the row of the source
  missing, a newer alignment, an answer of another source, a re-fetch that makes no progress, an
  identity not answered for, an answer that is none of the three, an error of the component's
  callback or of the source's client.
\<close>

datatype 'e proj_error =
    ErrEpoch | ErrData | ErrNoSource | ErrReplaced | ErrOtherSource | ErrNoProgress
  | ErrUnanswered string | ErrAnswered string | ErrCallback 'e

record ('j, 'c, 'e) Projection =
  Changed_hook :: "('c \<Rightarrow> string \<Rightarrow> 'e + 'c) option"
  jcat :: "'j \<Rightarrow> 'j \<Rightarrow> 'j"
  jnil :: 'j

definition deref :: "string option \<Rightarrow> string" where
  "deref s = (case s of None \<Rightarrow> [] | Some t \<Rightarrow> t)"

definition changed ::
  "('j, 'c, 'e) Projection \<Rightarrow> ('j, 'c, 'z) proj_db_scheme \<Rightarrow> string \<Rightarrow> 'e proj_error + ('j, 'c, 'z) proj_db_scheme" where
  "changed p db i =
     (case Changed_hook p of
        None \<Rightarrow> Inr db
      | Some hook \<Rightarrow>
          (case hook (comp db) i of Inl e \<Rightarrow> Inl (ErrCallback e) | Inr c \<Rightarrow> Inr (db\<lparr>comp := c\<rparr>)))"

section \<open>Receiving one input\<close>

definition adopted :: "('j, 'c, 'z) proj_db_scheme \<Rightarrow> string \<times> string" where
  "adopted db = (case source db of None \<Rightarrow> ([], []) | Some s \<Rightarrow> (deref (s_impl s), deref (s_epoch s)))"

definition duringAlignment :: "('j, 'c, 'z) proj_db_scheme \<Rightarrow> int option" where
  "duringAlignment db =
     (case source db of
        None \<Rightarrow> None
      | Some s \<Rightarrow> if s_status s = Aligning then Some (s_align_gen s) else None)"

definition merged_row ::
  "('j, 'c, 'e) Projection \<Rightarrow> ('j, 'c, 'z) proj_db_scheme \<Rightarrow> 'j Input \<Rightarrow> Row \<Rightarrow> 'j \<Rightarrow> 'j proj_row \<Rightarrow> 'j proj_row" where
  "merged_row p db inp nxt doc r =
     r\<lparr>p_state := State nxt, p_version := Version nxt,
       p_need := (if State nxt = Incomplete then Some (NeedVersion nxt) else None),
       p_data := Some (jcat p (case p_data r of None \<Rightarrow> jnil p | Some d \<Rightarrow> d) doc),
       p_impl := Some (in_Impl inp), p_epoch := Some (in_Epoch inp), p_min_read := None,
       p_aligned_gen := duringAlignment db\<rparr>"

definition written_row ::
  "('j, 'c, 'z) proj_db_scheme \<Rightarrow> 'j Input \<Rightarrow> Row \<Rightarrow> 'j option \<Rightarrow> 'j proj_row" where
  "written_row db inp nxt doc =
     \<lparr>p_state = State nxt, p_version = Version nxt,
      p_need = (if State nxt = Incomplete then Some (NeedVersion nxt) else None),
      p_impl = Some (in_Impl inp), p_epoch = Some (in_Epoch inp), p_data = doc,
      p_aligned_gen = duringAlignment db, p_min_read = None\<rparr>"

definition write_row ::
  "('j, 'c, 'e) Projection \<Rightarrow> ('j, 'c, 'z) proj_db_scheme \<Rightarrow> 'j Input \<Rightarrow> Row option \<Rightarrow> Row \<Rightarrow> row_action \<Rightarrow>
   'e proj_error + (Outcome \<times> ('j, 'c, 'z) proj_db_scheme)" where
  "write_row p db inp cur nxt action =
     (if action = MergeAndFetch then
        (case in_Data inp of
           None \<Rightarrow> Inl ErrData
         | Some doc \<Rightarrow>
             (case changed p (db\<lparr>rows := AList.map_entry (RecordID inp) (merged_row p db inp nxt doc) (rows db)\<rparr>)
                     (RecordID inp) of
                Inl e \<Rightarrow> Inl e
              | Inr db' \<Rightarrow> Inr (\<lparr>Fetch = True, Changed = True, Skipped = NotSkipped\<rparr>, db')))
      else
        let wanted = (State nxt = Complete \<or> State nxt = Incomplete \<and> cur = None)
        in if wanted \<and> in_Data inp = None then Inl ErrData
           else
             (case changed p (db\<lparr>rows := AList.update (RecordID inp)
                       (written_row db inp nxt (if wanted then in_Data inp else None)) (rows db)\<rparr>) (RecordID inp) of
                Inl e \<Rightarrow> Inl e
              | Inr db' \<Rightarrow> Inr (\<lparr>Fetch = (State nxt = Incomplete), Changed = True, Skipped = NotSkipped\<rparr>, db')))"

definition row_read :: "'j Input \<Rightarrow> 'j proj_row \<Rightarrow> Row" where
  "row_read inp r =
     \<lparr>State = p_state r, Version = p_version r, NeedVersion = (case p_need r of None \<Rightarrow> 0 | Some n \<Rightarrow> n),
      Old = (deref (p_impl r) \<noteq> in_Impl inp \<or> deref (p_epoch r) \<noteq> in_Epoch inp)\<rparr>"

abbreviation nothing_done :: Outcome where
  "nothing_done \<equiv> \<lparr>Fetch = False, Changed = False, Skipped = NotSkipped\<rparr>"

definition receive ::
  "('j, 'c, 'e) Projection \<Rightarrow> ('j, 'c, 'z) proj_db_scheme \<Rightarrow> 'j Input \<Rightarrow> Row option \<Rightarrow>
   'e proj_error + (Outcome \<times> ('j, 'c, 'z) proj_db_scheme)" where
  "receive p db inp cur =
     (case Decide cur (in_Kind inp) (in_Version inp) of
        (nxt, action) \<Rightarrow> if action = Ignore then Inr (nothing_done, db) else write_row p db inp cur nxt action)"

definition Apply ::
  "('j, 'c, 'e) Projection \<Rightarrow> ('j, 'c, 'z) proj_db_scheme \<Rightarrow> 'j Input \<Rightarrow>
   'e proj_error + (Outcome \<times> ('j, 'c, 'z) proj_db_scheme)" where
  "Apply p db inp =
     (case adopted db of (adoptedImpl, adoptedEpoch) \<Rightarrow>
        let skip = (\<lambda>w. Inr (\<lparr>Fetch = False, Changed = False, Skipped = w\<rparr>, db));
            go =
              (case map_of (rows db) (RecordID inp) of
                 None \<Rightarrow> receive p db inp None
               | Some r \<Rightarrow>
                   if p_state r = Tombstone \<and> in_Seq inp > 0 \<and>
                      (case p_min_read r of None \<Rightarrow> False | Some s \<Rightarrow> in_Seq inp \<le> s)
                   then Inr (nothing_done, db)
                   else receive p db inp (Some (row_read inp r)))
        in if adoptedImpl \<noteq> [] then
             if in_Impl inp \<noteq> adoptedImpl then
               Inr (\<lparr>Fetch = False, Changed = False, Skipped = OtherInstance\<rparr>,
                    db\<lparr>source := map_option (\<lambda>s. s\<lparr>s_status := Blocked\<rparr>) (source db)\<rparr>)
             else
               (case compareEpochs (in_Epoch inp) adoptedEpoch of
                  None \<Rightarrow> Inl ErrEpoch
                | Some c \<Rightarrow> if c < 0 then skip OlderEpoch else if c > 0 then skip NewerEpoch else go)
           else go)"

definition Get :: "('j, 'c, 'z) proj_db_scheme \<Rightarrow> string \<Rightarrow> (row_state \<times> int \<times> 'j option) option" where
  "Get db i = map_option (\<lambda>r. (p_state r, p_version r, p_data r)) (map_of (rows db) i)"

section \<open>The full re-fetch\<close>

record Identity =
  Deployment :: string
  Impl :: string
  SystemID :: string
  Epoch :: string
  Primary :: bool
  Purpose :: string

definition accepts :: "Identity \<Rightarrow> Identity \<Rightarrow> bool" where
  "accepts d want \<longleftrightarrow>
     \<not> (\<not> Primary d \<or> Impl d \<noteq> Impl want \<or> Epoch d \<noteq> Epoch want \<or>
        Deployment want \<noteq> [] \<and> Deployment d \<noteq> Deployment want)"

record 'j Record =
  rec_ID :: string
  rec_Version :: int
  rec_Data :: "'j option"

datatype read_state = Exists | Gone | PurgedRead | OtherRead string

record 'j ReadResult =
  read_ID :: string
  read_State :: read_state
  read_Version :: int
  read_Data :: "'j option"

text \<open>
  The projected component, read over its contract, and the transactions of others. The alignment
  runs as a sequence of transactions of its own with calls of the source between them; before each
  transaction any other transactions of the consumer may have committed. Both are indexed by the
  number of transactions the alignment has begun: \<open>Snapshot src n cursor\<close> and \<open>Read src n ids\<close> are the
  answers at that point, \<open>others n\<close> is what other transactions did to the database since the last.
\<close>

record ('j, 'e) Source =
  Snapshot :: "nat \<Rightarrow> string \<Rightarrow> 'e + ('j Record list \<times> string \<times> Identity)"
  Read :: "nat \<Rightarrow> string list \<Rightarrow> 'e + ('j ReadResult list \<times> Identity)"

text \<open>Every write of an alignment first checks that its generation is still the current one.\<close>

definition guarded ::
  "int \<Rightarrow> (('j, 'c, 'z) proj_db_scheme \<Rightarrow> 'e proj_error + ('a \<times> ('j, 'c, 'z) proj_db_scheme)) \<Rightarrow>
   ('j, 'c, 'z) proj_db_scheme \<Rightarrow> 'e proj_error + ('a \<times> ('j, 'c, 'z) proj_db_scheme)" where
  "guarded gen f db =
     (case source db of
        None \<Rightarrow> Inl ErrNoSource
      | Some s \<Rightarrow> if s_align_gen s \<noteq> gen then Inl ErrReplaced else f db)"

definition begin_align ::
  "source_status \<Rightarrow> string \<Rightarrow> string \<Rightarrow> ('j, 'c, 'z) proj_db_scheme \<Rightarrow>
   'e proj_error + (int \<times> ('j, 'c, 'z) proj_db_scheme)" where
  "begin_align status impl epoch db =
     (let nullif = (\<lambda>s. if s = [] then None else Some s);
          s' = (case source db of
                  None \<Rightarrow> \<lparr>s_impl = nullif impl, s_epoch = nullif epoch, s_align_gen = 1, s_status = status\<rparr>
                | Some s \<Rightarrow>
                    \<lparr>s_impl = (case nullif impl of None \<Rightarrow> s_impl s | Some i \<Rightarrow> Some i),
                     s_epoch = (case nullif epoch of None \<Rightarrow> s_epoch s | Some e \<Rightarrow> Some e),
                     s_align_gen = s_align_gen s + 1, s_status = status\<rparr>)
      in Inr (s_align_gen s', db\<lparr>source := Some s'\<rparr>))"

definition put ::
  "('j, 'c, 'e) Projection \<Rightarrow> int \<Rightarrow> string \<Rightarrow> string \<Rightarrow> string \<Rightarrow> row_state \<Rightarrow> int \<Rightarrow> 'j option \<Rightarrow> int option \<Rightarrow>
   ('j, 'c, 'z) proj_db_scheme \<Rightarrow> 'e proj_error + ('j, 'c, 'z) proj_db_scheme" where
  "put p gen impl epoch i st v doc minRead db =
     (let r' = \<lparr>p_state = st, p_version = v, p_need = None, p_impl = Some impl, p_epoch = Some epoch,
                p_data = doc, p_aligned_gen = Some gen, p_min_read = minRead\<rparr>;
          wins = (case map_of (rows db) i of
                    None \<Rightarrow> True
                  | Some r \<Rightarrow> p_aligned_gen r \<noteq> Some gen \<or> p_version r < v)
      in if wins then changed p (db\<lparr>rows := AList.update i r' (rows db)\<rparr>) i else Inr db)"

fun put_records ::
  "('j, 'c, 'e) Projection \<Rightarrow> int \<Rightarrow> Identity \<Rightarrow> 'j Record list \<Rightarrow> ('j, 'c, 'z) proj_db_scheme \<Rightarrow>
   'e proj_error + (unit \<times> ('j, 'c, 'z) proj_db_scheme)" where
  "put_records p gen want [] db = Inr ((), db)"
| "put_records p gen want (r # rs) db =
     (case put p gen (Impl want) (Epoch want) (rec_ID r) Complete (rec_Version r) (rec_Data r) None db of
        Inl e \<Rightarrow> Inl e
      | Inr db' \<Rightarrow> put_records p gen want rs db')"

fun put_results ::
  "('j, 'c, 'e) Projection \<Rightarrow> int \<Rightarrow> Identity \<Rightarrow> (string \<Rightarrow> int option) \<Rightarrow> 'j ReadResult list \<Rightarrow>
   ('j, 'c, 'z) proj_db_scheme \<Rightarrow> 'e proj_error + (unit \<times> ('j, 'c, 'z) proj_db_scheme)" where
  "put_results p gen want purgedAt [] db = Inr ((), db)"
| "put_results p gen want purgedAt (r # rs) db =
     (case (case read_State r of
              Exists \<Rightarrow> put p gen (Impl want) (Epoch want) (read_ID r) Complete (read_Version r) (read_Data r) None db
            | Gone \<Rightarrow> put p gen (Impl want) (Epoch want) (read_ID r) Tombstone (read_Version r) None None db
            | PurgedRead \<Rightarrow> put p gen (Impl want) (Epoch want) (read_ID r) Tombstone 0 None (purgedAt (read_ID r)) db
            | OtherRead s \<Rightarrow> Inl (ErrAnswered s)) of
        Inl e \<Rightarrow> Inl e
      | Inr db' \<Rightarrow> put_results p gen want purgedAt rs db')"

definition learn_source ::
  "Identity \<Rightarrow> ('j, 'c, 'z) proj_db_scheme \<Rightarrow> 'e proj_error + (unit \<times> ('j, 'c, 'z) proj_db_scheme)" where
  "learn_source want db =
     Inr ((), db\<lparr>source := map_option (\<lambda>s. s\<lparr>s_impl := Some (Impl want), s_epoch := Some (Epoch want)\<rparr>) (source db)\<rparr>)"

text \<open>
  The pages of the snapshot. \<open>learn\<close>: the first page's declaration says what the run is for. The
  number of pages is the source's choice, hence the fuel.
\<close>

fun snapshot_loop ::
  "nat \<Rightarrow> ('j, 'c, 'e) Projection \<Rightarrow> ('j, 'e) Source \<Rightarrow> ('j, 'c, 'z) proj_db_scheme interference \<Rightarrow> int \<Rightarrow>
   Identity \<Rightarrow> bool \<Rightarrow> string \<Rightarrow> nat \<times> ('j, 'c, 'z) proj_db_scheme \<Rightarrow>
   (('e proj_error + Identity) \<times> nat \<times> ('j, 'c, 'z) proj_db_scheme) option" where
  "snapshot_loop 0 p src others gen want learn cursor st = None"
| "snapshot_loop (Suc fuel) p src others gen want learn cursor st =
     (case Snapshot src (fst st) cursor of
        Inl e \<Rightarrow> Some (Inl (ErrCallback e), st)
      | Inr (records, nxt, from) \<Rightarrow>
          if learn \<and> \<not> Primary from then Some (Inl ErrOtherSource, st)
          else
            let want' = (if learn then from else want)
            in case (if learn then BackgroundTx others (guarded gen (learn_source want')) st else (Inr (), st)) of
                 (Inl e, st1) \<Rightarrow> Some (Inl e, st1)
               | (Inr _, st1) \<Rightarrow>
                   if \<not> accepts from want' then Some (Inl ErrOtherSource, st1)
                   else
                     (case BackgroundTx others (guarded gen (put_records p gen want' records)) st1 of
                        (Inl e, st2) \<Rightarrow> Some (Inl e, st2)
                      | (Inr _, st2) \<Rightarrow>
                          if nxt = [] then Some (Inr want', st2)
                          else snapshot_loop fuel p src others gen want' False nxt st2))"

text \<open>The rows the snapshot did not have, read by identity in batches.\<close>

abbreviation read_batch :: nat where "read_batch \<equiv> 500"

definition untouched_ids :: "int \<Rightarrow> ('j, 'c, 'z) proj_db_scheme \<Rightarrow> string list" where
  "untouched_ids gen db = take read_batch (sort (map fst (filter (\<lambda>(i, r). p_aligned_gen r \<noteq> Some gen) (rows db))))"

definition pick_untouched ::
  "int \<Rightarrow> ('j, 'c, 'z) proj_db_scheme \<Rightarrow> 'e proj_error + (string list \<times> ('j, 'c, 'z) proj_db_scheme)" where
  "pick_untouched gen db = Inr (untouched_ids gen db, db)"

fun read_loop ::
  "nat \<Rightarrow> ('j, 'c, 'e) Projection \<Rightarrow> ('j, 'e) Source \<Rightarrow> ('j, 'c, 'z) proj_db_scheme interference \<Rightarrow> int \<Rightarrow>
   Identity \<Rightarrow> (string \<Rightarrow> int option) \<Rightarrow> string list \<Rightarrow> nat \<times> ('j, 'c, 'z) proj_db_scheme \<Rightarrow>
   (('e proj_error + unit) \<times> nat \<times> ('j, 'c, 'z) proj_db_scheme) option" where
  "read_loop 0 p src others gen want purgedAt prev st = None"
| "read_loop (Suc fuel) p src others gen want purgedAt prev st =
     (case BackgroundTx others (pick_untouched gen) st of
        (Inl e, st1) \<Rightarrow> Some (Inl e, st1)
      | (Inr ids, st1) \<Rightarrow>
          if ids = [] then Some (Inr (), st1)
          else if ids = prev then Some (Inl ErrNoProgress, st1)
          else
            (case Read src (fst st1) ids of
               Inl e \<Rightarrow> Some (Inl (ErrCallback e), st1)
             | Inr (results, from) \<Rightarrow>
                 if \<not> accepts from want then Some (Inl ErrOtherSource, st1)
                 else
                   (case BackgroundTx others (guarded gen (put_results p gen want purgedAt results)) st1 of
                      (Inl e, st2) \<Rightarrow> Some (Inl e, st2)
                    | (Inr _, st2) \<Rightarrow>
                        (case find (\<lambda>i. i \<notin> set (map read_ID results)) ids of
                           Some i \<Rightarrow> Some (Inl (ErrUnanswered i), st2)
                         | None \<Rightarrow> read_loop fuel p src others gen want purgedAt ids st2))))"

text \<open>
  What a watermark source adds: the state shown meanwhile, a step after the generation began that
  gives the positions \<open>'p\<close> the snapshot starts from, the position a purged record's tombstone accepts
  inputs past, and the completion.
\<close>

record ('d, 'e, 'p) alignHooks =
  h_status :: source_status
  h_started :: "int \<Rightarrow> nat \<times> 'd \<Rightarrow> ('e proj_error + 'p) \<times> nat \<times> 'd"
  h_purgedAt :: "'p \<Rightarrow> string \<Rightarrow> int option"
  h_done :: "'p \<Rightarrow> int \<Rightarrow> 'd \<Rightarrow> 'e proj_error + (unit \<times> 'd)"

definition mark_aligned ::
  "('j, 'c, 'z) proj_db_scheme \<Rightarrow> 'e proj_error + (unit \<times> ('j, 'c, 'z) proj_db_scheme)" where
  "mark_aligned db = Inr ((), db\<lparr>source := map_option (\<lambda>s. s\<lparr>s_status := Aligned\<rparr>) (source db)\<rparr>)"

definition no_hooks :: "(('j, 'c, 'z) proj_db_scheme, 'e, unit) alignHooks" where
  "no_hooks = \<lparr>h_status = Aligning, h_started = (\<lambda>gen st. (Inr (), st)), h_purgedAt = (\<lambda>_ _. None),
     h_done = (\<lambda>_ _ db. mark_aligned db)\<rparr>"

definition alignTo ::
  "nat \<Rightarrow> ('j, 'c, 'e) Projection \<Rightarrow> ('j, 'e) Source \<Rightarrow> ('j, 'c, 'z) proj_db_scheme interference \<Rightarrow> Identity \<Rightarrow>
   (('j, 'c, 'z) proj_db_scheme, 'e, 'p) alignHooks \<Rightarrow> nat \<times> ('j, 'c, 'z) proj_db_scheme \<Rightarrow>
   (('e proj_error + unit) \<times> nat \<times> ('j, 'c, 'z) proj_db_scheme) option" where
  "alignTo fuel p src others want h st =
     (case BackgroundTx others (begin_align (h_status h) (Impl want) (Epoch want)) st of
        (Inl e, st1) \<Rightarrow> Some (Inl e, st1)
      | (Inr gen, st1) \<Rightarrow>
          (case h_started h gen st1 of
             (Inl e, st2) \<Rightarrow> Some (Inl e, st2)
           | (Inr p0, st2) \<Rightarrow>
               (case snapshot_loop fuel p src others gen want (Impl want = []) [] st2 of
                  None \<Rightarrow> None
                | Some (Inl e, st3) \<Rightarrow> Some (Inl e, st3)
                | Some (Inr want', st3) \<Rightarrow>
                    (case read_loop fuel p src others gen want' (h_purgedAt h p0) [] st3 of
                       None \<Rightarrow> None
                     | Some (Inl e, st4) \<Rightarrow> Some (Inl e, st4)
                     | Some (Inr _, st4) \<Rightarrow> Some (BackgroundTx others (guarded gen (h_done h p0 gen)) st4)))))"

definition nobody :: Identity where
  "nobody = \<lparr>Deployment = [], Impl = [], SystemID = [], Epoch = [], Primary = False, Purpose = []\<rparr>"

definition Align ::
  "nat \<Rightarrow> ('j, 'c, 'e) Projection \<Rightarrow> ('j, 'e) Source \<Rightarrow> ('j, 'c, 'z) proj_db_scheme interference \<Rightarrow>
   nat \<times> ('j, 'c, 'z) proj_db_scheme \<Rightarrow>
   (('e proj_error + unit) \<times> nat \<times> ('j, 'c, 'z) proj_db_scheme) option" where
  "Align fuel p src others st = alignTo fuel p src others nobody no_hooks st"

section \<open>The repair of incomplete rows\<close>

definition incomplete_ids :: "('j, 'c, 'z) proj_db_scheme \<Rightarrow> string list" where
  "incomplete_ids db = take read_batch (sort (map fst (filter (\<lambda>(i, r). p_state r = Incomplete) (rows db))))"

definition read_kind :: "read_state \<Rightarrow> input_kind option" where
  "read_kind s = (case s of Exists \<Rightarrow> Some Full | Gone \<Rightarrow> Some Delete | PurgedRead \<Rightarrow> Some Purged | OtherRead _ \<Rightarrow> None)"

fun repair_results ::
  "('j, 'c, 'e) Projection \<Rightarrow> Identity \<Rightarrow> 'j ReadResult list \<Rightarrow> nat \<Rightarrow> ('j, 'c, 'z) proj_db_scheme \<Rightarrow>
   'e proj_error + (nat \<times> ('j, 'c, 'z) proj_db_scheme)" where
  "repair_results p from [] n db = Inr (n, db)"
| "repair_results p from (r # rs) n db =
     (case read_kind (read_State r) of
        None \<Rightarrow> Inl (ErrAnswered (case read_State r of OtherRead s \<Rightarrow> s | _ \<Rightarrow> []))
      | Some kind \<Rightarrow>
          (case Apply p db \<lparr>RecordID = read_ID r, in_Kind = kind, in_Version = read_Version r, in_Impl = Impl from,
                            in_Epoch = Epoch from, in_Data = read_Data r, in_Seq = 0\<rparr> of
             Inl e \<Rightarrow> Inl e
           | Inr (out, db') \<Rightarrow> repair_results p from rs (if Changed out then n + 1 else n) db'))"

definition Repair ::
  "('j, 'c, 'e) Projection \<Rightarrow> ('j, 'e) Source \<Rightarrow> ('j, 'c, 'z) proj_db_scheme interference \<Rightarrow>
   nat \<times> ('j, 'c, 'z) proj_db_scheme \<Rightarrow> ('e proj_error + nat) \<times> nat \<times> ('j, 'c, 'z) proj_db_scheme" where
  "Repair p src others st =
     (case BackgroundTx others (\<lambda>db. Inr (incomplete_ids db, db)) st of
        (Inl e, st1) \<Rightarrow> (Inl e, st1)
      | (Inr ids, st1) \<Rightarrow>
          if ids = [] then (Inr 0, st1)
          else
            (case Read src (fst st1) ids of
               Inl e \<Rightarrow> (Inl (ErrCallback e), st1)
             | Inr (results, from) \<Rightarrow>
                 if \<not> Primary from then (Inl ErrOtherSource, st1)
                 else BackgroundTx others (repair_results p from results 0) st1))"

end
