(* ===== verification/Projection_Correct.thy ===== *)
theory Projection_Correct
  imports Projection
begin

text \<open>
  What a projection promises. Receiving is a join: a row and an input stand at a version and a rank
  (partial, full, delete), and the state table moves the row to the further of the two, so that the
  inputs of a record lead to the same row in any order and with any repetitions. A re-fetch ends, and
  leaves nothing of an older epoch and nothing incomplete.
\<close>

section \<open>Receiving is a join\<close>

text \<open>Where a row and an input stand: the version, then partial before full before delete.\<close>

fun state_rank :: "row_state \<Rightarrow> nat" where
  "state_rank Incomplete = 1"
| "state_rank Complete = 2"
| "state_rank Tombstone = 3"

fun kind_rank :: "input_kind \<Rightarrow> nat" where
  "kind_rank Partial = 1"
| "kind_rank Full = 2"
| "kind_rank Delete = 3"
| "kind_rank _ = 0"

definition current :: "Row \<Rightarrow> bool" where
  "current r \<longleftrightarrow> \<not> Old r \<and> NeedVersion r = (if State r = Incomplete then Version r else 0)"

definition row_pos :: "Row \<Rightarrow> int \<times> nat" where
  "row_pos r = (Version r, state_rank (State r))"

definition input_pos :: "'j Input \<Rightarrow> int \<times> nat" where
  "input_pos inp = (in_Version inp, kind_rank (in_Kind inp))"

definition stream_kind :: "input_kind \<Rightarrow> bool" where
  "stream_kind k \<longleftrightarrow> k = Full \<or> k = Partial \<or> k = Delete"

lemma Decide_fresh:
  "stream_kind k \<Longrightarrow> Decide None k v = (nxt, act) \<Longrightarrow>
   current nxt \<and> row_pos nxt = (v, kind_rank k) \<and> act \<noteq> Ignore \<and> act \<noteq> MergeAndFetch"
  by (auto simp: Decide_def stream_kind_def current_def row_pos_def)

lemma Decide_ahead:
  assumes "stream_kind k" "current r" "row_pos r < (v, kind_rank k)" "Decide (Some r) k v = (nxt, act)"
  shows "current nxt \<and> row_pos nxt = (v, kind_rank k) \<and> act \<noteq> Ignore"
  using assms unfolding stream_kind_def
  by (cases "State r") (auto simp: Decide_def current_def row_pos_def split: if_splits)

lemma Decide_behind:
  assumes "stream_kind k" "current r" "\<not> row_pos r < (v, kind_rank k)"
  shows "Decide (Some r) k v = (r, Ignore)"
  using assms unfolding stream_kind_def
  by (cases "State r") (auto simp: Decide_def current_def row_pos_def split: if_splits)

text \<open>A row of the adopted instance and epoch as the state table leaves it.\<close>

definition row_current :: "string \<Rightarrow> string \<Rightarrow> 'j proj_row \<Rightarrow> bool" where
  "row_current impl epoch r \<longleftrightarrow> p_impl r = Some impl \<and> p_epoch r = Some epoch \<and> p_min_read r = None \<and>
     p_need r = (if p_state r = Incomplete then Some (p_version r) else None)"

definition pos_of :: "'j proj_row \<Rightarrow> int \<times> nat" where
  "pos_of r = (p_version r, state_rank (p_state r))"

definition stream_input :: "string \<Rightarrow> string \<Rightarrow> string \<Rightarrow> 'j Input \<Rightarrow> bool" where
  "stream_input impl epoch i inp \<longleftrightarrow> in_Impl inp = impl \<and> in_Epoch inp = epoch \<and> RecordID inp = i \<and>
     stream_kind (in_Kind inp) \<and> in_Data inp \<noteq> None"

definition hook_total :: "('j, 'c, 'e) Projection \<Rightarrow> bool" where
  "hook_total p \<longleftrightarrow> (case Changed_hook p of None \<Rightarrow> True | Some hook \<Rightarrow> (\<forall>c i. \<exists>c'. hook c i = Inr c'))"

lemma row_read_current:
  "row_current impl epoch r \<Longrightarrow> in_Impl inp = impl \<Longrightarrow> in_Epoch inp = epoch \<Longrightarrow>
   current (row_read inp r) \<and> row_pos (row_read inp r) = pos_of r"
  by (simp add: row_current_def row_read_def current_def row_pos_def pos_of_def deref_def)

lemma changed_total:
  "hook_total p \<Longrightarrow> \<exists>c. changed p db i = Inr (db\<lparr>comp := c\<rparr>)"
proof (cases "Changed_hook p")
  case None
  then have "changed p db i = Inr (db\<lparr>comp := comp db\<rparr>)" by (simp add: changed_def)
  then show ?thesis ..
next
  case (Some hook)
  assume "hook_total p"
  with Some obtain c where "hook (comp db) i = Inr c" unfolding hook_total_def by fastforce
  with Some have "changed p db i = Inr (db\<lparr>comp := c\<rparr>)" by (simp add: changed_def)
  then show ?thesis ..
qed

lemma Apply_adopted:
  assumes "adopted db = (impl, epoch)" "impl \<noteq> []" "parseEpoch epoch \<noteq> None" "stream_input impl epoch i inp"
  shows "Apply p db inp =
    (case map_of (rows db) i of
       None \<Rightarrow> receive p db inp None
     | Some r \<Rightarrow>
         if p_state r = Tombstone \<and> in_Seq inp > 0 \<and> (case p_min_read r of None \<Rightarrow> False | Some s \<Rightarrow> in_Seq inp \<le> s)
         then Inr (nothing_done, db) else receive p db inp (Some (row_read inp r)))"
  using assms by (auto simp: Apply_def compareEpochs_def stream_input_def Let_def split: option.splits)

text \<open>What a write leaves: the row of the decided state, with the data of a full input.\<close>

lemma write_row_current:
  assumes "hook_total p" "stream_input impl epoch i inp" "current nxt" "act \<noteq> Ignore"
    and "act = MergeAndFetch \<Longrightarrow> State nxt = Incomplete \<and> (\<exists>r. map_of (rows db) i = Some r)"
  shows "\<exists>out db' r'. write_row p db inp cur nxt act = Inr (out, db') \<and> source db' = source db \<and>
    map_of (rows db') = (map_of (rows db))(i \<mapsto> r') \<and> row_current impl epoch r' \<and> pos_of r' = row_pos nxt \<and>
    (p_state r' = Complete \<longrightarrow> p_data r' = in_Data inp) \<and> (p_state r' = Tombstone \<longrightarrow> p_data r' = None)"
proof (cases "act = MergeAndFetch")
  case True
  from assms(2) obtain doc where doc: "in_Data inp = Some doc" and i: "RecordID inp = i"
    by (auto simp: stream_input_def)
  from True assms(5) obtain r where r: "map_of (rows db) i = Some r" and st: "State nxt = Incomplete" by blast
  let ?rows = "AList.map_entry i (merged_row p db inp nxt doc) (rows db)"
  from changed_total [OF assms(1), of "db\<lparr>rows := ?rows\<rparr>" i] obtain c where
    c: "changed p (db\<lparr>rows := ?rows\<rparr>) i = Inr (db\<lparr>rows := ?rows, comp := c\<rparr>)" by auto
  let ?r = "merged_row p db inp nxt doc r"
  have m: "map_of ?rows = (map_of (rows db))(i \<mapsto> ?r)" by (simp add: map_entry_eq r)
  from st assms(2,3) have r': "row_current impl epoch ?r" "pos_of ?r = row_pos nxt" "p_state ?r = Incomplete"
    by (simp_all add: merged_row_def row_current_def pos_of_def row_pos_def stream_input_def current_def)
  from True doc i c have w: "write_row p db inp cur nxt act =
    Inr (\<lparr>Fetch = True, Changed = True, Skipped = NotSkipped\<rparr>, db\<lparr>rows := ?rows, comp := c\<rparr>)"
    by (simp add: write_row_def)
  show ?thesis by (rule exI, rule exI, rule exI [of _ ?r], intro conjI, rule w) (simp_all add: m r')
next
  case False
  let ?w = "State nxt = Complete \<or> State nxt = Incomplete \<and> cur = None"
  let ?r = "written_row db inp nxt (if ?w then in_Data inp else None)"
  from assms(2) have i: "RecordID inp = i" and doc: "in_Data inp \<noteq> None" by (auto simp: stream_input_def)
  from changed_total [OF assms(1), of "db\<lparr>rows := AList.update i ?r (rows db)\<rparr>" i] obtain c where
    c: "changed p (db\<lparr>rows := AList.update i ?r (rows db)\<rparr>) i = Inr (db\<lparr>rows := AList.update i ?r (rows db), comp := c\<rparr>)"
    by auto
  have w: "write_row p db inp cur nxt act =
    Inr (\<lparr>Fetch = (State nxt = Incomplete), Changed = True, Skipped = NotSkipped\<rparr>,
         db\<lparr>rows := AList.update i ?r (rows db), comp := c\<rparr>)"
    using False i doc c by (cases ?w) (auto simp: write_row_def)
  from assms(2,3) have r': "row_current impl epoch ?r" "pos_of ?r = row_pos nxt" "p_state ?r = State nxt"
    "\<And>doc. p_data (written_row db inp nxt doc) = doc"
    by (simp_all add: written_row_def row_current_def pos_of_def row_pos_def stream_input_def current_def)
  show ?thesis by (rule exI, rule exI, rule exI [of _ ?r], intro conjI, rule w) (simp_all add: update_conv' r')
qed


text \<open>One input of the stream: the row moves to the input when the input is ahead, and stays otherwise.\<close>

definition row_fits :: "string \<Rightarrow> string \<Rightarrow> 'j Input set \<Rightarrow> 'j proj_row \<Rightarrow> bool" where
  "row_fits impl epoch seen r \<longleftrightarrow> row_current impl epoch r \<and>
     (p_state r = Complete \<longrightarrow>
        (\<exists>inp \<in> seen. in_Kind inp = Full \<and> in_Version inp = p_version r \<and> in_Data inp = p_data r)) \<and>
     (p_state r = Tombstone \<longrightarrow> p_data r = None)"

lemma rank_complete: "kind_rank k = 2 \<longleftrightarrow> k = Full"
  by (cases k) auto

lemma state_rank_complete: "state_rank s = 2 \<longleftrightarrow> s = Complete"
  by (cases s) auto

lemma Apply_first:
  assumes "hook_total p" "adopted db = (impl, epoch)" "impl \<noteq> []" "parseEpoch epoch \<noteq> None"
    "stream_input impl epoch i inp" "map_of (rows db) i = None"
  shows "\<exists>out db' r'. Apply p db inp = Inr (out, db') \<and> source db' = source db \<and>
    map_of (rows db') i = Some r' \<and> row_fits impl epoch {inp} r' \<and> pos_of r' = input_pos inp"
proof -
  obtain nxt act where d: "Decide None (in_Kind inp) (in_Version inp) = (nxt, act)" by fastforce
  from assms(5) have "stream_kind (in_Kind inp)" by (simp add: stream_input_def)
  note f = Decide_fresh [OF this d]
  from write_row_current [OF assms(1,5), of nxt act db None] f obtain out db' r' where
    w: "write_row p db inp None nxt act = Inr (out, db')" "source db' = source db"
      "map_of (rows db') = (map_of (rows db))(i \<mapsto> r')" "row_current impl epoch r'" "pos_of r' = row_pos nxt"
      "p_state r' = Complete \<longrightarrow> p_data r' = in_Data inp" "p_state r' = Tombstone \<longrightarrow> p_data r' = None"
    by blast
  have "Apply p db inp = Inr (out, db')"
    using Apply_adopted [OF assms(2-5), of p] assms(6) d f w(1) by (simp add: receive_def)
  moreover have "row_fits impl epoch {inp} r'"
    using w f rank_complete [of "in_Kind inp"] state_rank_complete [of "p_state r'"]
    by (auto simp: row_fits_def pos_of_def)
  ultimately show ?thesis using w f by (auto simp: input_pos_def)
qed

lemma Apply_next:
  assumes "hook_total p" "adopted db = (impl, epoch)" "impl \<noteq> []" "parseEpoch epoch \<noteq> None"
    "stream_input impl epoch i inp" "map_of (rows db) i = Some r" "row_fits impl epoch seen r"
  shows "\<exists>out db' r'. Apply p db inp = Inr (out, db') \<and> source db' = source db \<and>
    map_of (rows db') i = Some r' \<and> row_fits impl epoch (insert inp seen) r' \<and>
    pos_of r' = max (pos_of r) (input_pos inp)"
proof -
  let ?r = "row_read inp r"
  from assms(7) have rc: "row_current impl epoch r" by (simp add: row_fits_def)
  with assms(5) row_read_current [OF rc, of inp] have cur: "current ?r" "row_pos ?r = pos_of r"
    by (simp_all add: stream_input_def)
  from assms(5) have k: "stream_kind (in_Kind inp)" by (simp add: stream_input_def)
  have go: "Apply p db inp = receive p db inp (Some ?r)"
    using Apply_adopted [OF assms(2-5), of p] assms(6) rc by (simp add: row_current_def)
  show ?thesis
  proof (cases "row_pos ?r < (in_Version inp, kind_rank (in_Kind inp))")
    case True
    obtain nxt act where d: "Decide (Some ?r) (in_Kind inp) (in_Version inp) = (nxt, act)" by fastforce
    note f = Decide_ahead [OF k cur(1) True d]
    have "act = MergeAndFetch \<Longrightarrow> State nxt = Incomplete"
      using d by (auto simp: Decide_def split: if_splits input_kind.splits)
    with write_row_current [OF assms(1,5), of nxt act db "Some ?r"] f assms(6) obtain out db' r' where
      w: "write_row p db inp (Some ?r) nxt act = Inr (out, db')" "source db' = source db"
        "map_of (rows db') = (map_of (rows db))(i \<mapsto> r')" "row_current impl epoch r'" "pos_of r' = row_pos nxt"
        "p_state r' = Complete \<longrightarrow> p_data r' = in_Data inp" "p_state r' = Tombstone \<longrightarrow> p_data r' = None"
      by blast
    have "Apply p db inp = Inr (out, db')" using go d f w(1) by (simp add: receive_def)
    moreover have "row_fits impl epoch (insert inp seen) r'"
      using w f rank_complete [of "in_Kind inp"] state_rank_complete [of "p_state r'"]
      by (auto simp: row_fits_def pos_of_def)
    ultimately show ?thesis using w f True cur by (auto simp: input_pos_def max_def)
  next
    case False
    with Decide_behind [OF k cur(1) False] go have "Apply p db inp = Inr (nothing_done, db)"
      by (simp add: receive_def)
    with assms(6,7) False cur show ?thesis
      by (auto simp: input_pos_def max_def row_fits_def not_less)
  qed
qed

section \<open>Any order, any repetitions\<close>

definition received :: "('j, 'c, 'e) Projection \<Rightarrow> ('j, 'c, 'z) proj_db_scheme \<Rightarrow> 'j Input \<Rightarrow> ('j, 'c, 'z) proj_db_scheme" where
  "received p db inp = (case Apply p db inp of Inl _ \<Rightarrow> db | Inr (_, db') \<Rightarrow> db')"

lemma adopted_source: "source db' = source db \<Longrightarrow> adopted db' = adopted db"
  by (simp add: adopted_def)

lemma run_fits:
  assumes "hook_total p" "adopted db = (impl, epoch)" "impl \<noteq> []" "parseEpoch epoch \<noteq> None"
    "map_of (rows db) i = None" "ins \<noteq> []" "\<forall>inp \<in> set ins. stream_input impl epoch i inp"
  shows "\<exists>r. map_of (rows (foldl (received p) db ins)) i = Some r \<and> row_fits impl epoch (set ins) r \<and>
    pos_of r = Max (input_pos ` set ins) \<and> source (foldl (received p) db ins) = source db"
  using assms(6,7)
proof (induction ins rule: rev_induct)
  case (snoc inp ins)
  show ?case
  proof (cases "ins = []")
    case True
    with Apply_first [OF assms(1-4) _ assms(5)] snoc.prems show ?thesis
      by (fastforce simp: received_def)
  next
    case False
    with snoc obtain r where r: "map_of (rows (foldl (received p) db ins)) i = Some r"
      "row_fits impl epoch (set ins) r" "pos_of r = Max (input_pos ` set ins)"
      "source (foldl (received p) db ins) = source db" by auto
    from adopted_source [OF r(4)] assms(2) have ad: "adopted (foldl (received p) db ins) = (impl, epoch)" by simp
    from snoc.prems(2) have "stream_input impl epoch i inp" by simp
    from Apply_next [OF assms(1) ad assms(3,4) this r(1,2)] obtain out db' r' where
      n: "Apply p (foldl (received p) db ins) inp = Inr (out, db')"
        "source db' = source (foldl (received p) db ins)" "map_of (rows db') i = Some r'"
        "row_fits impl epoch (insert inp (set ins)) r'" "pos_of r' = max (pos_of r) (input_pos inp)"
      by blast
    have "foldl (received p) db (ins @ [inp]) = db'" using n(1) by (simp add: received_def)
    moreover have "pos_of r' = Max (input_pos ` set (ins @ [inp]))"
      using n(5) r(3) False by (simp add: max.commute)
    ultimately show ?thesis using n(2-4) r(4) by simp
  qed
qed simp


definition demo_projection :: "(string, unit, unit) Projection" where
  "demo_projection = \<lparr>Changed_hook = None, jcat = (@), jnil = ''{}''\<rparr>"

definition demo_source :: "source_status \<Rightarrow> source_row" where
  "demo_source st = \<lparr>s_impl = Some ''impl'', s_epoch = Some ''1.1'', s_align_gen = 1, s_status = st\<rparr>"

definition demo_input :: "input_kind \<Rightarrow> int \<Rightarrow> string \<Rightarrow> string Input" where
  "demo_input k v doc = \<lparr>RecordID = ''r'', in_Kind = k, in_Version = v, in_Impl = ''impl'', in_Epoch = ''1.1'',
     in_Data = Some doc, in_Seq = 0\<rparr>"


section \<open>The re-fetch\<close>

definition untouched :: "int \<Rightarrow> ('j, 'c, 'z) proj_db_scheme \<Rightarrow> string set" where
  "untouched gen db = {i. \<exists>r. map_of (rows db) i = Some r \<and> p_aligned_gen r \<noteq> Some gen}"

definition refetched :: "Identity \<Rightarrow> int \<Rightarrow> ('j, 'c, 'z) proj_db_scheme \<Rightarrow> bool" where
  "refetched want gen db \<longleftrightarrow> distinct (map fst (rows db)) \<and>
     (\<forall>i r. map_of (rows db) i = Some r \<longrightarrow> p_aligned_gen r = Some gen \<longrightarrow>
        p_impl r = Some (Impl want) \<and> p_epoch r = Some (Epoch want) \<and> p_state r \<noteq> Incomplete \<and> p_need r = None)"

fun pages_end :: "('j, 'e) Source \<Rightarrow> nat \<Rightarrow> string \<Rightarrow> bool" where
  "pages_end src 0 cursor = False"
| "pages_end src (Suc k) cursor =
     (\<forall>n. case Snapshot src n cursor of Inl _ \<Rightarrow> True | Inr (_, nxt, _) \<Rightarrow> nxt = [] \<or> pages_end src k nxt)"

lemma changed_Inr: "changed p db i = Inr db' \<Longrightarrow> rows db' = rows db \<and> source db' = source db"
  by (auto simp: changed_def split: option.splits sum.splits)

lemma put_Inr:
  assumes "put p gen (Impl want) (Epoch want) i st v doc mr db = Inr db'" "refetched want gen db" "st \<noteq> Incomplete"
  shows "source db' = source db \<and> refetched want gen db' \<and> untouched gen db' = untouched gen db - {i}"
proof -
  let ?r = "\<lparr>p_state = st, p_version = v, p_need = None, p_impl = Some (Impl want), p_epoch = Some (Epoch want),
    p_data = doc, p_aligned_gen = Some gen, p_min_read = mr\<rparr>"
  have cases: "rows db' = AList.update i ?r (rows db) \<and> source db' = source db \<or>
    db' = db \<and> (\<exists>r. map_of (rows db) i = Some r \<and> p_aligned_gen r = Some gen)"
    using assms(1) by (auto simp: put_def Let_def split: if_splits option.splits dest!: changed_Inr)
  then show ?thesis
  proof
    assume u: "rows db' = AList.update i ?r (rows db) \<and> source db' = source db"
    then have m: "map_of (rows db') = (map_of (rows db))(i \<mapsto> ?r)" by (simp add: update_conv')
    have d: "distinct (map fst (rows db'))" using u assms(2) by (simp add: refetched_def distinct_update)
    have "p_impl r = Some (Impl want) \<and> p_epoch r = Some (Epoch want) \<and> p_state r \<noteq> Incomplete \<and> p_need r = None"
      if r: "map_of (rows db') j = Some r" "p_aligned_gen r = Some gen" for j r
    proof (cases "j = i")
      case True
      with r m assms(3) show ?thesis by auto
    next
      case False
      with r(1) m have "map_of (rows db) j = Some r" by simp
      with assms(2) r(2) show ?thesis unfolding refetched_def by blast
    qed
    with d have "refetched want gen db'" unfolding refetched_def by blast
    moreover have "untouched gen db' = untouched gen db - {i}" by (auto simp: untouched_def m)
    ultimately show ?thesis using u by simp
  next
    assume "db' = db \<and> (\<exists>r. map_of (rows db) i = Some r \<and> p_aligned_gen r = Some gen)"
    with assms(2) show ?thesis by (auto simp: untouched_def)
  qed
qed

lemma put_records_Inr:
  "put_records p gen want rs db = Inr (u, db') \<Longrightarrow> refetched want gen db \<Longrightarrow>
   source db' = source db \<and> refetched want gen db' \<and> untouched gen db' = untouched gen db - set (map rec_ID rs)"
proof (induction rs arbitrary: db)
  case (Cons r rs)
  then obtain db1 where p: "put p gen (Impl want) (Epoch want) (rec_ID r) Complete (rec_Version r) (rec_Data r) None db = Inr db1"
    and rest: "put_records p gen want rs db1 = Inr (u, db')" by (auto split: sum.splits)
  from put_Inr [OF p Cons.prems(2)] Cons.IH [OF rest] show ?case by auto
qed simp

lemma put_results_Inr:
  "put_results p gen want pa rs db = Inr (u, db') \<Longrightarrow> refetched want gen db \<Longrightarrow>
   source db' = source db \<and> refetched want gen db' \<and> untouched gen db' = untouched gen db - set (map read_ID rs)"
proof (induction rs arbitrary: db)
  case (Cons r rs)
  then obtain db1 st v doc mr where
    p: "put p gen (Impl want) (Epoch want) (read_ID r) st v doc mr db = Inr db1" "st \<noteq> Incomplete"
    and rest: "put_results p gen want pa rs db1 = Inr (u, db')"
    by (auto split: sum.splits read_state.splits)
  from put_Inr [OF p(1) Cons.prems(2) p(2)] Cons.IH [OF rest] show ?case by auto
qed simp

lemma guarded_Inr:
  "guarded gen f db = Inr x \<longleftrightarrow> f db = Inr x \<and> (\<exists>s. source db = Some s \<and> s_align_gen s = gen)"
  by (auto simp: guarded_def split: option.splits if_splits)

lemma BackgroundTx_alone:
  "BackgroundTx alone f (n, db) = (Inr a, st) \<longleftrightarrow> (\<exists>db'. f db = Inr (a, db') \<and> st = (Suc n, db'))"
  by (auto simp: BackgroundTx_def Let_def split: sum.splits)

lemma untouched_ids_set:
  assumes "refetched want gen db"
  shows "set (untouched_ids gen db) \<subseteq> untouched gen db"
    and "untouched_ids gen db = [] \<longleftrightarrow> untouched gen db = {}"
proof -
  let ?xs = "map fst (filter (\<lambda>(i, r). p_aligned_gen r \<noteq> Some gen) (rows db))"
  from assms have d: "distinct (map fst (rows db))" by (simp add: refetched_def)
  have s: "set ?xs = untouched gen db"
    using d by (force simp: untouched_def dest: map_of_SomeD)
  have "set (untouched_ids gen db) \<subseteq> set (sort ?xs)" unfolding untouched_ids_def by (rule set_take_subset)
  then show "set (untouched_ids gen db) \<subseteq> untouched gen db" using s by simp
  have "untouched_ids gen db = [] \<longleftrightarrow> sort ?xs = []" by (simp add: untouched_ids_def)
  also have "\<dots> \<longleftrightarrow> set (sort ?xs) = {}" by (simp only: set_empty)
  also have "\<dots> \<longleftrightarrow> untouched gen db = {}" using s by simp
  finally show "untouched_ids gen db = [] \<longleftrightarrow> untouched gen db = {}" .
qed

lemma finite_untouched: "finite (untouched gen db)"
proof -
  have "untouched gen db \<subseteq> dom (map_of (rows db))" by (auto simp: untouched_def)
  then show ?thesis by (rule finite_subset) (simp add: finite_dom_map_of)
qed

lemma pick_alone:
  "BackgroundTx alone (pick_untouched gen) (n, db) = (Inr (untouched_ids gen db), Suc n, db)"
  by (simp add: BackgroundTx_def pick_untouched_def)

text \<open>The rows read by identity: the loop ends, and when it succeeds no row is left of an older generation.\<close>

lemma read_loop_alone:
  assumes "refetched want gen db" "card (untouched gen db) < fuel"
  shows "\<exists>res n' db'. read_loop fuel p src alone gen want pa prev (n, db) = Some (res, n', db') \<and>
    (res = Inr () \<longrightarrow> source db' = source db \<and> refetched want gen db' \<and> untouched gen db' = {})"
  using assms
proof (induction fuel arbitrary: prev n db)
  case (Suc fuel)
  let ?ids = "untouched_ids gen db"
  note ids = untouched_ids_set [OF Suc.prems(1)]
  show ?case
  proof (cases "?ids = [] \<or> ?ids = prev")
    case True
    with ids(2) Suc.prems(1) show ?thesis by (auto simp: pick_alone)
  next
    case go: False
    show ?thesis
    proof (cases "Read src (Suc n) ?ids")
      case (Inl e)
      with go show ?thesis by (auto simp: pick_alone)
    next
      case (Inr rf)
      obtain results frm where rf: "rf = (results, frm)" by (cases rf)
      show ?thesis
      proof (cases "accepts frm want")
        case False
        with go Inr rf show ?thesis by (auto simp: pick_alone)
      next
        case acc: True
        obtain r2 n2 db2 where t: "BackgroundTx alone (guarded gen (put_results p gen want pa results)) (Suc n, db) = (r2, n2, db2)"
          by (metis prod_cases3)
        show ?thesis
        proof (cases r2)
          case (Inl e)
          with go Inr rf acc t \<open>Read src (Suc n) ?ids = Inr rf\<close> show ?thesis by (auto simp: pick_alone)
        next
          case (Inr u)
          with t have "put_results p gen want pa results db = Inr ((), db2)"
            by (auto simp: BackgroundTx_alone guarded_Inr)
          from put_results_Inr [OF this Suc.prems(1)]
          have s2: "source db2 = source db" "refetched want gen db2"
            "untouched gen db2 = untouched gen db - set (map read_ID results)" by auto
          show ?thesis
          proof (cases "find (\<lambda>i. i \<notin> set (map read_ID results)) ?ids")
            case (Some i)
            with go rf acc t Inr \<open>Read src (Suc n) ?ids = Inr rf\<close> show ?thesis by (auto simp: pick_alone)
          next
            case None
            then have "set ?ids \<subseteq> set (map read_ID results)" by (auto simp: find_None_iff)
            with ids go have "untouched gen db2 \<subset> untouched gen db" using s2(3)
              by (cases ?ids) auto
            then have "card (untouched gen db2) < card (untouched gen db)"
              by (rule psubset_card_mono [OF finite_untouched])
            with Suc.prems(2) have "card (untouched gen db2) < fuel" by simp
            from Suc.IH [OF s2(2) this, of ?ids n2]
            obtain res n' db' where "read_loop fuel p src alone gen want pa ?ids (n2, db2) = Some (res, n', db')"
              "res = Inr () \<longrightarrow> source db' = source db2 \<and> refetched want gen db' \<and> untouched gen db' = {}" by blast
            with go rf acc t Inr None s2(1) \<open>Read src (Suc n) ?ids = Inr rf\<close> show ?thesis by (auto simp: pick_alone)
          qed
        qed
      qed
    qed
  qed
qed simp

text \<open>The state of the re-fetch between pages: which source it runs for, and what it has written.\<close>

definition aligning_for :: "Identity \<Rightarrow> bool \<Rightarrow> int \<Rightarrow> ('j, 'c, 'z) proj_db_scheme \<Rightarrow> bool" where
  "aligning_for want learn gen db \<longleftrightarrow>
     (\<exists>s. source db = Some s \<and> s_align_gen s = gen \<and>
        (\<not> learn \<longrightarrow> s_impl s = Some (Impl want) \<and> s_epoch s = Some (Epoch want))) \<and>
     (if learn then \<forall>w. refetched w gen db else refetched want gen db)"

lemma learn_alone:
  assumes "aligning_for want learn gen db"
    and "(if learn then BackgroundTx alone (guarded gen (learn_source want')) (n, db) else (Inr (), n, db)) = (Inr u, n1, db1)"
    and "\<not> learn \<longrightarrow> want' = want"
  shows "aligning_for want' False gen db1 \<and> rows db1 = rows db"
  using assms
  by (cases learn)
    (auto simp: aligning_for_def BackgroundTx_alone guarded_Inr learn_source_def refetched_def)

lemma page_alone:
  assumes "aligning_for want False gen db"
    and "BackgroundTx alone (guarded gen (put_records p gen want records)) (n, db) = (Inr u, n1, db1)"
  shows "aligning_for want False gen db1 \<and> untouched gen db1 \<subseteq> untouched gen db"
proof -
  from assms(2) obtain u' where "put_records p gen want records db = Inr (u', db1)"
    by (auto simp: BackgroundTx_alone guarded_Inr)
  from put_records_Inr [OF this] assms(1) show ?thesis by (auto simp: aligning_for_def)
qed

lemma untouched_rows: "rows db' = rows db \<Longrightarrow> untouched gen db' = untouched gen db"
  by (simp add: untouched_def)

lemma snapshot_loop_alone:
  fixes p :: "('j, 'c, 'e) Projection"
  assumes "pages_end src fuel cursor" "aligning_for want learn gen db"
  shows "\<exists>res n' db'. snapshot_loop fuel p src alone gen want learn cursor (n, db) = Some (res, n', db') \<and>
    (\<forall>w. res = Inr w \<longrightarrow> aligning_for w False gen db' \<and> untouched gen db' \<subseteq> untouched gen db)"
  using assms
proof (induction fuel arbitrary: cursor want learn n db)
  case (Suc fuel)
  show ?case
  proof (cases "Snapshot src n cursor")
    case (Inr page)
    obtain records nxt frm where page: "page = (records, nxt, frm)" by (cases page)
    show ?thesis
    proof (cases "learn \<and> \<not> Primary frm")
      case True
      with Inr page show ?thesis by auto
    next
      case prim: False
      define want' where "want' = (if learn then frm else want)"
      obtain r1 :: "'e proj_error + unit" and n1 db1 where l: "(if learn then BackgroundTx alone (guarded gen (learn_source want')) (n, db) else (Inr (), n, db)) = (r1, n1, db1)"
        by (metis prod_cases3)
      show ?thesis
      proof (cases "r1")
        case (Inl e)
        with l prim Inr page show ?thesis
          using \<open>Snapshot src n cursor = Inr page\<close> by (auto simp: want'_def Let_def)
      next
        case r1: (Inr u)
        from learn_alone [OF Suc.prems(2) l [unfolded r1]]
        have s1: "aligning_for want' False gen db1" "untouched gen db1 = untouched gen db"
          by (auto simp: want'_def dest: untouched_rows)
        show ?thesis
        proof (cases "accepts frm want'")
          case False
          with l r1 prim Inr page show ?thesis by (auto simp: want'_def Let_def)
        next
          case acc: True
          obtain r2 n2 db2 where t: "BackgroundTx alone (guarded gen (put_records p gen want' records)) (n1, db1) = (r2, n2, db2)"
            by (metis prod_cases3)
          show ?thesis
          proof (cases r2)
            case (Inl e)
            with l r1 prim page t acc show ?thesis
              using \<open>Snapshot src n cursor = Inr page\<close> by (auto simp: want'_def Let_def)
          next
            case r2: (Inr u)
            from page_alone [OF s1(1) t [unfolded r2]]
            have s2: "aligning_for want' False gen db2" "untouched gen db2 \<subseteq> untouched gen db" using s1(2) by auto
            show ?thesis
            proof (cases "nxt = []")
              case True
              with l r1 prim page t acc r2 s2 Inr show ?thesis by (auto simp: want'_def Let_def)
            next
              case False
              with Suc.prems(1) Inr page have "pages_end src fuel nxt" by (auto split: sum.splits prod.splits dest!: spec [of _ n])
              from Suc.IH [OF this s2(1), of n2] obtain res n' db' where
                "snapshot_loop fuel p src alone gen want' False nxt (n2, db2) = Some (res, n', db')"
                "\<forall>w. res = Inr w \<longrightarrow> aligning_for w False gen db' \<and> untouched gen db' \<subseteq> untouched gen db"
                using s2(2) by blast
              with l r1 prim page t acc r2 s2 Inr False show ?thesis by (auto simp: want'_def Let_def)
            qed
          qed
        qed
      qed
    qed
  qed auto
qed simp


text \<open>
  What every database of the package satisfies: one row per record, and no row marked with a
  generation that has not begun.
\<close>

definition proj_db_ok :: "('j, 'c, 'z) proj_db_scheme \<Rightarrow> bool" where
  "proj_db_ok db \<longleftrightarrow> distinct (map fst (rows db)) \<and>
     (\<forall>i r g. map_of (rows db) i = Some r \<and> p_aligned_gen r = Some g \<longrightarrow>
        (\<exists>s. source db = Some s \<and> g \<le> s_align_gen s)) \<and>
     (\<forall>s. source db = Some s \<longrightarrow> 0 \<le> s_align_gen s)"

lemma begin_align_ok:
  assumes "proj_db_ok db" "begin_align st [] [] db = Inr (gen, db')"
  shows "aligning_for want True gen db' \<and> rows db' = rows db \<and> untouched gen db' \<subseteq> fst ` set (rows db)"
proof -
  from assms(2) have b: "rows db' = rows db" "\<exists>s'. source db' = Some s' \<and> s_align_gen s' = gen"
    "\<And>s. source db = Some s \<Longrightarrow> gen = s_align_gen s + 1"
    by (auto simp: begin_align_def Let_def split: option.splits)
  have "p_aligned_gen r \<noteq> Some gen" if "map_of (rows db) i = Some r" for i r
    using assms(1) that b(3) unfolding proj_db_ok_def by force
  then have "refetched w gen db'" for w
    using assms(1) b(1) by (auto simp: refetched_def proj_db_ok_def simp del: map_of_eq_Some_iff)
  moreover have "untouched gen db' \<subseteq> fst ` set (rows db)"
    using b(1) by (force simp: untouched_def dest: map_of_SomeD)
  ultimately show ?thesis using b(1,2) by (auto simp: aligning_for_def)
qed


definition demo_identity :: Identity where
  "demo_identity = \<lparr>Deployment = ''dep'', Impl = ''impl'', SystemID = ''sys'', Epoch = ''2.1'', Primary = True, Purpose = []\<rparr>"

definition demo_reads :: "(string, unit) Source" where
  "demo_reads = \<lparr>Snapshot = (\<lambda>_ _. Inr ([\<lparr>rec_ID = ''r'', rec_Version = 3, rec_Data = Some ''x''\<rparr>], [], demo_identity)),
     Read = (\<lambda>_ ids. Inr (map (\<lambda>i. \<lparr>read_ID = i, read_State = PurgedRead, read_Version = 0, read_Data = None\<rparr>) ids,
       demo_identity))\<rparr>"

definition demo_rows :: "(string, unit) proj_db" where
  "demo_rows = \<lparr>rows = [(''gone'', \<lparr>p_state = Incomplete, p_version = 7, p_need = Some 7, p_impl = Some ''impl'',
       p_epoch = Some ''1.1'', p_data = None, p_aligned_gen = None, p_min_read = None\<rparr>)],
     source = Some (demo_source Stalled), comp = ()\<rparr>"


end
