(* ===== verification/Watermark_Decide.thy ===== *)
theory Watermark_Decide
  imports Projection
begin

text \<open>
  The decision tables of a watermark source (\<open>projection/decide.go\<close>): what a judgement may rely on
  (\<open>Judge\<close>), what a declared identity means against the adopted one (\<open>DecideEpoch\<close>), what a
  partition of a pull leads to (\<open>PullOutcome\<close>), the alignment state table (\<open>NextState\<close>), and the
  watermark of a set of partitions. Words are datatypes with the source's constants; seconds in
  floating point are real numbers.
\<close>

section \<open>Judgements\<close>

datatype judgement = Usable | ProvablyAbsent | Unprovable | QueryTheSource

datatype projection_state = ServingState | UntrustedState | AligningState

record JudgedRow =
  jr_State :: row_state
  jr_Adopted :: bool

record JudgeInput =
  LastApplied :: bool
  WatermarkSource :: bool
  ji_SourceState :: source_status
  ProjectionState :: projection_state
  Quarantined :: bool
  HasWatermark :: bool
  WatermarkAge :: real
  Freshness :: real
  ji_Row :: "JudgedRow option"

definition Judge :: "JudgeInput \<Rightarrow> judgement" where
  "Judge q =
     (if \<not> WatermarkSource q then QueryTheSource
      else if ji_SourceState q \<noteq> Aligned \<and> \<not> (LastApplied q \<and> ji_SourceState q = Stalled) \<or>
              ProjectionState q \<noteq> ServingState \<or> Quarantined q
      then Unprovable
      else if \<not> LastApplied q \<and> (\<not> HasWatermark q \<or> WatermarkAge q > Freshness q) then Unprovable
      else case ji_Row q of
             None \<Rightarrow> ProvablyAbsent
           | Some r \<Rightarrow>
               if \<not> jr_Adopted r then Unprovable
               else if jr_State r = Complete then Usable
               else if jr_State r = Tombstone then ProvablyAbsent
               else Unprovable)"

section \<open>Declared identities\<close>

datatype epoch_decision = Establish | Use | Adopt | IgnoreIt | Stall | Block | Discard

definition DecideEpoch :: "Identity \<Rightarrow> Identity \<Rightarrow> epoch_decision" where
  "DecideEpoch ad r =
     (if Deployment r \<noteq> Deployment ad then Block
      else if Impl ad = [] then (if Primary r then Establish else Discard)
      else if Impl r \<noteq> Impl ad then Block
      else
        let ae = epochKey (Epoch ad); re = epochKey (Epoch r)
        in if \<not> Primary r then
             (if SystemID r = SystemID ad \<and> Epoch r = Epoch ad \<and> Purpose r \<noteq> ''adopt'' \<and> Purpose r \<noteq> ''align''
              then Use else Discard)
           else if SystemID r \<noteq> SystemID ad \<and> fst re \<le> fst ae then Stall
           else if cmpEpoch re ae = 1 then Adopt
           else if cmpEpoch re ae = -1 then IgnoreIt
           else Use)"

section \<open>Pulls\<close>

datatype need_snapshot = NoNeed | BeyondRetention | RollbackDetected

datatype pull_outcome = ApplyToEcho | Realign | StallIt | Hold

definition PullOutcome :: "int \<Rightarrow> bool \<Rightarrow> need_snapshot \<Rightarrow> int \<Rightarrow> pull_outcome" where
  "PullOutcome requested unreachable need echo =
     (if unreachable then Hold
      else if need = BeyondRetention then Realign
      else if need = RollbackDetected then StallIt
      else if requested > 0 \<and> echo < requested then StallIt
      else ApplyToEcho)"

section \<open>The alignment state table\<close>

record SourceState =
  ss_State :: source_status
  Confirmed :: bool
  Rollback :: bool
  StalledGen :: "int option"
  BlockedGen :: "int option"
  Prior :: "source_status option"

datatype event_kind =
    first_contact | adopt_epoch | beyond_retention | rollback | foreign | operator_confirms
  | primary_response | alignment_done | environment_copy | other_event string

datatype row_check = Unchecked | Passed | Failed

record SourceEvent =
  ev_Kind :: event_kind
  Gen :: int
  Matches :: bool
  RowCheck :: row_check

datatype source_action =
    ActRefetch | ActKeepRefetching | ActWatermark | ActAlert | ActAlertAndHold | ActHold | ActConfirm
  | ActRowCheckRefetch | ActClearAndRefetch

definition above :: "int \<Rightarrow> int option \<Rightarrow> bool" where
  "above gen p = (case p of None \<Rightarrow> True | Some g \<Rightarrow> gen > g)"

definition NextState :: "SourceState \<Rightarrow> SourceEvent \<Rightarrow> SourceState \<times> source_action" where
  "NextState cur ev =
     (if ev_Kind ev = environment_copy then
        (cur\<lparr>ss_State := Aligning, Rollback := False, Confirmed := False\<rparr>, ActClearAndRefetch)
      else if ev_Kind ev = foreign \<and> ss_State cur = Blocked then (cur, ActAlert)
      else if ev_Kind ev = foreign then
        (cur\<lparr>ss_State := Blocked, Prior := Some (ss_State cur), BlockedGen := Some (Gen ev)\<rparr>, ActAlertAndHold)
      else if ss_State cur = Blocked then
        (if ev_Kind ev = operator_confirms then (cur\<lparr>Confirmed := True\<rparr>, ActConfirm)
         else if \<not> Confirmed cur \<or> ev_Kind ev \<noteq> primary_response then (cur, ActHold)
         else if \<not> Matches ev then (cur\<lparr>Confirmed := False\<rparr>, ActAlert)
         else if Prior cur = Some Stalled \<and> \<not> above (Gen ev) (StalledGen cur) then
           (cur\<lparr>ss_State := Stalled, Confirmed := False\<rparr>, ActRefetch)
         else if RowCheck ev = Failed then
           (cur\<lparr>ss_State := Stalled, Confirmed := False, Rollback := True, StalledGen := Some (Gen ev)\<rparr>, ActRefetch)
         else (cur\<lparr>ss_State := Aligning, Confirmed := False\<rparr>, ActRowCheckRefetch))
      else if ev_Kind ev = rollback then
        (cur\<lparr>ss_State := Stalled, Rollback := True, StalledGen := Some (Gen ev)\<rparr>, ActRefetch)
      else if ss_State cur = Stalled \<and> ev_Kind ev = adopt_epoch \<and> above (Gen ev) (StalledGen cur) then
        (cur\<lparr>ss_State := Aligning\<rparr>, ActRefetch)
      else if ss_State cur = Stalled then (cur, ActKeepRefetching)
      else if ev_Kind ev = adopt_epoch \<or> ev_Kind ev = first_contact \<or> ev_Kind ev = beyond_retention then
        (cur\<lparr>ss_State := Aligning\<rparr>, ActRefetch)
      else if ss_State cur = Aligning \<and> ev_Kind ev = alignment_done then
        (if Rollback cur \<and> \<not> above (Gen ev) (StalledGen cur) then (cur\<lparr>ss_State := Stalled\<rparr>, ActAlert)
         else (cur\<lparr>ss_State := Aligned, Rollback := False\<rparr>, ActWatermark))
      else (cur, ActAlert))"

section \<open>The watermark\<close>

record Echo =
  echo_Seq :: int
  MP :: real
  Recorded :: bool

fun last_echo_loop :: "int \<Rightarrow> real \<times> bool \<Rightarrow> Echo list \<Rightarrow> real \<times> bool" where
  "last_echo_loop contiguous acc [] = acc"
| "last_echo_loop contiguous (mark, ok) (e # es) =
     last_echo_loop contiguous
       (if Recorded e \<and> echo_Seq e \<le> contiguous \<and> (\<not> ok \<or> MP e > mark) then (MP e, True) else (mark, ok)) es"

definition LastEcho :: "int \<Rightarrow> Echo list \<Rightarrow> real \<times> bool" where
  "LastEcho contiguous echoes = last_echo_loop contiguous (0, False) echoes"

text \<open>The loop of \<open>Watermark\<close> from index \<open>i\<close> on.\<close>

fun watermark_loop :: "nat \<Rightarrow> real \<Rightarrow> (real \<times> bool) list \<Rightarrow> (real \<times> bool)" where
  "watermark_loop i w [] = (w, i > 0)"
| "watermark_loop i w ((m, h) # ms) =
     (if \<not> h then (0, False) else watermark_loop (Suc i) (if i = 0 \<or> m < w then m else w) ms)"

definition Watermark :: "real list \<Rightarrow> bool list \<Rightarrow> real \<times> bool" where
  "Watermark marks have_marks = watermark_loop 0 0 (zip marks have_marks)"

definition ClockReset :: "real \<Rightarrow> real \<Rightarrow> string \<Rightarrow> string \<Rightarrow> bool" where
  "ClockReset now maxSeen consumerEpoch recordedEpoch \<longleftrightarrow> now < maxSeen \<or> consumerEpoch \<noteq> recordedEpoch"

end
