(* ===== verification/Watermark.thy ===== *)
theory Watermark
  imports Watermark_Decide Streams
begin

text \<open>
  The consumer of a watermark source (\<open>projection/watermark.go\<close>): it applies the stream in position
  order (\<open>Handle\<close>, \<open>applyAt\<close>), pulls and adopts what the source declares (\<open>pull\<close>, \<open>identify\<close>,
  \<open>applyPage\<close>), re-fetches (\<open>align\<close>), quarantines what keeps failing, and judges reads. The
  database is the projection's, extended by the tables \<open>be_watermark_source\<close>,
  \<open>be_watermark_partition\<close> (a list by partition), \<open>be_watermark_pull\<close>, \<open>be_watermark_failure\<close> and
  \<open>be_watermark_quarantine\<close>, for one projection. Logging and the waking of the loop leave no trace in
  the database and are left out; a nonce is an argument, since the code draws it at random. What the
  source answers, what time it is on the consumer's primary and which epoch that database is in are
  parameters indexed by the number of transactions begun.
\<close>

section \<open>Tables and state\<close>

datatype row_identity = EchoNonce string | RecordIdentity string int string

record part_state =
  wp_seq :: "int option"
  wp_identity :: "row_identity option"
  wp_p0 :: "int option"
  wp_echo_mp :: "instant option"

definition no_part :: part_state where
  "no_part = \<lparr>wp_seq = None, wp_identity = None, wp_p0 = None, wp_echo_mp = None\<rparr>"

record watermark_source =
  ws_deployment :: string
  ws_system_id :: "string option"
  ws_confirmed :: bool
  ws_rollback :: bool
  ws_refetch :: bool
  ws_stalled_gen :: "int option"
  ws_blocked_gen :: "int option"
  ws_prior :: "source_status option"
  ws_max_seen :: "instant option"
  ws_db_epoch :: "string option"

record quarantine_row =
  q_subject :: string
  q_impl :: string
  q_epoch :: string
  q_align_gen :: int
  q_partition :: nat
  q_seq :: int

record ('j, 'c) wm_db = "('j, 'c) proj_db" +
  wsource :: watermark_source
  wparts :: "part_state list"
  wpulls :: "(string \<times> instant) list"
  wfailures :: "((nat \<times> int) \<times> int \<times> instant) list"
  wquarantine :: "quarantine_row list"

datatype event_projection = FullEvent | PartialEvent | DeleteEvent | OtherProjection string

record 'j Received =
  rc_Echo :: bool
  rc_RecordID :: string
  rc_Version :: int
  rc_Projection :: event_projection
  rc_Partition :: nat
  rc_Seq :: int
  rc_Epoch :: string
  rc_Impl :: string
  rc_Data :: "'j option"
  rc_Subjects :: "string list"
  rc_Digest :: string

text \<open>
  The consumer: the projection, its deployment and freshness, and the function that turns an event
  into an input, when the component has its own.
\<close>

record ('j, 'c, 'e) Watermarked =
  w_projection :: "('j, 'c, 'e) Projection"
  w_Deployment :: string
  w_Freshness :: duration
  w_Stream :: Stream
  w_Input :: "('j Received \<Rightarrow> 'e + 'j Input) option"

record wm_state =
  st_source :: SourceState
  st_adopted :: Identity
  st_align_gen :: int
  st_refetch :: bool
  st_parts :: "part_state list"

definition load :: "('j, 'c) wm_db \<Rightarrow> wm_state option" where
  "load db =
     (case source db of
        None \<Rightarrow> None
      | Some s \<Rightarrow>
          Some \<lparr>st_source = \<lparr>ss_State = s_status s, Confirmed = ws_confirmed (wsource db),
                   Rollback = ws_rollback (wsource db), StalledGen = ws_stalled_gen (wsource db),
                   BlockedGen = ws_blocked_gen (wsource db), Prior = ws_prior (wsource db)\<rparr>,
                st_adopted = \<lparr>Deployment = ws_deployment (wsource db), Impl = deref (s_impl s),
                   SystemID = deref (ws_system_id (wsource db)), Epoch = deref (s_epoch s), Primary = False,
                   Purpose = []\<rparr>,
                st_align_gen = s_align_gen s, st_refetch = ws_refetch (wsource db), st_parts = wparts db\<rparr>)"

definition saveState :: "wm_state \<Rightarrow> ('j, 'c) wm_db \<Rightarrow> ('j, 'c) wm_db" where
  "saveState st db =
     (let ad = st_adopted st; ss = st_source st
      in db\<lparr>source := map_option (\<lambda>s. s\<lparr>s_status := ss_State ss,
               s_impl := (if Impl ad \<noteq> [] then Some (Impl ad) else None),
               s_epoch := (if Impl ad \<noteq> [] then Some (Epoch ad) else None)\<rparr>) (source db),
             wsource := (wsource db)\<lparr>ws_system_id := (if SystemID ad \<noteq> [] then Some (SystemID ad) else None),
               ws_confirmed := Confirmed ss, ws_rollback := Rollback ss, ws_refetch := st_refetch st,
               ws_stalled_gen := StalledGen ss, ws_blocked_gen := BlockedGen ss, ws_prior := Prior ss\<rparr>\<rparr>)"

definition savePart :: "nat \<Rightarrow> part_state \<Rightarrow> ('j, 'c) wm_db \<Rightarrow> ('j, 'c) wm_db" where
  "savePart n p db = db\<lparr>wparts := (wparts db)[n := p]\<rparr>"

definition transition :: "wm_state \<Rightarrow> SourceEvent \<Rightarrow> wm_state" where
  "transition st ev =
     (case NextState (st_source st) ev of (nxt, action) \<Rightarrow>
        st\<lparr>st_source := nxt,
           st_refetch := (if action \<in> {ActRefetch, ActRowCheckRefetch, ActClearAndRefetch} then True
                          else st_refetch st)\<rparr>)"

definition source_event :: "event_kind \<Rightarrow> int \<Rightarrow> SourceEvent" where
  "source_event kind g = \<lparr>ev_Kind = kind, Gen = g, Matches = False, RowCheck = Unchecked\<rparr>"

definition invalidate :: "wm_state \<Rightarrow> wm_state" where
  "invalidate st = st\<lparr>st_parts := map (\<lambda>_. no_part) (st_parts st)\<rparr>"

section \<open>Applying\<close>

abbreviation QuarantineAttempts :: int where "QuarantineAttempts \<equiv> 3"
abbreviation QuarantineAfter :: duration where "QuarantineAfter \<equiv> 30 * Second"
abbreviation MaxSubjects :: nat where "MaxSubjects \<equiv> 1000"

text \<open>
  The ways applying a row fails: a hole before it; an event that keeps failing and lists no
  subjects; the input itself, which is counted after the rollback. The others are of the pull and
  the re-fetch; \<open>ErrIndex\<close> is a partition number out of range.
\<close>

datatype 'e wm_error =
    ErrGap | ErrNoSubjects | ErrInput "'e proj_error" | ErrNotInstalled | ErrPages | ErrPull 'e | ErrIndex
  | ErrAlign "'e proj_error"

definition identityOf :: "'j Received \<Rightarrow> row_identity" where
  "identityOf e =
     (if rc_Echo e then EchoNonce (rc_RecordID e)
      else RecordIdentity (rc_RecordID e) (rc_Version e) (rc_Digest e))"

definition noteFailure :: "instant \<Rightarrow> 'j Received \<Rightarrow> ('j, 'c) wm_db \<Rightarrow> ('j, 'c) wm_db" where
  "noteFailure now e db =
     (let key = (rc_Partition e, rc_Seq e)
      in db\<lparr>wfailures :=
           (case map_of (wfailures db) key of
              None \<Rightarrow> AList.update key (1, now) (wfailures db)
            | Some (n, first) \<Rightarrow> AList.update key (n + 1, first) (wfailures db))\<rparr>)"

definition quarantineIfDue ::
  "instant \<Rightarrow> wm_state \<Rightarrow> 'j Received \<Rightarrow> ('j, 'c) wm_db \<Rightarrow> 'e wm_error + (bool \<times> ('j, 'c) wm_db)" where
  "quarantineIfDue now st e db =
     (case map_of (wfailures db) (rc_Partition e, rc_Seq e) of
        None \<Rightarrow> Inr (False, db)
      | Some (attempts, first) \<Rightarrow>
          if \<not> (attempts \<ge> QuarantineAttempts \<or> first \<le> now - QuarantineAfter) then Inr (False, db)
          else if rc_Subjects e = [] \<or> length (rc_Subjects e) > MaxSubjects then Inl ErrNoSubjects
          else
            Inr (True, db\<lparr>
              wquarantine := fold List.insert
                (map (\<lambda>s. \<lparr>q_subject = s, q_impl = Impl (st_adopted st), q_epoch = Epoch (st_adopted st),
                           q_align_gen = st_align_gen st, q_partition = rc_Partition e, q_seq = rc_Seq e\<rparr>)
                   (rc_Subjects e)) (wquarantine db),
              wfailures := AList.delete (rc_Partition e, rc_Seq e) (wfailures db)\<rparr>))"

definition wm_input :: "('j, 'c, 'e) Watermarked \<Rightarrow> 'j Received \<Rightarrow> 'e + 'j Input" where
  "wm_input w e =
     (case w_Input w of
        Some f \<Rightarrow> f e
      | None \<Rightarrow>
          Inr \<lparr>RecordID = rc_RecordID e,
               in_Kind = (case rc_Projection e of FullEvent \<Rightarrow> Full | PartialEvent \<Rightarrow> Partial
                 | DeleteEvent \<Rightarrow> Delete | OtherProjection _ \<Rightarrow> Partial),
               in_Version = rc_Version e, in_Impl = [], in_Epoch = [], in_Data = rc_Data e, in_Seq = 0\<rparr>)"

text \<open>
  A complete row of the same instance and epoch whose content differs at the same version is a
  rollback of the source.
\<close>

definition digestTripwire ::
  "wm_state \<Rightarrow> 'j Received \<Rightarrow> ('j, 'c) wm_db \<Rightarrow> 'e proj_error + (wm_state \<times> ('j, 'c) wm_db)" where
  "digestTripwire st e db =
     (case rc_Data e of
        None \<Rightarrow> Inl ErrData
      | Some doc \<Rightarrow>
          (case map_of (rows db) (rc_RecordID e) of
             None \<Rightarrow> Inr (st, db)
           | Some r \<Rightarrow>
               if p_state r = Complete \<and> p_version r = rc_Version e \<and> p_impl r = Some (Impl (st_adopted st)) \<and>
                  p_epoch r = Some (Epoch (st_adopted st)) \<and> p_data r \<noteq> Some doc
               then let st' = transition st (source_event rollback (Generation_of (Epoch (st_adopted st))))
                    in Inr (st', saveState st' db)
               else Inr (st, db)))"

definition applyInput ::
  "('j, 'c, 'e) Watermarked \<Rightarrow> wm_state \<Rightarrow> 'j Received \<Rightarrow> ('j, 'c) wm_db \<Rightarrow>
   'e proj_error + (wm_state \<times> ('j, 'c) wm_db)" where
  "applyInput w st e db =
     (case wm_input w e of
        Inl x \<Rightarrow> Inl (ErrCallback x)
      | Inr inp \<Rightarrow>
          (case Apply (w_projection w) db
                  (inp\<lparr>in_Impl := Impl (st_adopted st), in_Epoch := Epoch (st_adopted st), in_Seq := rc_Seq e\<rparr>) of
             Inl x \<Rightarrow> Inl x
           | Inr (_, db') \<Rightarrow>
               if rc_Projection e = FullEvent then digestTripwire st e db' else Inr (st, db')))"

definition advance :: "wm_state \<Rightarrow> 'j Received \<Rightarrow> part_state \<Rightarrow> ('j, 'c) wm_db \<Rightarrow> wm_state \<times> ('j, 'c) wm_db" where
  "advance st e p db =
     (let p' = p\<lparr>wp_seq := Some (rc_Seq e), wp_identity := Some (identityOf e)\<rparr>
      in (st\<lparr>st_parts := (st_parts st)[rc_Partition e := p']\<rparr>, savePart (rc_Partition e) p' db))"

definition apply_row ::
  "('j, 'c, 'e) Watermarked \<Rightarrow> instant \<Rightarrow> wm_state \<Rightarrow> 'j Received \<Rightarrow> bool \<Rightarrow> ('j, 'c) wm_db \<Rightarrow>
   'e wm_error + (wm_state \<times> ('j, 'c) wm_db)" where
  "apply_row w now st e contiguous db =
     (let p = st_parts st ! rc_Partition e
      in case quarantineIfDue now st e db of
           Inl x \<Rightarrow> Inl x
         | Inr (True, db1) \<Rightarrow> Inr (if contiguous then advance st e p db1 else (st, db1))
         | Inr (False, db1) \<Rightarrow>
             if rc_Echo e then
               let p1 = (case map_of (wpulls db1) (rc_RecordID e) of
                           None \<Rightarrow> p | Some mp \<Rightarrow> p\<lparr>wp_echo_mp := Some mp\<rparr>)
               in Inr (if contiguous then advance st e p1 db1
                       else (st\<lparr>st_parts := (st_parts st)[rc_Partition e := p1]\<rparr>, db1))
             else
               (case applyInput w st e db1 of
                  Inl x \<Rightarrow> Inl (ErrInput x)
                | Inr (st', db2) \<Rightarrow> Inr (if contiguous then advance st' e p db2 else (st', db2))))"

definition applyAt ::
  "('j, 'c, 'e) Watermarked \<Rightarrow> instant \<Rightarrow> wm_state \<Rightarrow> 'j Received \<Rightarrow> bool \<Rightarrow> ('j, 'c) wm_db \<Rightarrow>
   'e wm_error + (wm_state \<times> ('j, 'c) wm_db)" where
  "applyAt w now st e contiguous db =
     (if rc_Partition e \<ge> length (st_parts st) then Inl ErrIndex
      else if contiguous then
        (case wp_seq (st_parts st ! rc_Partition e) of
           None \<Rightarrow> Inl ErrGap
         | Some s \<Rightarrow>
             if rc_Seq e \<le> s then Inr (st, db)
             else if rc_Seq e \<noteq> s + 1 then Inl ErrGap
             else apply_row w now st e contiguous db)
      else apply_row w now st e contiguous db)"

definition handle_tx ::
  "('j, 'c, 'e) Watermarked \<Rightarrow> instant \<Rightarrow> 'j Received \<Rightarrow> ('j, 'c) wm_db \<Rightarrow> 'e wm_error + ('j, 'c) wm_db" where
  "handle_tx w now e db =
     (case load db of
        None \<Rightarrow> Inl ErrNotInstalled
      | Some st \<Rightarrow>
          if Impl (st_adopted st) = [] then Inr db
          else if rc_Impl e \<noteq> Impl (st_adopted st) then
            Inr (saveState (transition st (source_event foreign (Generation_of (rc_Epoch e)))) db)
          else if cmpEpoch (epochKey (rc_Epoch e)) (epochKey (Epoch (st_adopted st))) \<noteq> 0 then Inr db
          else if ss_State (st_source st) = Blocked \<or> rc_Partition e \<ge> length (st_parts st) then Inr db
          else
            let p = st_parts st ! rc_Partition e
            in if ss_State (st_source st) = Aligning \<and>
                  (case wp_p0 p of None \<Rightarrow> True | Some p0 \<Rightarrow> rc_Seq e \<le> p0)
               then Inr db
               else
                 (case applyAt w now st e (ss_State (st_source st) \<noteq> Aligning) db of
                    Inl ErrGap \<Rightarrow> Inr db
                  | Inl x \<Rightarrow> Inl x
                  | Inr (_, db') \<Rightarrow> Inr db'))"

text \<open>
  The handler as the database sees it: a failing transaction leaves it as it was, and a failing input
  is then counted in a transaction of its own.
\<close>

definition Handle ::
  "('j, 'c, 'e) Watermarked \<Rightarrow> instant \<Rightarrow> 'j Received \<Rightarrow> ('j, 'c) wm_db \<Rightarrow> 'e wm_error option \<times> ('j, 'c) wm_db" where
  "Handle w now e db =
     (case handle_tx w now e db of
        Inr db' \<Rightarrow> (None, db')
      | Inl x \<Rightarrow> (Some x, (case x of ErrInput _ \<Rightarrow> noteFailure now e db | _ \<Rightarrow> db)))"

section \<open>Judging\<close>

text \<open>The age of the watermark: of the oldest partition's mark, none when a partition has none.\<close>

definition watermark_age :: "instant \<Rightarrow> ('j, 'c) wm_db \<Rightarrow> real option" where
  "watermark_age now db =
     (let marks = map wp_echo_mp (wparts db)
      in if None \<in> set marks \<or> marks = [] then None
         else Some (real_of_int (now - Min (set (map the marks))) / 1000000000))"

definition judge_input ::
  "instant \<Rightarrow> bool \<Rightarrow> real \<Rightarrow> source_row \<Rightarrow> ('j, 'c) wm_db \<Rightarrow> string \<Rightarrow> string list \<Rightarrow> JudgeInput" where
  "judge_input now lastApplied fresh s db recordID subjects =
     (let age = watermark_age now db
      in \<lparr>LastApplied = lastApplied, WatermarkSource = True, ji_SourceState = s_status s,
          ProjectionState = ServingState, Quarantined = (\<exists>q \<in> set (wquarantine db). q_subject q \<in> set subjects),
          HasWatermark = (age \<noteq> None), WatermarkAge = (case age of None \<Rightarrow> 0 | Some a \<Rightarrow> a), Freshness = fresh,
          ji_Row = map_option (\<lambda>r. \<lparr>jr_State = p_state r,
              jr_Adopted = (deref (p_impl r) = deref (s_impl s) \<and> deref (p_epoch r) = deref (s_epoch s))\<rparr>)
            (map_of (rows db) recordID)\<rparr>)"

definition Judge_record ::
  "('j, 'c, 'e) Watermarked \<Rightarrow> instant \<Rightarrow> ('j, 'c) wm_db \<Rightarrow> string \<Rightarrow> string list \<Rightarrow> judgement option" where
  "Judge_record w now db recordID subjects =
     map_option (\<lambda>s. Judge (judge_input now False (real_of_int (w_Freshness w) / 1000000000) s db recordID subjects))
       (source db)"

record 'j Judged =
  jd_Verdict :: judgement
  jd_Version :: int
  jd_Data :: "'j option"

record 'j Judgement =
  jm_Source :: judgement
  jm_SourceState :: source_status
  jm_HasWatermark :: bool
  jm_Records :: "(string \<times> 'j Judged) list"

definition judged ::
  "instant \<Rightarrow> bool \<Rightarrow> real \<Rightarrow> source_row \<Rightarrow> ('j, 'c) wm_db \<Rightarrow> string \<Rightarrow> string list \<Rightarrow> 'j Judged" where
  "judged now lastApplied fresh s db recordID subjects =
     (let verdict = Judge (judge_input now lastApplied fresh s db recordID subjects)
      in case map_of (rows db) recordID of
           None \<Rightarrow> \<lparr>jd_Verdict = verdict, jd_Version = 0, jd_Data = None\<rparr>
         | Some r \<Rightarrow>
             \<lparr>jd_Verdict = verdict, jd_Version = p_version r,
              jd_Data = (if verdict \<noteq> Usable then None else if p_state r = Complete then p_data r else None)\<rparr>)"

definition judgeMany ::
  "instant \<Rightarrow> bool \<Rightarrow> real \<Rightarrow> ('j, 'c) wm_db \<Rightarrow> (string \<times> string list) list \<Rightarrow> 'j Judgement option" where
  "judgeMany now lastApplied fresh db asked =
     map_option (\<lambda>s.
       let base = (judge_input now lastApplied fresh s db [] [])\<lparr>Quarantined := False, ji_Row := None\<rparr>
       in \<lparr>jm_Source = (if Judge base \<noteq> Unprovable then Usable else Unprovable), jm_SourceState = s_status s,
           jm_HasWatermark = (watermark_age now db \<noteq> None),
           jm_Records = map (\<lambda>(i, subs). (i, judged now lastApplied fresh s db i subs)) asked\<rparr>) (source db)"

definition NoOlderThan :: "('j, 'c) wm_db \<Rightarrow> instant \<Rightarrow> bool" where
  "NoOlderThan db at_time =
     (case source db of
        None \<Rightarrow> False
      | Some s \<Rightarrow> wparts db \<noteq> [] \<and>
          (\<forall>p \<in> set (wparts db). s_status s = Aligned \<and>
             (case wp_echo_mp p of None \<Rightarrow> False | Some m \<Rightarrow> m \<ge> at_time)))"

definition Confirm_source :: "('j, 'c) wm_db \<Rightarrow> 'e wm_error + ('j, 'c) wm_db" where
  "Confirm_source db =
     (case load db of
        None \<Rightarrow> Inl ErrNotInstalled
      | Some st \<Rightarrow> Inr (saveState (transition st (source_event operator_confirms 0)) db))"

section \<open>Pulls\<close>

datatype pull_request = FirstPage string "(nat \<times> row_identity \<times> string \<times> string \<times> int) list" | NextPage string

record ('j, 'e) part_answer =
  pa_partition :: nat
  pa_events :: "('e + 'j Received) list"
  pa_echo :: "int option"
  pa_need :: need_snapshot

record ('j, 'e) pull_response =
  resp_source :: Identity
  resp_parts :: "('j, 'e) part_answer list"
  resp_next :: string

text \<open>
  The world of the consumer: the source's answers to pulls, its reads, the clock and the epoch of the
  consumer's primary, each by the number of transactions begun.
\<close>

record ('j, 'e) world =
  Pull :: "nat \<Rightarrow> pull_request \<Rightarrow> 'e + ('j, 'e) pull_response"
  reads :: "('j, 'e) Source"
  clock :: "nat \<Rightarrow> instant"
  db_epoch :: "nat \<Rightarrow> string"

definition record_pull :: "instant \<Rightarrow> string \<Rightarrow> string \<Rightarrow> ('j, 'c) wm_db \<Rightarrow> ('j, 'c) wm_db" where
  "record_pull now epoch nonce db =
     (let ws = wsource db;
          back = (case ws_max_seen ws of None \<Rightarrow> False | Some m \<Rightarrow> now < m);
          epochChanged = (case ws_db_epoch ws of None \<Rightarrow> False | Some e \<Rightarrow> e \<noteq> epoch);
          db1 = (if back \<or> epochChanged
                 then db\<lparr>wpulls := [], wparts := map (\<lambda>p. p\<lparr>wp_echo_mp := None\<rparr>) (wparts db)\<rparr> else db)
      in db1\<lparr>wsource := ws\<lparr>ws_max_seen := Some (case ws_max_seen ws of None \<Rightarrow> now | Some m \<Rightarrow> max m now),
               ws_db_epoch := Some epoch\<rparr>,
             wpulls := AList.update nonce now (wpulls db1)\<rparr>)"

fun use_partitions :: "int list \<Rightarrow> ('j, 'e) part_answer list \<Rightarrow> 'e wm_error + pull_outcome" where
  "use_partitions requested [] = Inr ApplyToEcho"
| "use_partitions requested (pr # prs) =
     (if pa_echo pr = None \<and> pa_need pr = NoNeed then use_partitions requested prs
      else if pa_partition pr \<ge> length requested then Inl ErrIndex
      else
        (case PullOutcome (requested ! pa_partition pr) False (pa_need pr)
                (case pa_echo pr of None \<Rightarrow> 0 | Some e \<Rightarrow> e) of
           Realign \<Rightarrow> Inr Realign
         | StallIt \<Rightarrow> Inr StallIt
         | _ \<Rightarrow> use_partitions requested prs))"

definition save_all :: "wm_state \<Rightarrow> ('j, 'c) wm_db \<Rightarrow> ('j, 'c) wm_db" where
  "save_all st db = saveState st (fold (\<lambda>i. savePart i (st_parts st ! i)) [0..<length (st_parts st)] db)"

definition identify ::
  "Identity \<Rightarrow> int list \<Rightarrow> ('j, 'e) part_answer list \<Rightarrow> ('j, 'c) wm_db \<Rightarrow> 'e wm_error + (bool \<times> ('j, 'c) wm_db)" where
  "identify r requested answers db =
     (case load db of
        None \<Rightarrow> Inl ErrNotInstalled
      | Some st \<Rightarrow>
          let decision = DecideEpoch (st_adopted st) r; gen = Generation_of (Epoch r)
          in if ss_State (st_source st) = Blocked \<and> decision \<noteq> Block then
               let check = (if \<exists>pr \<in> set answers. pa_need pr = RollbackDetected then Failed else Passed)
               in Inr (False, saveState (transition st
                    \<lparr>ev_Kind = primary_response, Gen = gen, Matches = (decision = Use \<or> decision = Adopt),
                     RowCheck = check\<rparr>) db)
             else
               (case decision of
                  Establish \<Rightarrow>
                    Inr (False, save_all (transition (invalidate (st\<lparr>st_adopted :=
                        (st_adopted st)\<lparr>Impl := Impl r, SystemID := SystemID r, Epoch := Epoch r\<rparr>\<rparr>))
                      (source_event first_contact gen)) db)
                | Adopt \<Rightarrow>
                    Inr (False, save_all (transition (invalidate (st\<lparr>st_adopted :=
                        (st_adopted st)\<lparr>SystemID := SystemID r, Epoch := Epoch r\<rparr>\<rparr>))
                      (source_event adopt_epoch gen)) db)
                | Stall \<Rightarrow> Inr (False, save_all (transition st (source_event rollback gen)) db)
                | Block \<Rightarrow> Inr (False, save_all (transition st (source_event foreign gen)) db)
                | IgnoreIt \<Rightarrow> Inr (False, db)
                | Discard \<Rightarrow> Inr (False, db)
                | Use \<Rightarrow>
                    (case use_partitions requested answers of
                       Inl x \<Rightarrow> Inl x
                     | Inr Realign \<Rightarrow> Inr (False, saveState (transition st (source_event beyond_retention gen)) db)
                     | Inr StallIt \<Rightarrow> Inr (False, saveState (transition st (source_event rollback gen)) db)
                     | Inr _ \<Rightarrow> Inr (True, db))))"

text \<open>
  A page: the rows of a partition are decoded, then applied in one transaction, in order; a row of
  another instance or epoch ends the partition. \<open>apply_events\<close> also says which event failed, for the
  count after the rollback.
\<close>

fun apply_events ::
  "('j, 'c, 'e) Watermarked \<Rightarrow> instant \<Rightarrow> wm_state \<Rightarrow> 'j Received list \<Rightarrow> ('j, 'c) wm_db \<Rightarrow>
   ('j Received \<times> 'e wm_error) + ('j, 'c) wm_db" where
  "apply_events w now st [] db = Inr db"
| "apply_events w now st (e # es) db =
     (if rc_Impl e \<noteq> Impl (st_adopted st) \<or> rc_Epoch e \<noteq> Epoch (st_adopted st) then Inr db
      else
        (case applyAt w now st e (ss_State (st_source st) \<noteq> Aligning) db of
           Inl ErrGap \<Rightarrow> apply_events w now st es db
         | Inl x \<Rightarrow> Inl (e, x)
         | Inr (st', db') \<Rightarrow> apply_events w now st' es db'))"

definition page_tx ::
  "('j, 'c, 'e) Watermarked \<Rightarrow> instant \<Rightarrow> 'j Received list \<Rightarrow> ('j, 'c) wm_db \<Rightarrow>
   'e wm_error option \<times> ('j, 'c) wm_db" where
  "page_tx w now es db =
     (case load db of
        None \<Rightarrow> (Some ErrNotInstalled, db)
      | Some st \<Rightarrow>
          if ss_State (st_source st) = Blocked then (None, db)
          else
            (case apply_events w now st es db of
               Inr db' \<Rightarrow> (None, db')
             | Inl (e, x) \<Rightarrow> (Some x, (case x of ErrInput _ \<Rightarrow> noteFailure now e db | _ \<Rightarrow> db))))"

fun decode_all :: "('e + 'a) list \<Rightarrow> 'e + 'a list" where
  "decode_all [] = Inr []"
| "decode_all (x # xs) =
     (case x of
        Inl e \<Rightarrow> Inl e
      | Inr a \<Rightarrow> (case decode_all xs of Inl e \<Rightarrow> Inl e | Inr as \<Rightarrow> Inr (a # as)))"

fun applyPage ::
  "('j, 'c, 'e) Watermarked \<Rightarrow> ('j, 'e) world \<Rightarrow> ('j, 'c) wm_db interference \<Rightarrow> ('j, 'e) part_answer list \<Rightarrow>
   nat \<times> ('j, 'c) wm_db \<Rightarrow> 'e wm_error option \<times> nat \<times> ('j, 'c) wm_db" where
  "applyPage w world others [] st = (None, st)"
| "applyPage w world others (pr # prs) (n, db) =
     (if pa_events pr = [] then applyPage w world others prs (n, db)
      else
        (case decode_all (pa_events pr) of
           Inl x \<Rightarrow> (Some (ErrPull x), n, db)
         | Inr es \<Rightarrow>
             (case page_tx w (clock world n) es (others n db) of
                (Some x, db') \<Rightarrow> (Some x, Suc n, db')
              | (None, db') \<Rightarrow> applyPage w world others prs (Suc n, db'))))"

text \<open>The pages of one pull; their number is the source's choice, hence the fuel.\<close>

fun pull_loop ::
  "nat \<Rightarrow> ('j, 'c, 'e) Watermarked \<Rightarrow> ('j, 'e) world \<Rightarrow> ('j, 'c) wm_db interference \<Rightarrow> int list \<Rightarrow>
   Identity option \<Rightarrow> pull_request \<Rightarrow> nat \<times> ('j, 'c) wm_db \<Rightarrow>
   ('e wm_error option \<times> nat \<times> ('j, 'c) wm_db) option" where
  "pull_loop 0 w world others requested first req st = None"
| "pull_loop (Suc fuel) w world others requested first req (n, db) =
     (case Pull world n req of
        Inl x \<Rightarrow> Some (Some (ErrPull x), n, db)
      | Inr resp \<Rightarrow>
          (case (case first of
                   None \<Rightarrow>
                     (case identify (resp_source resp) requested (resp_parts resp) (others n db) of
                        Inl x \<Rightarrow> (Inl x, Suc n, others n db)
                      | Inr (use, db') \<Rightarrow> (Inr use, Suc n, db'))
                 | Some f \<Rightarrow> (if resp_source resp \<noteq> f then Inl ErrPages else Inr True, n, db)) of
             (Inl x, st1) \<Rightarrow> Some (Some x, st1)
           | (Inr False, st1) \<Rightarrow> Some (None, st1)
           | (Inr True, st1) \<Rightarrow>
               (case applyPage w world others (resp_parts resp) st1 of
                  (Some x, st2) \<Rightarrow> Some (Some x, st2)
                | (None, st2) \<Rightarrow>
                    if resp_next resp = [] then Some (None, st2)
                    else pull_loop fuel w world others requested (Some (resp_source resp)) (NextPage (resp_next resp)) st2)))"

definition positions :: "wm_state \<Rightarrow> (nat \<times> row_identity \<times> string \<times> string \<times> int) list" where
  "positions st =
     (if Impl (st_adopted st) = [] then []
      else concat (map (\<lambda>(i, p). case wp_seq p of
              None \<Rightarrow> []
            | Some s \<Rightarrow> [(i, (case wp_identity p of None \<Rightarrow> EchoNonce [] | Some r \<Rightarrow> r),
                          Impl (st_adopted st), Epoch (st_adopted st), s)])
          (enumerate 0 (st_parts st))))"

definition requested_positions :: "wm_state \<Rightarrow> int list" where
  "requested_positions st =
     map (\<lambda>p. if Impl (st_adopted st) = [] then 0 else case wp_seq p of None \<Rightarrow> 0 | Some s \<Rightarrow> s) (st_parts st)"

definition pull ::
  "nat \<Rightarrow> ('j, 'c, 'e) Watermarked \<Rightarrow> ('j, 'e) world \<Rightarrow> ('j, 'c) wm_db interference \<Rightarrow> string \<Rightarrow>
   nat \<times> ('j, 'c) wm_db \<Rightarrow> ('e wm_error option \<times> nat \<times> ('j, 'c) wm_db) option" where
  "pull fuel w world others nonce nd =
     (case nd of (n, db) \<Rightarrow>
        let db1 = record_pull (clock world n) (db_epoch world n) nonce (others n db);
            db2 = others (Suc n) db1
        in case load db2 of
             None \<Rightarrow> Some (Some ErrNotInstalled, Suc (Suc n), db2)
           | Some st \<Rightarrow>
               pull_loop fuel w world others (requested_positions st) None (FirstPage nonce (positions st))
                 (Suc (Suc n), db2))"

section \<open>The re-fetch of a watermark source\<close>

text \<open>
  The positions of the echo-only pull, by partition. The identity the source declares must be the
  one adopted.
\<close>

fun p0_of :: "('j, 'e) part_answer list \<Rightarrow> int list \<Rightarrow> 'e proj_error + int list" where
  "p0_of [] p0 = Inr p0"
| "p0_of (pr # prs) p0 =
     (case pa_echo pr of
        None \<Rightarrow> Inl (ErrUnanswered ''echo'')
      | Some e \<Rightarrow> if pa_partition pr \<ge> length p0 then Inl (ErrAnswered ''partition'')
                  else p0_of prs (p0[pa_partition pr := e]))"

definition save_p0 :: "int list \<Rightarrow> ('j, 'c) wm_db \<Rightarrow> 'e proj_error + (unit \<times> ('j, 'c) wm_db)" where
  "save_p0 p0 db = Inr ((), fold (\<lambda>i. savePart i (no_part\<lparr>wp_p0 := Some (p0 ! i)\<rparr>)) [0..<length p0] db)"

definition align_started ::
  "('j, 'c, 'e) Watermarked \<Rightarrow> ('j, 'e) world \<Rightarrow> ('j, 'c) wm_db interference \<Rightarrow> string \<Rightarrow> Identity \<Rightarrow> int \<Rightarrow>
   nat \<times> ('j, 'c) wm_db \<Rightarrow> ('e proj_error + int list) \<times> nat \<times> ('j, 'c) wm_db" where
  "align_started w world others nonce ad gen nd =
     (case nd of (n, db) \<Rightarrow>
        let db1 = record_pull (clock world n) (db_epoch world n) nonce (others n db)
        in case Pull world (Suc n) (FirstPage nonce []) of
             Inl x \<Rightarrow> (Inl (ErrCallback x), Suc n, db1)
           | Inr resp \<Rightarrow>
               if DecideEpoch ad (resp_source resp) \<noteq> Use then (Inl ErrOtherSource, Suc n, db1)
               else
                 (case p0_of (resp_parts resp) (replicate (nat (Partitions (w_Stream w))) 0) of
                    Inl e \<Rightarrow> (Inl e, Suc n, db1)
                  | Inr p0 \<Rightarrow>
                      (case BackgroundTx others (guarded gen (save_p0 p0)) (Suc n, db1) of
                         (Inl e, st2) \<Rightarrow> (Inl e, st2)
                       | (Inr _, st2) \<Rightarrow> (Inr p0, st2))))"

definition align_done :: "string \<Rightarrow> int list \<Rightarrow> int \<Rightarrow> ('j, 'c) wm_db \<Rightarrow> 'e proj_error + (unit \<times> ('j, 'c) wm_db)" where
  "align_done nonce p0 gen db =
     (case load db of
        None \<Rightarrow> Inl ErrNoSource
      | Some st \<Rightarrow>
          if length (st_parts st) > length p0 then Inl (ErrAnswered ''partition'')
          else
            let st1 = st\<lparr>st_parts := map (\<lambda>i. no_part\<lparr>wp_seq := Some (p0 ! i), wp_identity := Some (EchoNonce nonce)\<rparr>)
                           [0..<length (st_parts st)], st_refetch := False\<rparr>;
                st2 = (if ss_State (st_source st) = Aligning
                       then transition st1 (source_event alignment_done (Generation_of (Epoch (st_adopted st)))) else st1);
                db1 = fold (\<lambda>i. savePart i (st_parts st1 ! i)) [0..<length (st_parts st1)] db;
                db2 = db1\<lparr>wquarantine := filter (\<lambda>q. \<not> (q_impl q \<noteq> Impl (st_adopted st) \<or> q_epoch q \<noteq> Epoch (st_adopted st) \<or>
                        q_partition q < length p0 \<and> q_seq q \<le> p0 ! q_partition q)) (wquarantine db1)\<rparr>
            in Inr ((), saveState st2 db2))"

definition align ::
  "nat \<Rightarrow> ('j, 'c, 'e) Watermarked \<Rightarrow> ('j, 'e) world \<Rightarrow> ('j, 'c) wm_db interference \<Rightarrow> string \<Rightarrow> wm_state \<Rightarrow>
   nat \<times> ('j, 'c) wm_db \<Rightarrow> ('e wm_error option \<times> nat \<times> ('j, 'c) wm_db) option" where
  "align fuel w world others nonce st nd =
     (let ad = st_adopted st;
          h = \<lparr>h_status = ss_State (st_source st),
               h_started = align_started w world others nonce ad,
               h_purgedAt = (\<lambda>p0 i. Some (p0 ! nat (PartitionOf (w_Stream w) i))),
               h_done = align_done nonce\<rparr>
      in case alignTo fuel (w_projection w) (reads world) others
                (nobody\<lparr>Deployment := w_Deployment w, Impl := Impl ad, Epoch := Epoch ad\<rparr>) h nd of
           None \<Rightarrow> None
         | Some (Inl e, nd') \<Rightarrow> Some (Some (ErrAlign e), nd')
         | Some (Inr _, nd') \<Rightarrow> Some (None, nd'))"

section \<open>The loop\<close>

datatype due = Nothing | AlignNow | PullNow

definition last_pull_age :: "instant \<Rightarrow> ('j, 'c) wm_db \<Rightarrow> real option" where
  "last_pull_age now db =
     (if wpulls db = [] then None
      else Some (real_of_int (now - Max (set (map snd (wpulls db)))) / 1000000000))"

text \<open>What is due: \<open>soon\<close> is a pull that was asked for.\<close>

definition what_is_due :: "real \<Rightarrow> bool \<Rightarrow> wm_state \<Rightarrow> real option \<Rightarrow> real option \<Rightarrow> due" where
  "what_is_due half soon st age lst =
     (if ss_State (st_source st) = Blocked \<and> \<not> Confirmed (st_source st) then Nothing
      else if Impl (st_adopted st) \<noteq> [] \<and> (st_refetch st \<or> ss_State (st_source st) = Aligning) then AlignNow
      else if soon \<or> Impl (st_adopted st) = [] \<or>
              ss_State (st_source st) = Aligned \<and> (case age of None \<Rightarrow> True | Some a \<Rightarrow> a \<ge> half)
      then PullNow
      else if ss_State (st_source st) \<noteq> Aligned \<and> (case lst of None \<Rightarrow> True | Some a \<Rightarrow> a \<ge> half) then PullNow
      else Nothing)"

definition Step ::
  "nat \<Rightarrow> ('j, 'c, 'e) Watermarked \<Rightarrow> ('j, 'e) world \<Rightarrow> ('j, 'c) wm_db interference \<Rightarrow> bool \<Rightarrow> string \<Rightarrow>
   nat \<times> ('j, 'c) wm_db \<Rightarrow> ('e wm_error option \<times> nat \<times> ('j, 'c) wm_db) option" where
  "Step fuel w world others soon nonce nd =
     (case nd of (n, db) \<Rightarrow>
        let db0 = others n db; now = clock world n
        in case load db0 of
             None \<Rightarrow> Some (Some ErrNotInstalled, Suc n, db0)
           | Some st \<Rightarrow>
               (case what_is_due (real_of_int (w_Freshness w) / 1000000000 / 2) soon st (watermark_age now db0)
                       (last_pull_age now db0) of
                  Nothing \<Rightarrow> Some (None, Suc n, db0)
                | AlignNow \<Rightarrow> align fuel w world others nonce st (Suc n, db0)
                | PullNow \<Rightarrow> pull fuel w world others nonce (Suc n, db0)))"

end
