(* ===== verification/Watermark_Correct.thy ===== *)
theory Watermark_Correct
  imports Watermark Projection_Correct
begin

text \<open>
  Correctness of the watermarked projection: the table of alignment states over any sequence of
  events, the identity and the stream positions that only move forward, what a usable judgement
  promises about freshness, and the loop that keeps retrying a re-fetch the source cannot answer.
  Frame lemmas say what applying a row leaves alone; the step machine \<open>wm_step\<close> interprets the
  prelude's interface for monotone runs.
\<close>

section \<open>The alignment state table over runs\<close>

definition source_step :: "SourceState \<Rightarrow> SourceEvent \<Rightarrow> SourceState" where
  "source_step s e = fst (NextState s e)"

lemma rolled_back_step:
  assumes "Rollback s" "StalledGen s = Some g" "ss_State s \<noteq> Aligned"
    and "ev_Kind e \<noteq> environment_copy" "ev_Kind e \<noteq> rollback" "RowCheck e \<noteq> Failed"
    and "\<not> (ev_Kind e = alignment_done \<and> Gen e > g)"
  shows "Rollback (source_step s e) \<and> StalledGen (source_step s e) = Some g \<and> ss_State (source_step s e) \<noteq> Aligned"
  using assms by (auto simp: source_step_def NextState_def above_def)



lemma blocked_step:
  assumes "ss_State s = Blocked" "ev_Kind e \<noteq> environment_copy"
  shows "ss_State (source_step s e) = Blocked \<and> (Confirmed (source_step s e) \<longrightarrow> Confirmed s \<or> ev_Kind e = operator_confirms) \<or>
    Confirmed s \<and> ev_Kind e = primary_response \<and> Matches e"
  using assms by (auto simp: source_step_def NextState_def)

lemma blocked_confirmed_leaves:
  assumes "ss_State s = Blocked" "ss_State (foldl source_step s es) \<noteq> Blocked"
    and "\<forall>e \<in> set es. ev_Kind e \<noteq> environment_copy"
  shows "\<exists>ys p zs. es = ys @ p # zs \<and> ev_Kind p = primary_response \<and> Matches p"
  using assms
proof (induction es arbitrary: s)
  case (Cons e es)
  show ?case
  proof (cases "ss_State (source_step s e) = Blocked")
    case True
    with Cons.IH [OF True] Cons.prems obtain ys p zs where "es = ys @ p # zs" "ev_Kind p = primary_response" "Matches p"
      by auto
    then have "e # es = (e # ys) @ p # zs" by simp
    with \<open>ev_Kind p = primary_response\<close> \<open>Matches p\<close> show ?thesis by blast
  next
    case False
    with blocked_step [OF Cons.prems(1), of e] Cons.prems(3) show ?thesis
      by (intro exI [of _ "[]"] exI [of _ e] exI [of _ es]) auto
  qed
qed simp



section \<open>What is read back\<close>

lemma load_saveState:
  assumes "source db = Some s"
  shows "load (saveState st db) =
    Some \<lparr>st_source = st_source st,
      st_adopted = \<lparr>Deployment = ws_deployment (wsource db), Impl = Impl (st_adopted st),
        SystemID = SystemID (st_adopted st),
        Epoch = (if Impl (st_adopted st) \<noteq> [] then Epoch (st_adopted st) else []), Primary = False, Purpose = []\<rparr>,
      st_align_gen = s_align_gen s, st_refetch = st_refetch st, st_parts = wparts db\<rparr>"
  using assms by (simp add: load_def saveState_def Let_def deref_def)

lemma savePart_fields [simp]:
  "source (savePart n p db) = source db" "wsource (savePart n p db) = wsource db"
  "rows (savePart n p db) = rows db" "wparts (savePart n p db) = (wparts db)[n := p]"
  by (simp_all add: savePart_def)

lemma saveState_parts [simp]: "wparts (saveState st db) = wparts db"
  by (simp add: saveState_def Let_def)

lemma fold_savePart_fields [simp]:
  "source (fold (\<lambda>i. savePart i (f i)) is db) = source db \<and> wsource (fold (\<lambda>i. savePart i (f i)) is db) = wsource db"
  by (induction "is" arbitrary: db) simp_all

text \<open>The adopted identity: read back from the two tables.\<close>

definition adopted_of :: "('j, 'c) wm_db \<Rightarrow> Identity option" where
  "adopted_of db = map_option st_adopted (load db)"

definition identity_le :: "Identity \<Rightarrow> Identity \<Rightarrow> bool" where
  "identity_le a b \<longleftrightarrow> Deployment b = Deployment a \<and>
     (Impl a \<noteq> [] \<longrightarrow> Impl b = Impl a \<and> epochKey (Epoch a) \<le> epochKey (Epoch b) \<and>
        (SystemID b \<noteq> SystemID a \<longrightarrow> fst (epochKey (Epoch a)) < fst (epochKey (Epoch b))))"

definition adopted_le :: "('j, 'c) wm_db \<Rightarrow> ('j, 'c) wm_db \<Rightarrow> bool" where
  "adopted_le db db' \<longleftrightarrow> (\<forall>a. adopted_of db = Some a \<longrightarrow> (\<exists>b. adopted_of db' = Some b \<and> identity_le a b))"

lemma identity_le_refl: "identity_le a a"
  by (simp add: identity_le_def)

lemma identity_le_trans:
  assumes "identity_le a b" "identity_le b c" shows "identity_le a c"
proof (cases "Impl a = []")
  case True
  with assms show ?thesis by (simp add: identity_le_def)
next
  case False
  with assms have b: "Impl b = Impl a" "epochKey (Epoch a) \<le> epochKey (Epoch b)"
    "SystemID b \<noteq> SystemID a \<longrightarrow> fst (epochKey (Epoch a)) < fst (epochKey (Epoch b))"
    "Impl c = Impl a" "epochKey (Epoch b) \<le> epochKey (Epoch c)"
    "SystemID c \<noteq> SystemID b \<longrightarrow> fst (epochKey (Epoch b)) < fst (epochKey (Epoch c))"
    by (auto simp: identity_le_def)
  from b(2,5) have "fst (epochKey (Epoch a)) \<le> fst (epochKey (Epoch b))" "fst (epochKey (Epoch b)) \<le> fst (epochKey (Epoch c))"
    by (auto simp: less_eq_prod_def)
  with b(3,6) have "SystemID c \<noteq> SystemID a \<longrightarrow> fst (epochKey (Epoch a)) < fst (epochKey (Epoch c))"
    by (cases "SystemID b = SystemID a") auto
  with b assms False show ?thesis by (auto simp: identity_le_def)
qed

lemma DecideEpoch_adopt:
  "DecideEpoch a r = Adopt \<Longrightarrow> identity_le a (a\<lparr>SystemID := SystemID r, Epoch := Epoch r\<rparr>)"
  using cmp_epoch.cmp_gt [of "epochKey (Epoch r)" "epochKey (Epoch a)"]
  by (auto simp: DecideEpoch_def Let_def identity_le_def split: if_splits)

lemma DecideEpoch_establish: "DecideEpoch a r = Establish \<Longrightarrow> Impl a = []"
  by (auto simp: DecideEpoch_def Let_def split: if_splits)

lemma transition_fields [simp]:
  "st_adopted (transition st ev) = st_adopted st" "st_parts (transition st ev) = st_parts st"
  by (simp_all add: transition_def split: prod.splits)

lemma invalidate_fields [simp]: "st_adopted (invalidate st) = st_adopted st"
  by (simp add: invalidate_def)

lemma load_Some: "load db = Some st \<Longrightarrow>
  \<exists>s. source db = Some s \<and> Deployment (st_adopted st) = ws_deployment (wsource db) \<and>
    (Primary (st_adopted st) = False) \<and> Purpose (st_adopted st) = [] \<and> st_parts st = wparts db"
  by (auto simp: load_def split: option.splits)

lemma adopted_saved:
  assumes "load db = Some st" "source db' = source db" "wsource db' = wsource db"
    "identity_le (st_adopted st) (st_adopted st')" 
  shows "adopted_le db (saveState st' db')"
proof -
  from load_Some [OF assms(1)] obtain s where s: "source db = Some s"
    "Deployment (st_adopted st) = ws_deployment (wsource db)" by blast
  with load_saveState [of db' s st'] assms(2,3) have
    "adopted_of (saveState st' db') = Some \<lparr>Deployment = Deployment (st_adopted st), Impl = Impl (st_adopted st'),
        SystemID = SystemID (st_adopted st'),
        Epoch = (if Impl (st_adopted st') \<noteq> [] then Epoch (st_adopted st') else []), Primary = False, Purpose = []\<rparr>"
    by (simp add: adopted_of_def)
  moreover have "adopted_of db = Some (st_adopted st)" by (simp add: adopted_of_def assms(1))
  ultimately show ?thesis using assms(4)
    by (auto simp: adopted_le_def identity_le_def)
qed

lemma adopted_le_refl: "adopted_le db db"
  by (simp add: adopted_le_def identity_le_refl)

lemma adopted_le_trans: "adopted_le a b \<Longrightarrow> adopted_le b c \<Longrightarrow> adopted_le a c"
  unfolding adopted_le_def by (meson identity_le_trans)

lemma save_all_eq: "save_all st db = saveState st (fold (\<lambda>i. savePart i (st_parts st ! i)) [0..<length (st_parts st)] db)"
  by (simp add: save_all_def)

lemma identify_adopted_le:
  assumes "identify r requested answers db = Inr (use, db')"
  shows "adopted_le db db'"
proof -
  from assms obtain st where st: "load db = Some st" by (auto simp: identify_def split: option.splits)
  have same: "adopted_le db (saveState (transition st ev) db)" for ev
    by (rule adopted_saved [OF st]) (simp_all add: identity_le_refl)
  have sameall: "adopted_le db (save_all (transition st ev) db)" for ev
    unfolding save_all_eq by (rule adopted_saved [OF st]) (simp_all add: identity_le_refl)
  have est: "adopted_le db (save_all (transition (invalidate (st\<lparr>st_adopted := (st_adopted st)\<lparr>Impl := i, SystemID := y, Epoch := e\<rparr>\<rparr>)) ev) db)"
    if "Impl (st_adopted st) = []" for i y e ev
    unfolding save_all_eq by (rule adopted_saved [OF st]) (simp_all add: identity_le_def that)
  have adp: "adopted_le db (save_all (transition (invalidate (st\<lparr>st_adopted := (st_adopted st)\<lparr>SystemID := SystemID r, Epoch := Epoch r\<rparr>\<rparr>)) ev) db)"
    if "DecideEpoch (st_adopted st) r = Adopt" for ev
    unfolding save_all_eq by (rule adopted_saved [OF st]) (simp_all add: DecideEpoch_adopt [OF that])
  from assms st show ?thesis
    by (auto simp: identify_def Let_def same sameall est adp adopted_le_refl DecideEpoch_establish
        split: if_splits epoch_decision.splits sum.splits pull_outcome.splits)
qed

section \<open>What applying a row leaves alone\<close>

definition same_source :: "('j, 'c, 'z) proj_db_scheme \<Rightarrow> ('j, 'c, 'z) proj_db_scheme \<Rightarrow> bool" where
  "same_source db db' \<longleftrightarrow> proj_db.more db' = proj_db.more db \<and>
     map_option (\<lambda>s. (s_impl s, s_epoch s)) (source db') = map_option (\<lambda>s. (s_impl s, s_epoch s)) (source db)"

lemma changed_same: "changed p db i = Inr db' \<Longrightarrow> same_source db db'"
  by (auto simp: changed_def same_source_def split: option.splits sum.splits)

lemma write_row_same: "write_row p db inp cur nxt act = Inr (out, db') \<Longrightarrow> same_source db db'"
  by (auto simp: write_row_def Let_def same_source_def split: if_splits option.splits sum.splits dest!: changed_same)

lemma receive_same: "receive p db inp cur = Inr (out, db') \<Longrightarrow> same_source db db'"
  by (auto simp: receive_def split: prod.splits if_splits dest!: write_row_same) (simp_all add: same_source_def)

lemma Apply_same: "Apply p db inp = Inr (out, db') \<Longrightarrow> same_source db db'"
  by (auto simp: Apply_def Let_def split: prod.splits if_splits option.splits dest!: receive_same)
    (cases "source db"; simp add: same_source_def)+

lemma more_fields:
  fixes db db' :: "('j, 'c) wm_db"
  assumes "proj_db.more db' = proj_db.more db"
  shows "wsource db' = wsource db \<and> wparts db' = wparts db \<and> wpulls db' = wpulls db \<and>
    wfailures db' = wfailures db \<and> wquarantine db' = wquarantine db"
  using assms by (cases db; cases db') simp

lemma same_source_adopted:
  assumes "same_source db db'" shows "adopted_of db' = adopted_of db \<and> wparts db' = wparts db \<and> wpulls db' = wpulls db"
  using assms more_fields [of db' db]
  by (cases "source db"; cases "source db'") (auto simp: same_source_def adopted_of_def load_def)

text \<open>The state in memory and the tables agree on whom the consumer follows.\<close>

definition follows_source :: "wm_state \<Rightarrow> ('j, 'c) wm_db \<Rightarrow> bool" where
  "follows_source st db \<longleftrightarrow> (\<exists>b. adopted_of db = Some b \<and> Deployment b = Deployment (st_adopted st) \<and>
     Impl b = Impl (st_adopted st) \<and> (Impl b \<noteq> [] \<longrightarrow> b = st_adopted st))"

lemma follows_le:
  assumes "follows_source st db" "follows_source st' db'" "st_adopted st' = st_adopted st"
  shows "adopted_le db db'"
  using assms unfolding follows_source_def adopted_le_def identity_le_def by force

lemma load_follows: "load db = Some st \<Longrightarrow> follows_source st db"
  by (simp add: follows_source_def adopted_of_def)

lemma follows_saved:
  assumes "follows_source st db" "st_adopted st' = st_adopted st"
  shows "follows_source st' (saveState st' db)"
proof -
  from assms(1) obtain st0 where l: "load db = Some st0" and a: "Deployment (st_adopted st0) = Deployment (st_adopted st)"
    "Impl (st_adopted st0) \<noteq> [] \<longrightarrow> st_adopted st0 = st_adopted st" "Impl (st_adopted st0) = Impl (st_adopted st)"
    by (auto simp: follows_source_def adopted_of_def)
  from load_Some [OF l] obtain s where s: "source db = Some s" "Deployment (st_adopted st0) = ws_deployment (wsource db)"
    "Primary (st_adopted st0) = False" "Purpose (st_adopted st0) = []" by blast
  let ?b = "\<lparr>Deployment = ws_deployment (wsource db), Impl = Impl (st_adopted st), SystemID = SystemID (st_adopted st),
    Epoch = (if Impl (st_adopted st) \<noteq> [] then Epoch (st_adopted st) else []), Primary = False, Purpose = []\<rparr>"
  have "adopted_of (saveState st' db) = Some ?b"
    by (simp add: adopted_of_def load_saveState [OF s(1)] assms(2))
  moreover have "?b = st_adopted st" if "Impl (st_adopted st) \<noteq> []"
    using that a s(2-4) by (cases "st_adopted st") simp
  ultimately show ?thesis using a(1) s(2) assms(2) unfolding follows_source_def by simp
qed

lemma follows_adopted: "follows_source st db \<Longrightarrow> adopted_of db' = adopted_of db \<Longrightarrow> st_adopted st' = st_adopted st \<Longrightarrow> follows_source st' db'"
  by (simp add: follows_source_def)

lemma adopted_of_savePart [simp]: "adopted_of (savePart n p db) = adopted_of db"
  by (simp add: adopted_of_def load_def split: option.splits)

lemma quarantine_fields:
  "quarantineIfDue now st e db = Inr (done', db') \<Longrightarrow>
   adopted_of db' = adopted_of db \<and> wparts db' = wparts db \<and> wpulls db' = wpulls db"
  by (auto simp: quarantineIfDue_def adopted_of_def load_def split: option.splits if_splits)

lemma applyInput_frame:
  fixes w :: "('j, 'c, 'e) Watermarked"
  assumes "applyInput w st e db = Inr (st', db')" "follows_source st db"
  shows "follows_source st' db' \<and> st_adopted st' = st_adopted st \<and> st_parts st' = st_parts st \<and> wparts db' = wparts db"
proof -
  from assms(1) obtain inp out db1 where ap: "Apply (w_projection w) db inp = Inr (out, db1)"
    and rest: "(if rc_Projection e = FullEvent then digestTripwire st e db1 else Inr (st, db1)) = (Inr (st', db') :: 'e proj_error + _)"
    by (auto simp: applyInput_def split: sum.splits)
  from same_source_adopted [OF Apply_same [OF ap]] assms(2) have f: "follows_source st db1" "wparts db1 = wparts db"
    by (auto intro: follows_adopted)
  have "(st', db') = (st, db1) \<or> (\<exists>ev. st' = transition st ev \<and> db' = saveState st' db1)"
    using rest by (auto simp: digestTripwire_def Let_def split: if_splits option.splits)
  then show ?thesis
  proof
    assume "\<exists>ev. st' = transition st ev \<and> db' = saveState st' db1"
    then obtain ev where t: "st' = transition st ev" "db' = saveState st' db1" by blast
    with follows_saved [OF f(1), of st'] f(2) show ?thesis by simp
  qed (use f in simp)
qed

lemma advance_frame:
  assumes "advance st e p db = (st', db')" "follows_source st db" "rc_Partition e < length (wparts db)"
  shows "follows_source st' db' \<and> st_adopted st' = st_adopted st \<and>
    (\<exists>p'. wparts db' = (wparts db)[rc_Partition e := p'] \<and> wp_seq p' = Some (rc_Seq e) \<and>
       st_parts st' = (st_parts st)[rc_Partition e := p'])"
  using assms by (auto simp: advance_def Let_def intro!: follows_adopted [of st db])

lemma apply_row_frame:
  fixes w :: "('j, 'c, 'e) Watermarked"
  assumes "apply_row w now st e contiguous db = Inr (st', db')" "follows_source st db"
    "rc_Partition e < length (wparts db)"
  shows "follows_source st' db' \<and> st_adopted st' = st_adopted st \<and>
    (if contiguous then \<exists>p'. wparts db' = (wparts db)[rc_Partition e := p'] \<and> wp_seq p' = Some (rc_Seq e) \<and>
        st_parts st' = (st_parts st)[rc_Partition e := p']
     else wparts db' = wparts db \<and> length (st_parts st') = length (st_parts st))"
proof -
  from assms(1) obtain d db1 where q: "quarantineIfDue now st e db = (Inr (d, db1) :: 'e wm_error + _)"
    by (auto simp: apply_row_def Let_def split: sum.splits)
  note qf = quarantine_fields [OF q]
  from qf assms(2,3) have f1: "follows_source st db1" "wparts db1 = wparts db" "rc_Partition e < length (wparts db1)"
    by (auto intro: follows_adopted)
  show ?thesis
  proof (cases d)
    case True
    with assms(1) q have "(if contiguous then advance st e (st_parts st ! rc_Partition e) db1 else (st, db1)) = (st', db')"
      by (simp add: apply_row_def Let_def)
    with advance_frame [OF _ f1(1,3)] f1 show ?thesis by (auto split: if_splits)
  next
    case nq: False
    show ?thesis
    proof (cases "rc_Echo e")
      case True
      with nq assms(1) q obtain p1 where
        "(if contiguous then advance st e p1 db1 else (st\<lparr>st_parts := (st_parts st)[rc_Partition e := p1]\<rparr>, db1)) = (st', db')"
        by (auto simp: apply_row_def Let_def split: if_splits)
      with advance_frame [OF _ f1(1,3)] f1 show ?thesis by (auto split: if_splits intro: follows_adopted)
    next
      case False
      with nq assms(1) q obtain st1 db2 where a: "applyInput w st e db1 = Inr (st1, db2)"
        and r: "(if contiguous then advance st1 e (st_parts st ! rc_Partition e) db2 else (st1, db2)) = (st', db')"
        by (auto simp: apply_row_def Let_def split: sum.splits)
      from applyInput_frame [OF a f1(1)] f1 have f2: "follows_source st1 db2" "st_adopted st1 = st_adopted st"
        "st_parts st1 = st_parts st" "wparts db2 = wparts db" "rc_Partition e < length (wparts db2)" by auto
      with r advance_frame [OF _ f2(1,5)] show ?thesis by (auto split: if_splits)
    qed
  qed
qed

lemma applyAt_frame:
  assumes "applyAt w now st e contiguous db = Inr (st', db')" "follows_source st db" "length (st_parts st) = length (wparts db)"
  shows "follows_source st' db' \<and> st_adopted st' = st_adopted st \<and> length (st_parts st') = length (wparts db') \<and>
    (wparts db' = wparts db \<or>
     contiguous \<and> wp_seq (st_parts st ! rc_Partition e) = Some (rc_Seq e - 1) \<and> rc_Partition e < length (wparts db) \<and>
     (\<exists>p'. wparts db' = (wparts db)[rc_Partition e := p'] \<and> wp_seq p' = Some (rc_Seq e)))"
proof -
  from assms(1,3) have k: "rc_Partition e < length (wparts db)" by (auto simp: applyAt_def split: if_splits)
  show ?thesis
  proof (cases "contiguous")
    case True
    with assms(1) k assms(3) have "(st', db') = (st, db) \<or>
      wp_seq (st_parts st ! rc_Partition e) = Some (rc_Seq e - 1) \<and> apply_row w now st e True db = Inr (st', db')"
      by (auto simp: applyAt_def split: option.splits if_splits)
    then show ?thesis
    proof
      assume "(st', db') = (st, db)"
      with assms show ?thesis by simp
    next
      assume r: "wp_seq (st_parts st ! rc_Partition e) = Some (rc_Seq e - 1) \<and> apply_row w now st e True db = Inr (st', db')"
      with apply_row_frame [OF conjunct2 [OF r] assms(2) k] k True assms(3) show ?thesis by auto
    qed
  next
    case False
    with assms(1) k assms(3) have "apply_row w now st e False db = Inr (st', db')" by (simp add: applyAt_def)
    from apply_row_frame [OF this assms(2) k] assms(3) show ?thesis by auto
  qed
qed

text \<open>One event: the handler keeps the adopted identity and moves at most one partition, by one position.\<close>

lemma noteFailure_fields [simp]: "adopted_of (noteFailure now e db) = adopted_of db" "wparts (noteFailure now e db) = wparts db"
  by (simp_all add: noteFailure_def Let_def adopted_of_def load_def split: option.splits)

lemma handle_tx_frame:
  assumes "handle_tx w now e db = Inr db'"
  shows "\<exists>st st'. load db = Some st \<and> follows_source st' db' \<and> st_adopted st' = st_adopted st \<and>
    (wparts db' = wparts db \<or>
     rc_Impl e = Impl (st_adopted st) \<and> cmpEpoch (epochKey (rc_Epoch e)) (epochKey (Epoch (st_adopted st))) = 0 \<and>
     wp_seq (wparts db ! rc_Partition e) = Some (rc_Seq e - 1) \<and> rc_Partition e < length (wparts db) \<and>
     (\<exists>p'. wparts db' = (wparts db)[rc_Partition e := p'] \<and> wp_seq p' = Some (rc_Seq e)))"
proof -
  from assms obtain st where st: "load db = Some st" by (auto simp: handle_tx_def split: option.splits)
  note f = load_follows [OF st]
  from load_Some [OF st] have parts: "st_parts st = wparts db" by blast
  have stay: ?thesis if "db' = db" using st f that by blast
  show ?thesis
  proof (cases "rc_Impl e = Impl (st_adopted st) \<and> cmpEpoch (epochKey (rc_Epoch e)) (epochKey (Epoch (st_adopted st))) = 0")
    case False
    with assms st have "db' = db \<or> (\<exists>ev. db' = saveState (transition st ev) db)"
      by (auto simp: handle_tx_def split: if_splits)
    then show ?thesis
    proof
      assume "\<exists>ev. db' = saveState (transition st ev) db"
      then obtain ev where "db' = saveState (transition st ev) db" by blast
      with follows_saved [OF f, of "transition st ev"] st show ?thesis by (intro exI [of _ st] exI [of _ "transition st ev"]) simp
    qed (rule stay)
  next
    case True
    with assms st have "db' = db \<or> (\<exists>c st'. applyAt w now st e c db = Inr (st', db'))"
      by (auto simp: handle_tx_def Let_def split: if_splits sum.splits wm_error.splits option.splits)
    then show ?thesis
    proof
      assume "\<exists>c st'. applyAt w now st e c db = Inr (st', db')"
      then obtain c st' where "applyAt w now st e c db = Inr (st', db')" by blast
      from applyAt_frame [OF this f] parts True st show ?thesis by auto
    qed (rule stay)
  qed
qed

lemma Handle_frame:
  assumes "adopted_of db = Some ad" "Impl ad \<noteq> []" "Handle w now e db = (r, db')"
  shows "adopted_of db' = Some ad \<and>
    (wparts db' = wparts db \<or>
     rc_Impl e = Impl ad \<and> cmpEpoch (epochKey (rc_Epoch e)) (epochKey (Epoch ad)) = 0 \<and>
     wp_seq (wparts db ! rc_Partition e) = Some (rc_Seq e - 1) \<and> rc_Partition e < length (wparts db) \<and>
     (\<exists>p'. wparts db' = (wparts db)[rc_Partition e := p'] \<and> wp_seq p' = Some (rc_Seq e)))"
proof (cases "handle_tx w now e db")
  case (Inl x)
  with assms show ?thesis by (auto simp: Handle_def split: wm_error.splits)
next
  case (Inr db1)
  with assms(3) have "db1 = db'" by (simp add: Handle_def)
  with handle_tx_frame [OF Inr] assms(1,2) show ?thesis
    unfolding follows_source_def adopted_of_def by force
qed

text \<open>
  C24. Positions are applied without a hole: while events are handled, in whatever order and with
  whatever failures, the contiguous position of a partition never goes back and never jumps: every
  position between the first and the last was the position of an event of the adopted instance
  and epoch that was handled.
\<close>

theorem watermark_positions_contiguous:
  assumes "adopted_of db = Some ad" "Impl ad \<noteq> []" "k < length (wparts db)" "wp_seq (wparts db ! k) = Some a"
  shows "\<exists>b. wp_seq (wparts (foldl (\<lambda>db (now, e). snd (Handle w now e db)) db es) ! k) = Some b \<and> a \<le> b \<and>
    (\<forall>q. a < q \<and> q \<le> b \<longrightarrow> (\<exists>(now, e) \<in> set es. rc_Partition e = k \<and> rc_Seq e = q \<and> rc_Impl e = Impl ad \<and>
       cmpEpoch (epochKey (rc_Epoch e)) (epochKey (Epoch ad)) = 0))"
  using assms
proof (induction es arbitrary: db a)
  case (Cons ne es)
  obtain now e where ne: "ne = (now, e)" by (cases ne)
  obtain r db1 where h: "Handle w now e db = (r, db1)" by fastforce
  note f = Handle_frame [OF Cons.prems(1,2) h]
  from f Cons.prems(3,4) have "length (wparts db1) = length (wparts db)" and
    "wp_seq (wparts db1 ! k) = Some a \<or>
     rc_Partition e = k \<and> rc_Seq e = a + 1 \<and> rc_Impl e = Impl ad \<and>
     cmpEpoch (epochKey (rc_Epoch e)) (epochKey (Epoch ad)) = 0 \<and> wp_seq (wparts db1 ! k) = Some (a + 1)"
    by (auto simp: nth_list_update split: if_splits)
  then show ?case
  proof (elim disjE)
    assume "wp_seq (wparts db1 ! k) = Some a" "length (wparts db1) = length (wparts db)"
    from Cons.IH [OF conjunct1 [OF f] Cons.prems(2) _ this(1)] this(2) Cons.prems(3) h ne show ?thesis by fastforce
  next
    assume s: "rc_Partition e = k \<and> rc_Seq e = a + 1 \<and> rc_Impl e = Impl ad \<and>
      cmpEpoch (epochKey (rc_Epoch e)) (epochKey (Epoch ad)) = 0 \<and> wp_seq (wparts db1 ! k) = Some (a + 1)"
      "length (wparts db1) = length (wparts db)"
    then have "wp_seq (wparts db1 ! k) = Some (a + 1)" by blast
    from Cons.IH [OF conjunct1 [OF f] Cons.prems(2) _ this] s(2) Cons.prems(3) obtain b where
      b: "wp_seq (wparts (foldl (\<lambda>db (now, e). snd (Handle w now e db)) db1 es) ! k) = Some b" "a + 1 \<le> b"
        "\<And>q. a + 1 < q \<Longrightarrow> q \<le> b \<Longrightarrow> (\<exists>(now, e) \<in> set es. rc_Partition e = k \<and> rc_Seq e = q \<and> rc_Impl e = Impl ad \<and>
       cmpEpoch (epochKey (rc_Epoch e)) (epochKey (Epoch ad)) = 0)" by auto
    have "\<exists>(now, e) \<in> set (ne # es). rc_Partition e = k \<and> rc_Seq e = q \<and> rc_Impl e = Impl ad \<and>
       cmpEpoch (epochKey (rc_Epoch e)) (epochKey (Epoch ad)) = 0" if "a < q" "q \<le> b" for q
    proof (cases "q = a + 1")
      case True
      with s ne show ?thesis by auto
    next
      case False
      with that b(3) [of q] show ?thesis by auto
    qed
    with b(1,2) h ne show ?thesis by auto
  qed
qed auto

section \<open>The adopted identity only moves forward\<close>

datatype ('j, 'e) wm_event =
    Handled instant "'j Received" | Paged instant "'j Received list"
  | Answered Identity "int list" "('j, 'e) part_answer list" | OperatorConfirms

definition wm_step :: "('j, 'c, 'e) Watermarked \<Rightarrow> ('j, 'c) wm_db \<Rightarrow> ('j, 'e) wm_event \<Rightarrow> ('j, 'c) wm_db" where
  "wm_step w db ev =
     (case ev of
        Handled now e \<Rightarrow> snd (Handle w now e db)
      | Paged now es \<Rightarrow> snd (page_tx w now es db)
      | Answered r requested answers \<Rightarrow>
          (case identify r requested answers db of Inl _ \<Rightarrow> db | Inr (_, db') \<Rightarrow> db')
      | OperatorConfirms \<Rightarrow>
          (case (Confirm_source db :: 'e wm_error + _) of Inl _ \<Rightarrow> db | Inr db' \<Rightarrow> db'))"

lemma apply_events_frame:
  "apply_events w now st es db = Inr db' \<Longrightarrow> follows_source st db \<Longrightarrow> length (st_parts st) = length (wparts db) \<Longrightarrow>
   \<exists>st'. follows_source st' db' \<and> st_adopted st' = st_adopted st"
proof (induction es arbitrary: st db)
  case (Cons e es)
  show ?case
  proof (cases "rc_Impl e \<noteq> Impl (st_adopted st) \<or> rc_Epoch e \<noteq> Epoch (st_adopted st)")
    case True
    with Cons.prems show ?thesis by (auto split: if_splits)
  next
    case go: False
    show ?thesis
    proof (cases "applyAt w now st e (ss_State (st_source st) \<noteq> Aligning) db")
      case (Inl x)
      with go Cons show ?thesis by (cases x) auto
    next
      case (Inr sd)
      obtain st1 db1 where sd: "sd = (st1, db1)" by (cases sd)
      from applyAt_frame [OF Inr [unfolded sd] Cons.prems(2,3)]
      have f: "follows_source st1 db1" "st_adopted st1 = st_adopted st" "length (st_parts st1) = length (wparts db1)" by auto
      from Cons.IH [OF _ f(1,3)] f(2) go Inr sd Cons.prems(1) show ?thesis by auto
    qed
  qed
qed auto

lemma page_tx_le: "adopted_le db (snd (page_tx w now es db))"
proof (cases "load db")
  case None
  then show ?thesis by (simp add: page_tx_def adopted_le_refl)
next
  case (Some st)
  show ?thesis
  proof (cases "apply_events w now st es db")
    case (Inl ex)
    with Some show ?thesis
      by (cases ex) (auto simp: page_tx_def adopted_le_refl adopted_le_def identity_le_refl split: wm_error.splits)
  next
    case (Inr db')
    from load_Some [OF Some] have "length (st_parts st) = length (wparts db)" by auto
    from apply_events_frame [OF Inr load_follows [OF Some] this] obtain st' where
      "follows_source st' db'" "st_adopted st' = st_adopted st" by blast
    with follows_le [OF load_follows [OF Some]] Some Inr show ?thesis
      by (auto simp: page_tx_def adopted_le_refl)
  qed
qed

lemma Handle_le: "adopted_le db (snd (Handle w now e db))"
proof (cases "handle_tx w now e db")
  case (Inl x)
  then show ?thesis by (auto simp: Handle_def adopted_le_def identity_le_refl split: wm_error.splits)
next
  case (Inr db')
  from handle_tx_frame [OF Inr] obtain st st' where "load db = Some st" "follows_source st' db'" "st_adopted st' = st_adopted st"
    by blast
  with follows_le [OF load_follows] Inr show ?thesis by (auto simp: Handle_def)
qed

lemma Confirm_le: "Confirm_source db = Inr db' \<Longrightarrow> adopted_le db db'"
  using adopted_saved [of db _ db] by (auto simp: Confirm_source_def identity_le_refl split: option.splits)

interpretation wm_forward: forward_machine "wm_step w" adopted_le for w :: "('j, 'c, 'e) Watermarked"
proof
  show "adopted_le db (wm_step w db ev)" for db :: "('j, 'c) wm_db" and ev
    by (cases ev) (auto simp: wm_step_def Handle_le page_tx_le adopted_le_refl
        split: sum.splits dest: identify_adopted_le Confirm_le)
qed (fact adopted_le_refl, fact adopted_le_trans)

text \<open>
  The adopted identity only moves forward: over any sequence of handled events, pulled pages,
  source answers and operator confirmations, the deployment never changes; once an instance is
  established it is never replaced, its epoch never goes back, and another database system is
  followed only with a strictly larger recovery generation.
\<close>

theorem watermark_identity_forward:
  assumes "adopted_of db = Some a"
  shows "\<exists>b. adopted_of (foldl (wm_step w) db evs) = Some b \<and> Deployment b = Deployment a \<and>
    (Impl a \<noteq> [] \<longrightarrow> Impl b = Impl a \<and> epochKey (Epoch a) \<le> epochKey (Epoch b) \<and>
       (SystemID b \<noteq> SystemID a \<longrightarrow> Generation_of (Epoch a) < Generation_of (Epoch b)))"
  using wm_forward.run_le [of db w evs] assms
  unfolding adopted_le_def identity_le_def Generation_of_def by blast

section \<open>Judgements\<close>

lemma watermark_age_marks:
  assumes "watermark_age now db = Some age" "p \<in> set (wparts db)"
  shows "\<exists>m. wp_echo_mp p = Some m \<and> real_of_int (now - m) / 1000000000 \<le> age"
proof -
  from assms(1) have none: "None \<notin> set (map wp_echo_mp (wparts db))"
    and age: "age = real_of_int (now - Min (set (map the (map wp_echo_mp (wparts db))))) / 1000000000"
    by (auto simp: watermark_age_def Let_def split: if_splits)
  from none assms(2) obtain m where m: "wp_echo_mp p = Some m" by (cases "wp_echo_mp p") force+
  with assms(2) have "m \<in> set (map the (map wp_echo_mp (wparts db)))" by force
  then have "Min (set (map the (map wp_echo_mp (wparts db)))) \<le> m" by (intro Min_le) auto
  with age m show ?thesis by (intro exI [of _ m]) (simp add: divide_right_mono)
qed

text \<open>
  C25. A judgement of usable is proven: when a read of the projection is judged usable, the source is
  aligned, the row is complete and of the adopted instance and epoch, no subject asked about is
  quarantined, and every partition has an echo no older than the freshness, so that everything the
  source committed before that is in the projection.
\<close>

theorem watermark_usable_is_fresh:
  assumes "Judge_record w now db i subjects = Some Usable"
  shows "\<exists>s r. source db = Some s \<and> s_status s = Aligned \<and> map_of (rows db) i = Some r \<and>
    p_state r = Complete \<and> deref (p_impl r) = deref (s_impl s) \<and> deref (p_epoch r) = deref (s_epoch s) \<and>
    (\<forall>q \<in> set (wquarantine db). q_subject q \<notin> set subjects) \<and> wparts db \<noteq> [] \<and>
    (\<forall>p \<in> set (wparts db). \<exists>m. wp_echo_mp p = Some m \<and> now - m \<le> w_Freshness w)"
proof -
  from assms obtain s where s: "source db = Some s"
    and j: "Judge (judge_input now False (real_of_int (w_Freshness w) / 1000000000) s db i subjects) = Usable"
    by (auto simp: Judge_record_def)
  from j obtain r age where facts: "s_status s = Aligned" "map_of (rows db) i = Some r" "p_state r = Complete"
    "deref (p_impl r) = deref (s_impl s)" "deref (p_epoch r) = deref (s_epoch s)"
    "\<forall>q \<in> set (wquarantine db). q_subject q \<notin> set subjects"
    "watermark_age now db = Some age" "age \<le> real_of_int (w_Freshness w) / 1000000000"
    by (auto simp: Judge_def judge_input_def Let_def split: if_splits option.splits)
  have "\<exists>m. wp_echo_mp p = Some m \<and> now - m \<le> w_Freshness w" if p: "p \<in> set (wparts db)" for p
  proof -
    from watermark_age_marks [OF facts(7) p] obtain m where m: "wp_echo_mp p = Some m"
      "real_of_int (now - m) / 1000000000 \<le> age" by blast
    with facts(8) have "real_of_int (now - m) \<le> real_of_int (w_Freshness w)"
      by (simp add: divide_le_eq)
    with m(1) show ?thesis by (simp only: of_int_le_iff) blast
  qed
  moreover from facts(7) have "wparts db \<noteq> []" by (auto simp: watermark_age_def)
  ultimately show ?thesis using s facts by blast
qed

section \<open>A re-fetch that cannot begin\<close>

text \<open>The loop: one step after the other, each with its nonce and whether a pull was asked for.\<close>

fun steps ::
  "nat \<Rightarrow> ('j, 'c, 'e) Watermarked \<Rightarrow> ('j, 'e) world \<Rightarrow> ('j, 'c) wm_db interference \<Rightarrow> (bool \<times> string) list \<Rightarrow>
   nat \<times> ('j, 'c) wm_db \<Rightarrow> (nat \<times> ('j, 'c) wm_db) option" where
  "steps fuel w world others [] nd = Some nd"
| "steps fuel w world others ((soon, nonce) # asked) nd =
     (case Step fuel w world others soon nonce nd of
        None \<Rightarrow> None
      | Some (_, nd') \<Rightarrow> steps fuel w world others asked nd')"

text \<open>The part of the state that decides what is due.\<close>

definition pending :: "Identity \<Rightarrow> SourceState \<Rightarrow> bool \<Rightarrow> ('j, 'c) wm_db \<Rightarrow> bool" where
  "pending ad ss refetch db \<longleftrightarrow>
     (\<exists>st. load db = Some st \<and> st_adopted st = ad \<and> st_source st = ss \<and> st_refetch st = refetch)"

lemma record_pull_fields:
  "source (record_pull now epoch nonce db) = source db"
  "ws_deployment (wsource (record_pull now epoch nonce db)) = ws_deployment (wsource db)"
  "ws_system_id (wsource (record_pull now epoch nonce db)) = ws_system_id (wsource db)"
  "ws_confirmed (wsource (record_pull now epoch nonce db)) = ws_confirmed (wsource db)"
  "ws_rollback (wsource (record_pull now epoch nonce db)) = ws_rollback (wsource db)"
  "ws_refetch (wsource (record_pull now epoch nonce db)) = ws_refetch (wsource db)"
  "ws_stalled_gen (wsource (record_pull now epoch nonce db)) = ws_stalled_gen (wsource db)"
  "ws_blocked_gen (wsource (record_pull now epoch nonce db)) = ws_blocked_gen (wsource db)"
  "ws_prior (wsource (record_pull now epoch nonce db)) = ws_prior (wsource db)"
  by (simp_all add: record_pull_def Let_def)

lemma record_pull_load:
  "pending ad ss refetch db \<Longrightarrow> pending ad ss refetch (record_pull now epoch nonce db)"
  by (cases "source db") (auto simp: pending_def load_def record_pull_fields)

lemma begin_align_load:
  assumes "pending ad ss refetch db" "begin_align (ss_State ss) (Impl ad) (Epoch ad) db = Inr (gen, db')"
  shows "pending ad ss refetch db'"
proof -
  from assms(1) obtain s where s: "source db = Some s" "Impl ad = deref (s_impl s)" "Epoch ad = deref (s_epoch s)"
    by (auto simp: pending_def load_def split: option.splits)
  define s' where "s' = \<lparr>s_impl = (if Impl ad = [] then s_impl s else Some (Impl ad)),
    s_epoch = (if Epoch ad = [] then s_epoch s else Some (Epoch ad)), s_align_gen = s_align_gen s + 1,
    s_status = ss_State ss\<rparr>"
  from assms(2) s(1) have "db' = db\<lparr>source := Some s'\<rparr>"
    by (auto simp: begin_align_def s'_def Let_def)
  moreover have "deref (s_impl s') = deref (s_impl s)" "deref (s_epoch s') = deref (s_epoch s)"
    using s by (auto simp: s'_def deref_def)
  ultimately show ?thesis using assms(1) s(1) by (auto simp: pending_def load_def s'_def)
qed

lemma Step_stuck:
  fixes w :: "('j, 'c, 'e) Watermarked" and world :: "('j, 'e) world"
  assumes "pending ad ss refetch db" "Impl ad \<noteq> []" "refetch \<or> ss_State ss = Aligning"
    and "\<not> (ss_State ss = Blocked \<and> \<not> Confirmed ss)"
    and d: "\<And>n req resp. Pull world n req = Inr resp \<Longrightarrow> DecideEpoch ad (resp_source resp) \<noteq> Use"
  shows "\<exists>e n' db'. Step fuel w world alone soon nonce (n, db) = Some (Some e, n', db') \<and> pending ad ss refetch db'"
proof -
  from assms(1) obtain st where st: "load db = Some st" "st_adopted st = ad" "st_source st = ss" "st_refetch st = refetch"
    by (auto simp: pending_def)
  with assms(2-4) have due: "what_is_due half soon st age lst = AlignNow" for half age lst
    by (auto simp: what_is_due_def)
  let ?want = "nobody\<lparr>Deployment := w_Deployment w, Impl := Impl ad, Epoch := Epoch ad\<rparr>"
  have "\<exists>gen db1. (begin_align (ss_State ss) (Impl ad) (Epoch ad) db :: 'e proj_error + _) = Inr (gen, db1)"
    by (simp add: begin_align_def Let_def)
  then obtain gen db1 where b: "(begin_align (ss_State ss) (Impl ad) (Epoch ad) db :: 'e proj_error + _) = Inr (gen, db1)"
    by blast
  note p1 = begin_align_load [OF assms(1) b]
  let ?db2 = "record_pull (clock world (Suc (Suc n))) (db_epoch world (Suc (Suc n))) nonce db1"
  have started: "\<exists>e. align_started w world alone nonce ad gen (Suc (Suc n), db1) = (Inl e, Suc (Suc (Suc n)), ?db2)"
    using d by (auto simp: align_started_def Let_def split: sum.splits)
  then obtain e where e: "align_started w world alone nonce ad gen (Suc (Suc n), db1) = (Inl e, Suc (Suc (Suc n)), ?db2)" ..
  have "align fuel w world alone nonce st (Suc n, db) = Some (Some (ErrAlign e), Suc (Suc (Suc n)), ?db2)"
    using st b e by (simp add: align_def alignTo_def BackgroundTx_def Let_def)
  then have "Step fuel w world alone soon nonce (n, db) = Some (Some (ErrAlign e), Suc (Suc (Suc n)), ?db2)"
    using st(1) due by (simp add: Step_def)
  with record_pull_load [OF p1] show ?thesis by blast
qed

text \<open>
  C26. A source that moved on while a re-fetch is due is never followed: when the consumer has to
  re-fetch (it is aligning, or a rollback or a confirmed correction asked for it) and the source
  now answers with another identity than the adopted one, in particular with a larger epoch that
  a pull would adopt, then every step of the loop tries the re-fetch, fails before it begins and
  changes neither the adopted identity nor the state, for ever, even when a pull is asked for.
\<close>

theorem watermark_step_never_adopts:
  fixes w :: "('j, 'c, 'e) Watermarked" and world :: "('j, 'e) world"
  assumes "pending ad ss refetch db" "Impl ad \<noteq> []" "refetch \<or> ss_State ss = Aligning"
    and "\<not> (ss_State ss = Blocked \<and> \<not> Confirmed ss)"
    and "\<And>n req resp. Pull world n req = Inr resp \<Longrightarrow> DecideEpoch ad (resp_source resp) = Adopt"
  shows "\<exists>n' db'. steps fuel w world alone asked (n, db) = Some (n', db') \<and> pending ad ss refetch db'"
  using assms(1)
proof (induction asked arbitrary: n db)
  case (Cons a asked)
  obtain soon nonce where a: "a = (soon, nonce)" by (cases a)
  from Step_stuck [OF Cons.prems assms(2-4), of world fuel w soon nonce n] assms(5) obtain e n1 db1 where
    "Step fuel w world alone soon nonce (n, db) = Some (Some e, n1, db1)" "pending ad ss refetch db1" by fastforce
  with Cons.IH [of db1 n1] a show ?case by simp
qed simp

section \<open>A concrete consumer\<close>

definition demo_id :: "string \<Rightarrow> Identity" where
  "demo_id epoch = \<lparr>Deployment = ''dep'', Impl = ''impl'', SystemID = ''sys'', Epoch = epoch, Primary = True, Purpose = []\<rparr>"

definition demo_stream :: Stream where
  "demo_stream = \<lparr>stream_Name = ''demo'', Partitions = 1, stream_Watermark = None, stream_Records = None\<rparr>"

definition demo_wm :: "(string, unit, unit) Watermarked" where
  "demo_wm = \<lparr>w_projection = \<lparr>Changed_hook = None, jcat = (@), jnil = ''{}''\<rparr>, w_Deployment = ''dep'',
     w_Freshness = 10 * Second, w_Stream = demo_stream, w_Input = None\<rparr>"

definition demo_wsource :: watermark_source where
  "demo_wsource = \<lparr>ws_deployment = ''dep'', ws_system_id = Some ''sys'', ws_confirmed = False, ws_rollback = False,
     ws_refetch = False, ws_stalled_gen = None, ws_blocked_gen = None, ws_prior = None, ws_max_seen = None,
     ws_db_epoch = None\<rparr>"

definition demo_wdb :: "source_status \<Rightarrow> (string, unit) wm_db" where
  "demo_wdb st = \<lparr>rows = [(''r'', \<lparr>p_state = Complete, p_version = 1, p_need = None, p_impl = Some ''impl'',
        p_epoch = Some ''1.1'', p_data = Some ''x'', p_aligned_gen = None, p_min_read = None\<rparr>)],
     source = Some \<lparr>s_impl = Some ''impl'', s_epoch = Some ''1.1'', s_align_gen = 1, s_status = st\<rparr>, comp = (),
     wsource = demo_wsource, wparts = [no_part\<lparr>wp_seq := Some 4, wp_echo_mp := Some 0\<rparr>], wpulls = [],
     wfailures = [], wquarantine = []\<rparr>"

definition demo_world :: "string \<Rightarrow> (string, unit) world" where
  "demo_world epoch = \<lparr>Pull = (\<lambda>_ _. Inr \<lparr>resp_source = demo_id epoch, resp_parts = [], resp_next = []\<rparr>),
     reads = \<lparr>Snapshot = (\<lambda>_ _. Inl ()), Read = (\<lambda>_ _. Inl ())\<rparr>, clock = int, db_epoch = (\<lambda>_. ''1.1'')\<rparr>"

definition demo_received :: "int \<Rightarrow> string Received" where
  "demo_received s = \<lparr>rc_Echo = False, rc_RecordID = ''r'', rc_Version = s, rc_Projection = FullEvent, rc_Partition = 0,
     rc_Seq = s, rc_Epoch = ''1.1'', rc_Impl = ''impl'', rc_Data = Some ''y'', rc_Subjects = [], rc_Digest = []\<rparr>"

lemma demo_adopted: "adopted_of (demo_wdb st) = Some (demo_id ''1.1''\<lparr>Primary := False\<rparr>)"
  by (simp add: adopted_of_def load_def demo_wdb_def demo_wsource_def demo_id_def deref_def)

lemma demo_larger: "DecideEpoch (demo_id ''1.1''\<lparr>Primary := False\<rparr>) (demo_id ''2.1'') = Adopt"
proof -
  have "Epoch_String \<lparr>Generation = 1, Timeline = 1\<rparr> = ''1.1''" "Epoch_String \<lparr>Generation = 2, Timeline = 1\<rparr> = ''2.1''"
    by code_simp+
  then have "epochKey ''1.1'' = (1, 1)" "epochKey ''2.1'' = (2, 1)"
    using epochKey_String [of "\<lparr>Generation = 1, Timeline = 1\<rparr>"] epochKey_String [of "\<lparr>Generation = 2, Timeline = 1\<rparr>"]
    by (simp_all add: epoch_ok_def)
  then show ?thesis by (simp add: DecideEpoch_def demo_id_def Let_def cmpEpoch_def)
qed

theorem watermark_step_never_adopts_witness:
  "\<exists>n' db'. steps 3 demo_wm (demo_world ''2.1'') alone [(True, ''n1''), (True, ''n2'')] (0, demo_wdb Aligning) = Some (n', db') \<and>
     adopted_of db' = adopted_of (demo_wdb Aligning)"
proof -
  obtain st where st: "load (demo_wdb Aligning) = Some st" by (simp add: load_def demo_wdb_def)
  then have ad: "st_adopted st = demo_id ''1.1''\<lparr>Primary := False\<rparr>"
    using demo_adopted [of Aligning] by (simp add: adopted_of_def)
  from st have al: "ss_State (st_source st) = Aligning" by (auto simp: load_def demo_wdb_def)
  have p: "pending (st_adopted st) (st_source st) (st_refetch st) (demo_wdb Aligning)"
    using st by (simp add: pending_def)
  have d: "\<And>n req resp. Pull (demo_world ''2.1'') n req = Inr resp \<Longrightarrow> DecideEpoch (st_adopted st) (resp_source resp) = Adopt"
    using demo_larger by (auto simp: demo_world_def ad)
  have i: "Impl (st_adopted st) \<noteq> []" by (simp add: ad demo_id_def)
  have r: "st_refetch st \<or> ss_State (st_source st) = Aligning"
    "\<not> (ss_State (st_source st) = Blocked \<and> \<not> Confirmed (st_source st))" using al by simp_all
  have "\<exists>n' db'. steps 3 demo_wm (demo_world ''2.1'') alone [(True, ''n1''), (True, ''n2'')] (0, demo_wdb Aligning) =
      Some (n', db') \<and> pending (st_adopted st) (st_source st) (st_refetch st) db'"
    by (rule watermark_step_never_adopts [OF p i r]) (rule d)
  with st show ?thesis by (auto simp: pending_def adopted_of_def simp del: steps.simps)
qed

theorem watermark_identity_forward_witness:
  "\<exists>b. adopted_of (foldl (wm_step demo_wm) (demo_wdb Aligned) [Answered (demo_id ''2.1'') [4] [], OperatorConfirms]) = Some b \<and>
     Impl b = ''impl''"
  using watermark_identity_forward [OF demo_adopted, of demo_wm Aligned "[Answered (demo_id ''2.1'') [4] [], OperatorConfirms]"]
  by (auto simp: demo_id_def)

theorem watermark_positions_contiguous_witness:
  "\<exists>b. wp_seq (wparts (foldl (\<lambda>db (now, e). snd (Handle demo_wm now e db)) (demo_wdb Aligned)
       [(1, demo_received 5), (2, demo_received 7), (3, demo_received 6)]) ! 0) = Some b \<and> 4 \<le> b"
  using watermark_positions_contiguous [OF demo_adopted, of 0 Aligned 4 demo_wm
      "[(1, demo_received 5), (2, demo_received 7), (3, demo_received 6)]"]
  by (auto simp: demo_id_def demo_wdb_def no_part_def)

theorem watermark_usable_is_fresh_witness:
  "Judge_record demo_wm (3 * Second) (demo_wdb Aligned) ''r'' [''p''] = Some Usable \<and>
   list_all (\<lambda>p. \<exists>m. wp_echo_mp p = Some m \<and> 3 * Second - m \<le> 10 * Second) (wparts (demo_wdb Aligned))"
proof -
  have j: "Judge_record demo_wm (3 * Second) (demo_wdb Aligned) ''r'' [''p''] = Some Usable"
    by (simp add: Judge_record_def judge_input_def Judge_def demo_wm_def demo_wdb_def watermark_age_def no_part_def Let_def)
  from watermark_usable_is_fresh [OF j] j show ?thesis by (auto simp: demo_wm_def list_all_iff)
qed

end
