(* ===== verification/Calls.thy ===== *)
theory Calls
  imports Errs
begin

text \<open>
  Outgoing calls (package \<open>calls\<close>): the retry policy and budget (\<open>calls/policy.go\<close>), the circuit
  breaker (\<open>calls/breaker.go\<close>), how an attempt counts and what is answered upward
  (\<open>calls/outcome.go\<close>), and the call itself (\<open>Dependency.do\<close> of \<open>calls/dependency.go\<close>). A call runs
  beside others on the same dependency: before each of its own locked steps the shared state
  (concurrency limit, breaker, budget) may have been changed by them, which the parameter \<open>others\<close>
  says. What each attempt returns, the readings of the clocks, the random part of a backoff and
  whether a sleep was interrupted are parameters too. Metrics leave no trace in the answer and are
  left out.
\<close>

section \<open>Policy\<close>

abbreviation (input) MaxAttemptTimeout :: duration where "MaxAttemptTimeout \<equiv> 3000 * Millisecond"
abbreviation (input) DeadlineReserve :: duration where "DeadlineReserve \<equiv> 50 * Millisecond"
abbreviation (input) MaxAttempts :: nat where "MaxAttempts \<equiv> 3"
abbreviation (input) BackoffBase :: duration where "BackoffBase \<equiv> 100 * Millisecond"
abbreviation (input) BackoffCap :: duration where "BackoffCap \<equiv> 1000 * Millisecond"
abbreviation (input) OutboundLimit :: nat where "OutboundLimit \<equiv> 64"
abbreviation (input) BreakerWindow :: nat where "BreakerWindow \<equiv> 20"
abbreviation (input) BreakerOpenFirst :: duration where "BreakerOpenFirst \<equiv> 5 * Second"
abbreviation (input) BreakerOpenMax :: duration where "BreakerOpenMax \<equiv> 30 * Second"
abbreviation (input) BreakerTrialsToClose :: nat where "BreakerTrialsToClose \<equiv> 3"

definition AttemptTimeout :: "duration \<Rightarrow> bool \<Rightarrow> duration option" where
  "AttemptTimeout remaining hasDeadline =
     (if \<not> hasDeadline \<or> remaining < DeadlineReserve then None
      else Some (min MaxAttemptTimeout (remaining - DeadlineReserve)))"

datatype retry_outcome = OutcomeUnavailable | OutcomeConnectFailed | OutcomeNone

definition ShouldRetry :: "bool \<Rightarrow> retry_outcome \<Rightarrow> nat \<Rightarrow> bool \<Rightarrow> duration \<Rightarrow> bool \<Rightarrow> bool" where
  "ShouldRetry idempotent out attemptsMade budgetAllows afterBackoff hasDeadline =
     (if \<not> idempotent \<or> (out \<noteq> OutcomeUnavailable \<and> out \<noteq> OutcomeConnectFailed) then False
      else if attemptsMade \<ge> MaxAttempts \<or> \<not> budgetAllows then False
      else AttemptTimeout afterBackoff hasDeadline \<noteq> None)"

definition MaxBackoff :: "int \<Rightarrow> duration" where
  "MaxBackoff failed =
     (if failed < 1 then 0
      else if failed > 4 then BackoffCap
      else min BackoffCap (push_bit (nat (failed - 1)) BackoffBase))"

datatype budget_outcome = BudgetSuccess | BudgetUnavailable | BudgetOther

abbreviation (input) budgetMax :: int where "budgetMax \<equiv> 10000"
abbreviation (input) budgetSuccess :: int where "budgetSuccess \<equiv> 100"
abbreviation (input) budgetFailure :: int where "budgetFailure \<equiv> 1000"
abbreviation (input) budgetThreshold :: int where "budgetThreshold \<equiv> 5000"

definition NewBudget :: int where
  "NewBudget = budgetMax"

definition Budget_Record :: "budget_outcome \<Rightarrow> int \<Rightarrow> int" where
  "Budget_Record out tokens =
     (case out of
        BudgetSuccess \<Rightarrow> min budgetMax (tokens + budgetSuccess)
      | BudgetUnavailable \<Rightarrow> max 0 (tokens - budgetFailure)
      | BudgetOther \<Rightarrow> tokens)"

definition AllowsRetry :: "int \<Rightarrow> bool" where
  "AllowsRetry tokens \<longleftrightarrow> tokens > budgetThreshold"

section \<open>Circuit breaker\<close>

datatype breaker_state = Closed | Open | HalfOpen

datatype breaker_outcome = BreakerSuccess | BreakerFailure | BreakerIgnored

type_synonym permit = "64 word"

text \<open>A permit is its number; number 0 in the trial slot means that the slot is free.\<close>

record Breaker =
  br_state :: breaker_state
  window :: "bool list"
  openedAt :: instant
  openFor :: duration
  trial :: permit
  trialOK :: nat
  br_next :: permit

abbreviation (input) zeroTime :: instant where "zeroTime \<equiv> -62135596800 * Second"

definition NewBreaker :: Breaker where
  "NewBreaker = \<lparr>br_state = Closed, window = [], openedAt = zeroTime, openFor = BreakerOpenFirst, trial = 0,
     trialOK = 0, br_next = 0\<rparr>"

definition Start :: "instant \<Rightarrow> Breaker \<Rightarrow> permit option \<times> Breaker" where
  "Start now b =
     (let b = b\<lparr>br_next := br_next b + 1\<rparr>; p = br_next b
      in if br_state b = Open \<and> time_Sub now (openedAt b) < openFor b then (None, b)
         else
           (let b = (if br_state b = Open then b\<lparr>br_state := HalfOpen, trial := 0, trialOK := 0\<rparr> else b)
            in if br_state b = HalfOpen
               then if trial b \<noteq> 0 then (None, b) else (Some p, b\<lparr>trial := p\<rparr>)
               else (Some p, b)))"

definition last_window :: "bool list \<Rightarrow> bool list" where
  "last_window w = (if length w > BreakerWindow then drop (length w - BreakerWindow) w else w)"

definition End :: "permit \<Rightarrow> instant \<Rightarrow> breaker_outcome \<Rightarrow> Breaker \<Rightarrow> Breaker" where
  "End p now out b =
     (case br_state b of
        HalfOpen \<Rightarrow>
          if trial b \<noteq> p then b
          else
            (let b = b\<lparr>trial := 0\<rparr>
             in case out of
                  BreakerFailure \<Rightarrow>
                    b\<lparr>br_state := Open, openedAt := now, trialOK := 0, openFor := min (2 * openFor b) BreakerOpenMax\<rparr>
                | BreakerSuccess \<Rightarrow>
                    (let b = b\<lparr>trialOK := trialOK b + 1\<rparr>
                     in if trialOK b \<ge> BreakerTrialsToClose
                        then b\<lparr>br_state := Closed, window := [], openFor := BreakerOpenFirst\<rparr> else b)
                | BreakerIgnored \<Rightarrow> b)
      | Closed \<Rightarrow>
          if out = BreakerIgnored then b
          else
            (let w = last_window (window b @ [out = BreakerFailure]);
                 failures = length (filter (\<lambda>f. f) w)
             in if length w = BreakerWindow \<and> failures * 2 > BreakerWindow
                then b\<lparr>br_state := Open, openedAt := now, window := []\<rparr>
                else b\<lparr>window := w\<rparr>)
      | Open \<Rightarrow> b)"

section \<open>How an attempt counts\<close>

record Result =
  r_Err :: "go_error option"
  r_Code :: Code
  r_Remote :: "Error option"
  r_ConnectFailed :: bool

text \<open>The class of no attempt is Go's empty string.\<close>

datatype Class =
    ClassSuccess | ClassUnavailable | ClassConnectFailed | ClassDeadline | ClassRelayed | ClassOther
  | ClassCancelled | NoClass

definition relayed :: "string \<Rightarrow> bool" where
  "relayed reason \<longleftrightarrow>
     reason \<in> {ReasonDependencyUnavailable, ReasonCircuitOpen, ReasonDeadlineBudgetExhausted, ReasonResultUnknown}"

definition Classify :: "Result \<Rightarrow> bool \<Rightarrow> Class" where
  "Classify r callerCancelled =
     (if callerCancelled \<and> r_Err r \<noteq> None then ClassCancelled
      else if r_ConnectFailed r then ClassConnectFailed
      else if r_Err r = None then ClassSuccess
      else if (case r_Remote r of None \<Rightarrow> False | Some e \<Rightarrow> Domain e = PlatformDomain \<and> relayed (Reason e))
      then ClassRelayed
      else if r_Code r = Unavailable then ClassUnavailable
      else if r_Code r = DeadlineExceeded then ClassDeadline
      else ClassOther)"

definition BreakerOutcome :: "Class \<Rightarrow> breaker_outcome" where
  "BreakerOutcome c =
     (case c of
        ClassSuccess \<Rightarrow> BreakerSuccess
      | ClassUnavailable \<Rightarrow> BreakerFailure | ClassConnectFailed \<Rightarrow> BreakerFailure | ClassDeadline \<Rightarrow> BreakerFailure
      | _ \<Rightarrow> BreakerIgnored)"

definition BudgetOutcome :: "Class \<Rightarrow> budget_outcome" where
  "BudgetOutcome c =
     (case c of
        ClassSuccess \<Rightarrow> BudgetSuccess
      | ClassUnavailable \<Rightarrow> BudgetUnavailable | ClassConnectFailed \<Rightarrow> BudgetUnavailable
      | _ \<Rightarrow> BudgetOther)"

definition RetryOutcome :: "Class \<Rightarrow> retry_outcome" where
  "RetryOutcome c =
     (case c of
        ClassUnavailable \<Rightarrow> OutcomeUnavailable
      | ClassConnectFailed \<Rightarrow> OutcomeConnectFailed
      | _ \<Rightarrow> OutcomeNone)"

definition Upward :: "Class \<Rightarrow> Result \<Rightarrow> bool \<Rightarrow> string \<Rightarrow> go_error option" where
  "Upward c r idempotent dependency =
     (if c = ClassSuccess then None
      else if c = ClassUnavailable \<or> c = ClassConnectFailed then
        (let e = Wrap (r_Err r) (With ''dependency'' dependency
                   (New ReasonDependencyUnavailable ''a dependency is unavailable''))
         in Some (Proto (case r_Remote r of
              Some m \<Rightarrow> if RetryAfter m > 0 then WithRetryAfter (RetryAfter m) e else e
            | None \<Rightarrow> e)))
      else if c = ClassDeadline then
        Some (Proto (Wrap (r_Err r) (With ''dependency'' dependency
          (if idempotent then New ReasonDeadlineExceeded ''a dependency did not answer in time''
           else New ReasonResultUnknown ''a dependency did not answer in time; query the result before repeating''))))
      else if c = ClassCancelled then
        Some (Proto (Wrap (r_Err r) (New ReasonRequestCancelled ''the request was cancelled'')))
      else case r_Remote r of
             Some m \<Rightarrow> Some (Proto m)
           | None \<Rightarrow>
               if r_Err r = None then Some (OtherError ''calls: an attempt failed without an error'')
               else map_option Proto (From (r_Err r)))"

section \<open>A call\<close>

text \<open>The state a dependency's calls share: the calls in progress, the breaker and the budget.\<close>

record dep =
  in_use :: nat
  breaker :: Breaker
  budget :: int

definition new_dep :: dep where
  "new_dep = \<lparr>in_use = 0, breaker = NewBreaker, budget = NewBudget\<rparr>"

text \<open>The steps of a call before which others may have changed that state.\<close>

datatype point = AtLimit | AtStart nat | AtEnd nat | AtRecord nat | AtAllows nat | AtRelease

text \<open>
  One call: its arguments, and what it meets, by the number of the attempt: the time on the
  process clock before the attempt and after it, the times on the breaker's clock, what the
  attempt returns when it is given a timeout, whether the caller's context is then cancelled, the
  backoff drawn and the error of the sleep.
\<close>

record call =
  c_ID :: string
  c_InTx :: bool
  c_idempotent :: bool
  c_viaBreaker :: bool
  c_deadline :: "instant option"
  c_before :: "nat \<Rightarrow> instant"
  c_after :: "nat \<Rightarrow> instant"
  c_start :: "nat \<Rightarrow> instant"
  c_end :: "nat \<Rightarrow> instant"
  c_attempt :: "nat \<Rightarrow> duration \<Rightarrow> Result"
  c_cancelled :: "nat \<Rightarrow> bool"
  c_backoff :: "nat \<Rightarrow> duration"
  c_sleep :: "nat \<Rightarrow> duration \<Rightarrow> go_error option"

definition remainingOf :: "instant option \<Rightarrow> instant \<Rightarrow> duration \<times> bool" where
  "remainingOf deadline now = (case deadline of None \<Rightarrow> (0, False) | Some dl \<Rightarrow> (time_Sub dl now, True))"

text \<open>What was sent: the time, the timeout given and how the attempt counted.\<close>

record sent =
  s_at :: instant
  s_timeout :: duration
  s_class :: Class

definition admit :: "call \<Rightarrow> nat \<Rightarrow> (point \<Rightarrow> dep \<Rightarrow> dep) \<Rightarrow> dep \<Rightarrow> (permit option \<times> dep)" where
  "admit c n others d =
     (if c_viaBreaker c
      then (let d = others (AtStart n) d
            in case Start (c_start c n) (breaker d) of (p, b) \<Rightarrow> (p, d\<lparr>breaker := b\<rparr>))
      else (Some 0, d))"

definition count :: "call \<Rightarrow> nat \<Rightarrow> (point \<Rightarrow> dep \<Rightarrow> dep) \<Rightarrow> permit \<Rightarrow> Class \<Rightarrow> dep \<Rightarrow> dep" where
  "count c n others p cl d =
     (let d = (if c_viaBreaker c
               then (let d = others (AtEnd n) d
                     in d\<lparr>breaker := End p (c_end c n) (BreakerOutcome cl) (breaker d)\<rparr>)
               else d);
          d = others (AtRecord n) d
      in d\<lparr>budget := Budget_Record (BudgetOutcome cl) (budget d)\<rparr>)"

text \<open>The loop ends because an attempt is repeated only below the largest number of attempts.\<close>

function do_loop ::
  "call \<Rightarrow> (point \<Rightarrow> dep \<Rightarrow> dep) \<Rightarrow> nat \<Rightarrow> Result \<Rightarrow> Class \<Rightarrow> sent list \<Rightarrow> dep \<Rightarrow> go_error option \<times> sent list \<times> dep" where
  "do_loop c others n lst lastClass sents d =
     (let (remaining, hasDeadline) = remainingOf (c_deadline c) (c_before c n)
      in case AttemptTimeout remaining hasDeadline of
           None \<Rightarrow>
             (if n > 1 then Upward lastClass lst (c_idempotent c) (c_ID c)
              else Some (Proto (With ''dependency'' (c_ID c)
                     (New ReasonDeadlineBudgetExhausted ''not enough time was left to call a dependency''))),
              sents, d)
         | Some timeout \<Rightarrow>
             (case admit c n others d of
                (None, d) \<Rightarrow>
                  (if n > 1 then Upward lastClass lst (c_idempotent c) (c_ID c)
                   else Some (Proto (WithRetryAfter Second (With ''dependency'' (c_ID c)
                          (New ReasonCircuitOpen ''a dependency is failing; calls to it are paused'')))),
                   sents, d)
              | (Some p, d) \<Rightarrow>
                  (let r = c_attempt c n timeout;
                       cl = Classify r (c_cancelled c n);
                       d = count c n others p cl d;
                       sents = sents @ [\<lparr>s_at = c_before c n, s_timeout = timeout, s_class = cl\<rparr>]
                   in if cl = ClassSuccess then (None, sents, d)
                      else
                        (let (left, hasDeadline) = remainingOf (c_deadline c) (c_after c n);
                             d = others (AtAllows n) d
                         in if \<not> ShouldRetry (c_idempotent c) (RetryOutcome cl) n (AllowsRetry (budget d))
                                    (wrap64 (left - c_backoff c n)) hasDeadline
                            then (Upward cl r (c_idempotent c) (c_ID c), sents, d)
                            else case c_sleep c n (c_backoff c n) of
                                   Some e \<Rightarrow>
                                     (Upward ClassCancelled \<lparr>r_Err = Some e, r_Code = OtherCode [], r_Remote = None,
                                        r_ConnectFailed = False\<rparr> (c_idempotent c) (c_ID c), sents, d)
                                 | None \<Rightarrow> do_loop c others (Suc n) r cl sents d))))"
  by pat_completeness auto

termination
  by (relation "measure (\<lambda>(c, others, n, lst, lastClass, sents, d). MaxAttempts - n)")
     (auto simp: ShouldRetry_def split: if_splits)

declare do_loop.simps [simp del]

definition do_call :: "call \<Rightarrow> (point \<Rightarrow> dep \<Rightarrow> dep) \<Rightarrow> dep \<Rightarrow> go_error option \<times> sent list \<times> dep" where
  "do_call c others d =
     (if c_InTx c
      then (Some (Proto (Wrap (Some (OtherError ''NETWORK_IN_TX: an outbound call inside a database transaction''))
              (New ReasonInternal []))), [], d)
      else
        (let d = others AtLimit d
         in if in_use d < OutboundLimit
            then (case do_loop c others 1 \<lparr>r_Err = None, r_Code = OtherCode [], r_Remote = None, r_ConnectFailed = False\<rparr>
                         NoClass [] (d\<lparr>in_use := in_use d + 1\<rparr>) of
                    (err, sents, d) \<Rightarrow> let d = others AtRelease d in (err, sents, d\<lparr>in_use := in_use d - 1\<rparr>))
            else (Some (Proto (WithRetryAfter Second (With ''dependency'' (c_ID c)
                    (New ReasonOutboundLimit ''too many calls to a dependency are in progress'')))), [], d)))"

end
