(* ===== verification/Calls_Correct.thy ===== *)
theory Calls_Correct
  imports Calls
begin

text \<open>
  Correctness of outgoing calls: how many attempts are made and how long each may take, what is
  answered, and how the breaker opens and closes, whatever other calls do in between.
\<close>

section \<open>Backoff and budget\<close>

interpretation call_backoff: capped_doubling MaxBackoff BackoffBase BackoffCap
proof
  fix n :: int
  assume "1 \<le> n"
  show "MaxBackoff n = min BackoffCap (BackoffBase * 2 ^ nat (n - 1))"
  proof (cases "n > 4")
    case True
    then have "(2::int) ^ 4 \<le> 2 ^ nat (n - 1)" by (intro power_increasing) auto
    with True show ?thesis by (simp add: MaxBackoff_def)
  next
    case False
    with \<open>1 \<le> n\<close> show ?thesis by (simp add: MaxBackoff_def push_bit_eq_mult)
  qed
qed simp_all

definition budget_ok :: "int \<Rightarrow> bool" where
  "budget_ok tokens \<longleftrightarrow> 0 \<le> tokens \<and> tokens \<le> budgetMax"

interpretation call_budget: invariant_machine "\<lambda>tokens out. Budget_Record out tokens" budget_ok
  by unfold_locales (auto simp: budget_ok_def Budget_Record_def split: budget_outcome.splits)

section \<open>One call\<close>

lemma From_some: "From (Some e) \<noteq> None"
  by (simp add: From_def)

lemma Upward_None: "Upward c r i dependency = None \<longleftrightarrow> c = ClassSuccess"
  using From_some by (auto simp: Upward_def Let_def split: option.splits)

lemma Upward_Some: "(\<exists>e. Upward c r i dependency = Some e) \<longleftrightarrow> c \<noteq> ClassSuccess"
  using Upward_None [of c r i dependency] by auto

definition worth_retrying :: "Class \<Rightarrow> bool" where
  "worth_retrying cl \<longleftrightarrow> cl = ClassUnavailable \<or> cl = ClassConnectFailed"

lemma ShouldRetry_needs:
  "ShouldRetry i (RetryOutcome cl) n allows left hasDeadline \<Longrightarrow> i \<and> worth_retrying cl \<and> n < MaxAttempts \<and> allows"
  by (auto simp: ShouldRetry_def RetryOutcome_def worth_retrying_def split: if_splits Class.splits)

definition sent_ok :: "call \<Rightarrow> sent \<Rightarrow> bool" where
  "sent_ok c s \<longleftrightarrow> 0 \<le> s_timeout s \<and> s_timeout s \<le> MaxAttemptTimeout \<and>
     (\<exists>dl. c_deadline c = Some dl \<and> s_at s + s_timeout s + DeadlineReserve \<le> dl)"

lemma sent_ok_timeout:
  assumes "remainingOf (c_deadline c) now = (remaining, hasDeadline)" "AttemptTimeout remaining hasDeadline = Some timeout"
  shows "sent_ok c \<lparr>s_at = now, s_timeout = timeout, s_class = cl\<rparr>"
  using assms
  by (auto simp: sent_ok_def remainingOf_def AttemptTimeout_def time_Sub_def maxDuration_def minDuration_def
      split: if_splits option.splits)

lemma do_loop_cases:
  assumes "do_loop c others n lst lc sents d = (err, sents', d')"
  shows "(sents' = sents \<and> (if n > 1 then err = Upward lc lst (c_idempotent c) (c_ID c) else err \<noteq> None)) \<or>
    (\<exists>s r. sent_ok c s \<and>
       (sents' = sents @ [s] \<and> (err = None \<longleftrightarrow> s_class s = ClassSuccess) \<and>
          (\<not> c_idempotent c \<longrightarrow> err = Upward (s_class s) r False (c_ID c)) \<or>
        (\<exists>d1. worth_retrying (s_class s) \<and> c_idempotent c \<and> n < MaxAttempts \<and>
           do_loop c others (Suc n) r (s_class s) (sents @ [s]) d1 = (err, sents', d'))))"
proof -
  obtain remaining hasDeadline where rem: "remainingOf (c_deadline c) (c_before c n) = (remaining, hasDeadline)" by fastforce
  obtain left hasDeadline' where left: "remainingOf (c_deadline c) (c_after c n) = (left, hasDeadline')" by fastforce
  show ?thesis
  proof (cases "AttemptTimeout remaining hasDeadline")
    case None
    with assms rem show ?thesis by (subst (asm) do_loop.simps) auto
  next
    case (Some timeout)
    obtain p d1 where adm: "admit c n others d = (p, d1)" by fastforce
    show ?thesis
    proof (cases p)
      case None
      with assms rem Some adm show ?thesis by (subst (asm) do_loop.simps) auto
    next
      case (Some q)
      let ?r = "c_attempt c n timeout"
      let ?cl = "Classify ?r (c_cancelled c n)"
      let ?s = "\<lparr>s_at = c_before c n, s_timeout = timeout, s_class = ?cl\<rparr>"
      let ?d = "others (AtAllows n) (count c n others q ?cl d1)"
      let ?again = "ShouldRetry (c_idempotent c) (RetryOutcome ?cl) n (AllowsRetry (budget ?d)) (wrap64 (left - c_backoff c n)) hasDeadline'"
      have ok: "sent_ok c ?s" using rem \<open>AttemptTimeout remaining hasDeadline = Some timeout\<close> by (rule sent_ok_timeout)
      have step: "do_loop c others n lst lc sents d =
        (if ?cl = ClassSuccess then (None, sents @ [?s], count c n others q ?cl d1)
         else if \<not> ?again then (Upward ?cl ?r (c_idempotent c) (c_ID c), sents @ [?s], ?d)
         else case c_sleep c n (c_backoff c n) of
           Some e \<Rightarrow> (Upward ClassCancelled \<lparr>r_Err = Some e, r_Code = OtherCode [], r_Remote = None, r_ConnectFailed = False\<rparr>
                (c_idempotent c) (c_ID c), sents @ [?s], ?d)
         | None \<Rightarrow> do_loop c others (Suc n) ?r ?cl (sents @ [?s]) ?d)"
        using rem left adm Some \<open>AttemptTimeout remaining hasDeadline = Some timeout\<close>
        by (subst do_loop.simps) (simp add: Let_def)
      consider "?cl = ClassSuccess" | "?cl \<noteq> ClassSuccess" "\<not> ?again"
        | e where "?cl \<noteq> ClassSuccess" ?again "c_sleep c n (c_backoff c n) = Some e"
        | "?cl \<noteq> ClassSuccess" ?again "c_sleep c n (c_backoff c n) = None" by fastforce
      then have "sents' = sents @ [?s] \<and> (err = None \<longleftrightarrow> ?cl = ClassSuccess) \<and> (\<not> c_idempotent c \<longrightarrow> err = Upward ?cl ?r False (c_ID c)) \<or>
          worth_retrying ?cl \<and> c_idempotent c \<and> n < MaxAttempts \<and> do_loop c others (Suc n) ?r ?cl (sents @ [?s]) ?d = (err, sents', d')"
      proof cases
        case 1
        with assms step show ?thesis by (auto simp: Upward_def)
      next
        case 2
        with assms step have "err = Upward ?cl ?r (c_idempotent c) (c_ID c)" "sents' = sents @ [?s]" by simp_all
        with 2(1) show ?thesis by (simp add: Upward_None)
      next
        case 3
        with assms step have "err = Upward ClassCancelled \<lparr>r_Err = Some e, r_Code = OtherCode [], r_Remote = None,
            r_ConnectFailed = False\<rparr> (c_idempotent c) (c_ID c)" "sents' = sents @ [?s]" by simp_all
        with 3(1) ShouldRetry_needs [OF 3(2)] show ?thesis by (simp add: Upward_None)
      next
        case 4
        with assms step ShouldRetry_needs [OF 4(2)] show ?thesis by simp
      qed
      with ok show ?thesis by (metis sent.select_convs(3))
    qed
  qed
qed

lemma do_loop_sent:
  assumes "do_loop c others n lst lc sents d = (err, sents', d')" "lc \<noteq> ClassSuccess" "n \<le> MaxAttempts"
  shows "\<exists>new. sents' = sents @ new \<and> length new + n \<le> Suc MaxAttempts \<and> (\<not> c_idempotent c \<longrightarrow> length new \<le> 1) \<and>
    list_all (sent_ok c) new \<and> list_all (\<lambda>s. worth_retrying (s_class s)) (butlast new) \<and>
    (err = None \<longleftrightarrow> new \<noteq> [] \<and> s_class (last new) = ClassSuccess) \<and>
    (\<not> c_idempotent c \<and> new \<noteq> [] \<longrightarrow> (\<exists>r. err = Upward (s_class (last new)) r False (c_ID c)))"
  using assms
proof (induction "MaxAttempts - n" arbitrary: n lst lc sents d)
  case 0
  then have "n = MaxAttempts" by simp
  with do_loop_cases [OF 0(2)] 0(3) show ?case
    by (elim disjE exE conjE) (auto simp: Upward_Some split: if_splits)
next
  case (Suc k)
  from do_loop_cases [OF Suc.prems(1)] show ?case
  proof (elim disjE exE conjE)
    assume "sents' = sents" "if n > 1 then err = Upward lc lst (c_idempotent c) (c_ID c) else err \<noteq> None"
    with Suc.prems show ?thesis by (auto simp: Upward_Some split: if_splits)
  next
    fix s r
    assume "sent_ok c s" "sents' = sents @ [s]" "err = None \<longleftrightarrow> s_class s = ClassSuccess"
      "\<not> c_idempotent c \<longrightarrow> err = Upward (s_class s) r False (c_ID c)"
    with Suc.prems show ?thesis by (intro exI [of _ "[s]"]) auto
  next
    fix s r d1
    assume s: "sent_ok c s" "worth_retrying (s_class s)" "c_idempotent c" "n < MaxAttempts"
      and again: "do_loop c others (Suc n) r (s_class s) (sents @ [s]) d1 = (err, sents', d')"
    from s(2) have ns: "s_class s \<noteq> ClassSuccess" by (auto simp: worth_retrying_def)
    have k: "k = MaxAttempts - Suc n" "Suc n \<le> MaxAttempts" using Suc.hyps(2) s(4) by simp_all
    from Suc.hyps(1) [OF k(1) again ns k(2)] obtain new where
      new: "sents' = (sents @ [s]) @ new" "length new + Suc n \<le> Suc MaxAttempts" "list_all (sent_ok c) new"
        "list_all (\<lambda>s. worth_retrying (s_class s)) (butlast new)" "err = None \<longleftrightarrow> new \<noteq> [] \<and> s_class (last new) = ClassSuccess"
      by blast
    with s ns show ?thesis by (intro exI [of _ "s # new"]) auto
  qed
qed

lemma do_call_sent:
  assumes "do_call c others d = (err, sents, d')"
  shows "length sents \<le> MaxAttempts \<and> (\<not> c_idempotent c \<longrightarrow> length sents \<le> 1) \<and>
    list_all (sent_ok c) sents \<and> list_all (\<lambda>s. worth_retrying (s_class s)) (butlast sents) \<and>
    (err = None \<longleftrightarrow> sents \<noteq> [] \<and> s_class (last sents) = ClassSuccess) \<and>
    (\<not> c_idempotent c \<and> sents \<noteq> [] \<longrightarrow> (\<exists>r. err = Upward (s_class (last sents)) r False (c_ID c)))"
proof (cases "\<not> c_InTx c \<and> in_use (others AtLimit d) < OutboundLimit")
  case True
  let ?lst = "\<lparr>r_Err = None, r_Code = OtherCode [], r_Remote = None, r_ConnectFailed = False\<rparr>"
  obtain e s d1 where run: "do_loop c others 1 ?lst NoClass [] ((others AtLimit d)\<lparr>in_use := in_use (others AtLimit d) + 1\<rparr>) = (e, s, d1)"
    by (metis prod_cases3)
  with True assms have "err = e" "sents = s" by (auto simp: do_call_def Let_def)
  with do_loop_sent [OF run] show ?thesis by auto
next
  case False
  with assms show ?thesis by (auto simp: do_call_def Let_def split: if_splits)
qed

text \<open>
  C29. A call is bounded: whatever the attempts return, whatever other calls do to the shared state and
  whatever the clocks read, the call returns after at most three attempts, after at most one when
  it is not idempotent; each attempt is given at most three seconds and must end at least fifty
  milliseconds before the caller's deadline, so nothing is sent without a deadline.
\<close>

theorem calls_bounded:
  assumes "do_call c others d = (err, sents, d')"
  shows "length sents \<le> 3 \<and> (\<not> c_idempotent c \<longrightarrow> length sents \<le> 1) \<and>
    (\<forall>s \<in> set sents. 0 \<le> s_timeout s \<and> s_timeout s \<le> 3000 * Millisecond \<and>
       (\<exists>dl. c_deadline c = Some dl \<and> s_at s + s_timeout s + 50 * Millisecond \<le> dl))"
  using do_call_sent [OF assms] by (auto simp: list_all_iff sent_ok_def)

text \<open>
  C30. The answer is that of the last attempt: a call succeeds exactly when its last attempt did, every
  attempt before it failed because the dependency was unavailable or could not be reached, and a
  call that may not be repeated and whose attempt ran out of time is answered with an unknown
  result, never with a failure the caller could take for nothing done.
\<close>

theorem calls_answer:
  assumes "do_call c others d = (err, sents, d')"
  shows "(err = None \<longleftrightarrow> sents \<noteq> [] \<and> s_class (last sents) = ClassSuccess) \<and>
    (\<forall>s \<in> set (butlast sents). s_class s = ClassUnavailable \<or> s_class s = ClassConnectFailed) \<and>
    (\<not> c_idempotent c \<and> sents \<noteq> [] \<and> s_class (last sents) = ClassDeadline \<longrightarrow>
       (\<exists>e. err = Some (Proto e) \<and> Domain e = PlatformDomain \<and> Reason e = ReasonResultUnknown))"
proof -
  have "Platform ReasonResultUnknown \<noteq> None" by code_simp
  note name = New_name [OF this]
  have unknown: "\<exists>e. Upward ClassDeadline r False (c_ID c) = Some (Proto e) \<and> Domain e = PlatformDomain \<and> Reason e = ReasonResultUnknown" for r
    unfolding Upward_def by (simp add: name)
  note sent = do_call_sent [OF assms]
  show ?thesis
  proof (intro conjI ballI impI)
    fix s assume "s \<in> set (butlast sents)"
    with sent show "s_class s = ClassUnavailable \<or> s_class s = ClassConnectFailed" by (simp add: list_all_iff worth_retrying_def)
  next
    assume last: "\<not> c_idempotent c \<and> sents \<noteq> [] \<and> s_class (last sents) = ClassDeadline"
    with sent obtain r where "err = Upward ClassDeadline r False (c_ID c)" by auto
    with unknown show "\<exists>e. err = Some (Proto e) \<and> Domain e = PlatformDomain \<and> Reason e = ReasonResultUnknown" by simp
  qed (use sent in blast)
qed

section \<open>The breaker among many calls\<close>

text \<open>Calls start and end in any order; ends may be late, of calls admitted long before.\<close>

datatype breaker_event = Starts instant | Ends permit instant breaker_outcome

fun breaker_step :: "Breaker \<Rightarrow> breaker_event \<Rightarrow> Breaker" where
  "breaker_step b (Starts now) = snd (Start now b)"
| "breaker_step b (Ends p now out) = End p now out b"

definition breaker_ok :: "Breaker \<Rightarrow> bool" where
  "breaker_ok b \<longleftrightarrow>
     openFor b \<in> {5 * Second, 10 * Second, 20 * Second, 30 * Second} \<and> length (window b) \<le> BreakerWindow \<and>
     (br_state b = Closed \<longrightarrow> openFor b = BreakerOpenFirst) \<and>
     (br_state b = HalfOpen \<longrightarrow> trialOK b < BreakerTrialsToClose \<and> window b = []) \<and> (br_state b = Open \<longrightarrow> window b = [])"

lemma NewBreaker_ok: "breaker_ok NewBreaker"
  by (simp add: breaker_ok_def NewBreaker_def)

lemma Start_ok: "breaker_ok b \<Longrightarrow> breaker_ok (snd (Start now b))"
  by (auto simp: breaker_ok_def Start_def Let_def)

lemma End_ok: "breaker_ok b \<Longrightarrow> breaker_ok (End p now out b)"
  by (cases "br_state b"; cases out) (auto simp: breaker_ok_def End_def Let_def last_window_def)

interpretation breaker_run: invariant_machine breaker_step breaker_ok
proof
  fix b e
  assume "breaker_ok b"
  then show "breaker_ok (breaker_step b e)" by (cases e) (auto intro: Start_ok End_ok)
qed

lemma open_stays:
  assumes "br_state b = Open" "minDuration < openFor b" "openFor b \<le> maxDuration"
    and "\<And>now. e = Starts now \<Longrightarrow> now - openedAt b < openFor b"
  shows "br_state (breaker_step b e) = Open \<and> openedAt (breaker_step b e) = openedAt b \<and> openFor (breaker_step b e) = openFor b"
  using assms by (cases e) (auto simp: Start_def End_def Let_def time_Sub_lt)

lemma open_stays_run:
  assumes "br_state b = Open" "minDuration < openFor b" "openFor b \<le> maxDuration"
    and "\<And>now. Starts now \<in> set es \<Longrightarrow> now - openedAt b < openFor b"
  shows "br_state (foldl breaker_step b es) = Open \<and> openedAt (foldl breaker_step b es) = openedAt b \<and>
    openFor (foldl breaker_step b es) = openFor b"
  using assms
proof (induction es arbitrary: b)
  case (Cons e es)
  from Cons.prems have "br_state (breaker_step b e) = Open" "openedAt (breaker_step b e) = openedAt b" "openFor (breaker_step b e) = openFor b"
    using open_stays [of b e] by auto
  with Cons.IH [of "breaker_step b e"] Cons.prems show ?case by auto
qed simp

lemma breaker_ok_bounds:
  "breaker_ok b \<Longrightarrow> 5 * Second \<le> openFor b \<and> openFor b \<le> 30 * Second \<and> minDuration < openFor b \<and> openFor b \<le> maxDuration"
  by (auto simp: breaker_ok_def minDuration_def maxDuration_def)

text \<open>
  C31. An open breaker lets nothing through before its time: from the moment it opens, whatever
  results of earlier calls still come in and however many calls are tried, it stays open and
  rejects every call for its open period, which is between five and thirty seconds.
\<close>

theorem breaker_open_rejects:
  assumes "b = foldl breaker_step NewBreaker es0" "br_state b = Open"
    and "\<forall>now. Starts now \<in> set es \<longrightarrow> now - openedAt b < openFor b"
  shows "br_state (foldl breaker_step b es) = Open \<and> 5 * Second \<le> openFor b \<and> openFor b \<le> 30 * Second \<and>
    (\<forall>xs now ys. es = xs @ Starts now # ys \<longrightarrow> fst (Start now (foldl breaker_step b xs)) = None)"
proof -
  have "breaker_ok b" unfolding assms(1) by (intro breaker_run.run_inv NewBreaker_ok)
  note ok = breaker_ok_bounds [OF this]
  have "fst (Start now (foldl breaker_step b xs)) = None" if es: "es = xs @ Starts now # ys" for xs now ys
  proof -
    have "br_state (foldl breaker_step b xs) = Open \<and> openedAt (foldl breaker_step b xs) = openedAt b \<and>
        openFor (foldl breaker_step b xs) = openFor b"
      using ok assms(2,3) es by (intro open_stays_run) auto
    moreover have "now - openedAt b < openFor b" using assms(3) es by simp
    ultimately show ?thesis using ok by (simp add: Start_def Let_def time_Sub_lt)
  qed
  with open_stays_run [of b es] ok assms(2,3) show ?thesis by blast
qed

text \<open>How many successful trials, and how many admissions, are still missing before it closes.\<close>

definition missing :: "Breaker \<Rightarrow> nat" where
  "missing b = (case br_state b of Closed \<Rightarrow> 0 | Open \<Rightarrow> BreakerTrialsToClose | HalfOpen \<Rightarrow> BreakerTrialsToClose - trialOK b)"

definition missing_starts :: "Breaker \<Rightarrow> nat" where
  "missing_starts b =
     (case br_state b of
        Closed \<Rightarrow> 0 | Open \<Rightarrow> BreakerTrialsToClose
      | HalfOpen \<Rightarrow> BreakerTrialsToClose - trialOK b - (if trial b = 0 then 0 else 1))"

definition successes :: "breaker_event list \<Rightarrow> nat" where
  "successes es = length (filter (\<lambda>e. case e of Ends _ _ BreakerSuccess \<Rightarrow> True | _ \<Rightarrow> False) es)"

definition starts :: "breaker_event list \<Rightarrow> nat" where
  "starts es = length (filter (\<lambda>e. case e of Starts _ \<Rightarrow> True | _ \<Rightarrow> False) es)"

lemma missing_step: "missing b \<le> missing (breaker_step b e) + successes [e]"
proof (cases e)
  case (Starts now)
  then show ?thesis by (auto simp: missing_def successes_def Start_def Let_def split: breaker_state.splits)
next
  case (Ends p now out)
  then show ?thesis
    by (cases "br_state b"; cases out) (auto simp: missing_def successes_def End_def Let_def)
qed

text \<open>A call that ends was admitted, and the permit of an admitted call is not 0.\<close>

fun of_admitted :: "breaker_event \<Rightarrow> bool" where
  "of_admitted (Ends p _ _) \<longleftrightarrow> p \<noteq> 0"
| "of_admitted (Starts _) \<longleftrightarrow> True"

lemma missing_starts_step: "of_admitted e \<Longrightarrow> missing_starts b \<le> missing_starts (breaker_step b e) + starts [e]"
proof (cases e)
  case (Starts now)
  then show ?thesis by (auto simp: missing_starts_def starts_def Start_def Let_def split: breaker_state.splits)
next
  case (Ends p now out)
  moreover assume "of_admitted e"
  ultimately show ?thesis
    by (cases "br_state b"; cases out) (auto simp: missing_starts_def starts_def End_def Let_def)
qed

lemma missing_run:
  "list_all of_admitted es \<Longrightarrow> missing b \<le> missing (foldl breaker_step b es) + successes es \<and>
   missing_starts b \<le> missing_starts (foldl breaker_step b es) + starts es"
proof (induction es arbitrary: b)
  case (Cons e es)
  have "successes (e # es) = successes [e] + successes es" "starts (e # es) = starts [e] + starts es"
    by (simp_all add: successes_def starts_def)
  with Cons.IH [of "breaker_step b e"] Cons.prems missing_step [of b e] missing_starts_step [of e b] show ?case by simp
qed (simp add: successes_def starts_def)


section \<open>When the breaker opens\<close>

definition failures :: "breaker_outcome list \<Rightarrow> nat" where
  "failures os = length (filter (\<lambda>out. out = BreakerFailure) os)"

text \<open>Some twenty results in a row have more than ten failures among them.\<close>

definition tripped :: "breaker_outcome list \<Rightarrow> bool" where
  "tripped os \<longleftrightarrow> (\<exists>i. i + 20 \<le> length os \<and> failures (take 20 (drop i os)) > 10)"

definition counted :: "(permit \<times> instant \<times> breaker_outcome) list \<Rightarrow> breaker_outcome list" where
  "counted es = filter (\<lambda>out. out \<noteq> BreakerIgnored) (map (snd \<circ> snd) es)"

definition last20 :: "'a list \<Rightarrow> 'a list" where
  "last20 xs = drop (length xs - 20) xs"

lemma last20_snoc: "last20 (xs @ [x]) = drop (length (last20 xs @ [x]) - 20) (last20 xs @ [x])"
proof (cases "20 \<le> length xs")
  case True
  then have "length xs - (length xs - 20 + 19) + (length xs - 20) = length xs - 19" by simp
  then show ?thesis by (simp add: last20_def)
qed (simp add: last20_def)

lemma tripped_snoc: "tripped (os @ [out]) \<longleftrightarrow> tripped os \<or> (length os \<ge> 19 \<and> failures (last20 (os @ [out])) > 10)"
proof
  assume "tripped (os @ [out])"
  then obtain i where i: "i + 20 \<le> Suc (length os)" "failures (take 20 (drop i (os @ [out]))) > 10" by (auto simp: tripped_def)
  show "tripped os \<or> (length os \<ge> 19 \<and> failures (last20 (os @ [out])) > 10)"
  proof (cases "i + 20 \<le> length os")
    case True
    with i show ?thesis by (auto simp: tripped_def)
  next
    case False
    with i(1) have "i = length os - 19" by simp
    with i show ?thesis by (auto simp: last20_def)
  qed
next
  assume "tripped os \<or> (length os \<ge> 19 \<and> failures (last20 (os @ [out])) > 10)"
  then show "tripped (os @ [out])"
  proof
    assume "tripped os"
    then obtain i where "i + 20 \<le> length os" "failures (take 20 (drop i os)) > 10" by (auto simp: tripped_def)
    then show ?thesis unfolding tripped_def by (intro exI [of _ i]) auto
  next
    assume "length os \<ge> 19 \<and> failures (last20 (os @ [out])) > 10"
    then show ?thesis unfolding tripped_def by (intro exI [of _ "length os - 19"]) (auto simp: last20_def)
  qed
qed

lemma breaker_window:
  fixes es :: "(permit \<times> instant \<times> breaker_outcome) list"
  defines "b \<equiv> foldl breaker_step NewBreaker (map (\<lambda>(p, now, out). Ends p now out) es)"
  shows "if tripped (counted es) then br_state b = Open
    else br_state b = Closed \<and> window b = map (\<lambda>out. out = BreakerFailure) (last20 (counted es))"
  unfolding b_def
proof (induction es rule: rev_induct)
  case Nil
  then show ?case by (simp add: NewBreaker_def counted_def tripped_def last20_def)
next
  case (snoc x es)
  obtain p now out where x: "x = (p, now, out)" by (cases x)
  show ?case
  proof (cases "out = BreakerIgnored \<or> tripped (counted es)")
    case True
    with snoc show ?thesis by (auto simp: x End_def counted_def tripped_snoc split: if_splits)
  next
    case False
    have c: "counted (es @ [(p, now, out)]) = counted es @ [out]" using False by (simp add: counted_def)
    let ?b = "foldl breaker_step NewBreaker (map (\<lambda>(p, now, out). Ends p now out) es)"
    let ?f = "\<lambda>out. out = BreakerFailure"
    have b: "br_state ?b = Closed" "window ?b = map ?f (last20 (counted es))" using snoc False by auto
    have "last_window (window ?b @ [?f out]) = map ?f (last20 (counted es @ [out]))"
      using b(2) last20_snoc [of "counted es" out] by (auto simp: last_window_def last20_def drop_map)
    moreover have "length (filter (\<lambda>f. f) (map ?f xs)) = failures xs" for xs by (simp add: failures_def filter_map comp_def)
    moreover have "length (last20 (counted es @ [out])) = 20 \<longleftrightarrow> length (counted es) \<ge> 19" by (auto simp: last20_def)
    ultimately show ?thesis using b False by (simp add: x c tripped_snoc End_def Let_def)
  qed
qed

text \<open>
  C33. The sliding window is exact: after any results, a breaker that was closed is open exactly when
  there were twenty results in a row, not counting ignored ones, of which more than ten were
  failures.
\<close>

theorem breaker_trips:
  "br_state (foldl breaker_step NewBreaker (map (\<lambda>(p, now, out). Ends p now out) es)) =
     (if tripped (counted es) then Open else Closed)"
  using breaker_window [of es] by (auto split: if_splits)

section \<open>A concrete dependency\<close>

definition demo_result :: "Code \<Rightarrow> Result" where
  "demo_result code = \<lparr>r_Err = (if code = OK then None else Some (OtherError ''no answer'')), r_Code = code, r_Remote = None,
     r_ConnectFailed = False\<rparr>"

definition demo_call :: "bool \<Rightarrow> Code \<Rightarrow> call" where
  "demo_call idempotent code = \<lparr>c_ID = ''stock'', c_InTx = False, c_idempotent = idempotent, c_viaBreaker = True,
     c_deadline = Some (10 * Second), c_before = (\<lambda>n. int n * Second), c_after = (\<lambda>n. int n * Second + 1),
     c_start = (\<lambda>n. int n * Second), c_end = (\<lambda>n. int n * Second + 1),
     c_attempt = (\<lambda>n _. demo_result (if n = 1 then code else OK)), c_cancelled = (\<lambda>_. False),
     c_backoff = (\<lambda>_. 5), c_sleep = (\<lambda>_ _. None)\<rparr>"

definition demo_opened :: Breaker where
  "demo_opened = foldl breaker_step NewBreaker (replicate 20 (Ends 1 0 BreakerFailure))"

theorem calls_bounded_witness:
  "length (fst (snd (do_call (demo_call True Unavailable) (\<lambda>_ d. d) new_dep))) = 2 \<and>
   list_all (\<lambda>s. s_timeout s \<le> 3000 * Millisecond) (fst (snd (do_call (demo_call True Unavailable) (\<lambda>_ d. d) new_dep)))"
proof -
  obtain err sents d' where run: "do_call (demo_call True Unavailable) (\<lambda>_ d. d) new_dep = (err, sents, d')"
    by (metis prod_cases3)
  have "length (fst (snd (do_call (demo_call True Unavailable) (\<lambda>_ d. d) new_dep))) = 2" by code_simp
  with calls_bounded [OF run] run show ?thesis by (auto simp: list_all_iff)
qed

theorem calls_answer_witness:
  "\<exists>e. fst (do_call (demo_call False DeadlineExceeded) (\<lambda>_ d. d) new_dep) = Some (Proto e) \<and> Reason e = ReasonResultUnknown"
proof -
  obtain err sents d' where run: "do_call (demo_call False DeadlineExceeded) (\<lambda>_ d. d) new_dep = (err, sents, d')"
    by (metis prod_cases3)
  have "map s_class (fst (snd (do_call (demo_call False DeadlineExceeded) (\<lambda>_ d. d) new_dep))) = [ClassDeadline]" by code_simp
  then have "sents \<noteq> [] \<and> s_class (last sents) = ClassDeadline" using run by (auto simp: map_eq_Cons_conv)
  moreover have "\<not> c_idempotent (demo_call False DeadlineExceeded)" by (simp add: demo_call_def)
  ultimately show ?thesis using calls_answer [OF run] run by auto
qed

lemma demo_opened_open: "br_state demo_opened = Open" "openedAt demo_opened = 0" "openFor demo_opened = 5 * Second"
  by code_simp+

theorem breaker_open_rejects_witness:
  "br_state (foldl breaker_step demo_opened [Starts 1, Ends 1 2 BreakerSuccess, Starts (4 * Second)]) = Open \<and>
   fst (Start (4 * Second) (foldl breaker_step demo_opened [Starts 1, Ends 1 2 BreakerSuccess])) = None"
proof -
  have "\<forall>now. Starts now \<in> set [Starts 1, Ends 1 2 BreakerSuccess, Starts (4 * Second)] \<longrightarrow> now - openedAt demo_opened < openFor demo_opened"
    by (auto simp: demo_opened_open)
  from breaker_open_rejects [OF demo_opened_def demo_opened_open(1) this] show ?thesis
    by (metis append_Cons append_Nil)
qed


end
