(* ===== verification/Sha256.thy ===== *)
theory Sha256
  imports SDK_Prelude
begin

text \<open>
  The digests of the standard library the sources use (\<open>crypto/sha256\<close>, \<open>encoding/hex\<close>) on strings of
  bytes. Nothing is proved about collisions; the theorems that speak of digests say what was hashed.
\<close>

unbundle bit_operations_syntax

type_synonym word32 = "32 word"

text \<open>
  The constants are the first 32 bits after the point of the cube roots of the first 64 primes and of
  the square roots of the first eight; the roots are found bit by bit.
\<close>

fun root_bits :: "nat \<Rightarrow> int \<Rightarrow> nat \<Rightarrow> int \<Rightarrow> int" where
  "root_bits k n 0 r = r"
| "root_bits k n (Suc b) r = root_bits k n b (if (r + 2 ^ b) ^ k \<le> n then r + 2 ^ b else r)"

definition root_fraction :: "nat \<Rightarrow> int \<Rightarrow> word32" where
  "root_fraction k p = word_of_int (root_bits k (p * 2 ^ (32 * k)) 40 0)"

definition sha_primes :: "int list" where
  "sha_primes = filter (\<lambda>n. list_all (\<lambda>d. n mod d \<noteq> 0) [2..n - 1]) [2..311]"

definition sha_K :: "word32 list" where
  "sha_K = map (root_fraction 3) sha_primes"

type_synonym sha_state = "word32 \<times> word32 \<times> word32 \<times> word32 \<times> word32 \<times> word32 \<times> word32 \<times> word32"

definition sha_H :: sha_state where
  "sha_H =
     (root_fraction 2 2, root_fraction 2 3, root_fraction 2 5, root_fraction 2 7,
      root_fraction 2 11, root_fraction 2 13, root_fraction 2 17, root_fraction 2 19)"

definition byte :: "char \<Rightarrow> word32" where
  "byte c = of_char c"

definition be_bytes :: "nat \<Rightarrow> int \<Rightarrow> string" where
  "be_bytes k n = map (\<lambda>i. char_of ((n div 256 ^ (k - 1 - i)) mod 256)) [0..<k]"

definition sha_pad :: "string \<Rightarrow> string" where
  "sha_pad m =
     (let l = length m; z = (119 - l mod 64) mod 64
      in m @ char_of (128 :: int) # replicate z (char_of (0 :: int)) @ be_bytes 8 (8 * int l))"

fun chunks :: "nat \<Rightarrow> 'a list \<Rightarrow> 'a list list" where
  "chunks k xs = (if k = 0 \<or> xs = [] then [] else take k xs # chunks k (drop k xs))"

declare chunks.simps [simp del]

definition be_word :: "string \<Rightarrow> word32" where
  "be_word bs = foldl (\<lambda>w c. push_bit 8 w OR byte c) 0 bs"

fun sha_extend :: "nat \<Rightarrow> word32 list \<Rightarrow> word32 list" where
  "sha_extend 0 ws = ws"
| "sha_extend (Suc n) ws =
     (let t = length ws; a = ws ! (t - 15); b = ws ! (t - 2);
          s0 = word_rotr 7 a XOR word_rotr 18 a XOR drop_bit 3 a;
          s1 = word_rotr 17 b XOR word_rotr 19 b XOR drop_bit 10 b
      in sha_extend n (ws @ [ws ! (t - 16) + s0 + ws ! (t - 7) + s1]))"

definition sha_round :: "sha_state \<Rightarrow> word32 \<times> word32 \<Rightarrow> sha_state" where
  "sha_round = (\<lambda>(a, b, c, d, e, f, g, h) (k, w).
     (let s1 = word_rotr 6 e XOR word_rotr 11 e XOR word_rotr 25 e;
          ch = (e AND f) XOR (NOT e AND g);
          t1 = h + s1 + ch + k + w;
          s0 = word_rotr 2 a XOR word_rotr 13 a XOR word_rotr 22 a;
          maj = (a AND b) XOR (a AND c) XOR (b AND c)
      in (t1 + s0 + maj, a, b, c, d + t1, e, f, g)))"

definition sha_add :: "sha_state \<Rightarrow> sha_state \<Rightarrow> sha_state" where
  "sha_add = (\<lambda>(a, b, c, d, e, f, g, h) (a', b', c', d', e', f', g', h').
     (a + a', b + b', c + c', d + d', e + e', f + f', g + g', h + h'))"

definition sha_block :: "sha_state \<Rightarrow> string \<Rightarrow> sha_state" where
  "sha_block s block = sha_add s (foldl sha_round s (zip sha_K (sha_extend 48 (map be_word (chunks 4 block)))))"

definition Sum256 :: "string \<Rightarrow> string" where
  "Sum256 m =
     (case foldl sha_block sha_H (chunks 64 (sha_pad m)) of
        (a, b, c, d, e, f, g, h) \<Rightarrow> concat (map (\<lambda>w. be_bytes 4 (uint w)) [a, b, c, d, e, f, g, h]))"

definition hex_digit :: "nat \<Rightarrow> char" where
  "hex_digit d = (if d < 10 then char_of (48 + d) else char_of (87 + d))"

definition hex_of :: "string \<Rightarrow> string" where
  "hex_of bs = concat (map (\<lambda>c. [hex_digit (of_char c div 16), hex_digit (of_char c mod 16)]) bs)"

lemma be_bytes_length [simp]: "length (be_bytes k n) = k"
  by (simp add: be_bytes_def)

end
