(* ===== verification/Canon_Correct.thy ===== *)
theory Canon_Correct
  imports Canon
begin

text \<open>
  The canonical encoding is unambiguous. Every accepted value has a normal form (numbers as
  integers, members in the order of their keys) and its bytes are those of the normal form; the
  encoding of normal forms can be read back from the left, so different normal forms never give
  the same bytes, and neither do different record types or versions.
\<close>

section \<open>Normal forms\<close>

fun normal :: "any_value \<Rightarrow> any_value" where
  "normal (Number s) = (case SetString s of None \<Rightarrow> Number s | Some n \<Rightarrow> Integer n)"
| "normal (Arr vs) = Arr (map normal vs)"
| "normal (Obj kvs) = Obj (sort_key fst (map (\<lambda>(k, v). (k, normal v)) kvs))"
| "normal v = v"

fun plain :: "any_value \<Rightarrow> bool" where
  "plain (Bool _) \<longleftrightarrow> True"
| "plain (Integer _) \<longleftrightarrow> True"
| "plain (Str _) \<longleftrightarrow> True"
| "plain (Arr vs) \<longleftrightarrow> list_all plain vs"
| "plain (Obj kvs) \<longleftrightarrow> list_all (\<lambda>(_, v). plain v) kvs"
| "plain _ \<longleftrightarrow> False"

fun bytes_of :: "any_value \<Rightarrow> string" where
  "bytes_of (Bool b) = (if b then ''true'' else ''false'')"
| "bytes_of (Integer n) = FormatInt n"
| "bytes_of (Str s) = encodeString s"
| "bytes_of (Arr vs) = CHR ''['' # comma_separated (map bytes_of vs) @ [CHR '']'']"
| "bytes_of (Obj kvs) =
     CHR ''{'' # comma_separated (map (\<lambda>(k, v). encodeString k @ CHR '':'' # bytes_of v) kvs) @ [CHR ''}'']"
| "bytes_of _ = []"

lemma first_error_map [simp]: "first_error (map Inr ys) = Inr ys"
  by (induction ys) auto

lemma first_error_Inr: "first_error xs = Inr ys \<Longrightarrow> xs = map Inr ys"
proof (induction xs arbitrary: ys)
  case (Cons x xs)
  then show ?case by (cases x) (auto split: sum.splits)
qed simp

lemma insort_key_members:
  "insort_key fst (k, f v) (map (\<lambda>(k, v). (k, f v)) xs) = map (\<lambda>(k, v). (k, f v)) (insort_key fst (k, v) xs)"
  by (induction xs) auto

lemma sort_key_members:
  "sort_key fst (map (\<lambda>(k, v). (k, f v)) kvs) = map (\<lambda>(k, v). (k, f v)) (sort_key fst kvs)"
  by (induction kvs) (auto simp: insort_key_members)

lemma Encode_list:
  assumes "map Encode vs = map Inr bs"
    and "\<And>v b. v \<in> set vs \<Longrightarrow> Encode v = Inr b \<Longrightarrow> plain (normal v) \<and> b = bytes_of (normal v)"
  shows "list_all plain (map normal vs) \<and> bs = map bytes_of (map normal vs)"
  using assms
proof (induction vs arbitrary: bs)
  case (Cons v vs)
  then obtain b bs' where "bs = b # bs'" "Encode v = Inr b" "map Encode vs = map Inr bs'" by auto
  with Cons.IH [of bs'] Cons.prems(2) show ?case by simp
qed simp

lemma Encode_members:
  assumes "map (\<lambda>(k, v). encode_member k (Encode v)) kvs = map Inr bs"
    and "\<And>k v b. (k, v) \<in> set kvs \<Longrightarrow> Encode v = Inr b \<Longrightarrow> plain (normal v) \<and> b = bytes_of (normal v)"
  shows "list_all (\<lambda>(_, v). plain v) (map (\<lambda>(k, v). (k, normal v)) kvs) \<and>
    bs = map (\<lambda>(k, v). encodeString k @ CHR '':'' # bytes_of v) (map (\<lambda>(k, v). (k, normal v)) kvs)"
  using assms
proof (induction kvs arbitrary: bs)
  case (Cons kv kvs)
  obtain k v where kv: "kv = (k, v)" by fastforce
  with Cons.prems(1) obtain b bs' where "bs = (encodeString k @ CHR '':'' # b) # bs'" "Encode v = Inr b"
    "map (\<lambda>(k, v). encode_member k (Encode v)) kvs = map Inr bs'"
    by (cases "Encode v") (auto simp: encode_member_def)
  with Cons.IH [of bs'] Cons.prems(2) kv show ?case by auto
qed simp

lemma Encode_normal: "Encode v = Inr b \<Longrightarrow> plain (normal v) \<and> b = bytes_of (normal v)"
proof (induction v arbitrary: b rule: Encode.induct)
  case (7 vs)
  then obtain bs where bs: "map Encode vs = map Inr bs" "b = CHR ''['' # comma_separated bs @ [CHR '']'']"
    by (auto dest: first_error_Inr split: sum.splits)
  with Encode_list [OF bs(1)] 7(1) show ?case by simp
next
  case (8 kvs)
  then obtain bs where bs: "b = CHR ''{'' # comma_separated bs @ [CHR ''}'']"
    "map (\<lambda>(k, v). encode_member k (Encode v)) (sort_key fst kvs) = map Inr bs"
    by (auto dest: first_error_Inr split: sum.splits)
  have "plain (normal v) \<and> b = bytes_of (normal v)" if "(k, v) \<in> set (sort_key fst kvs)" "Encode v = Inr b" for k v b
    using 8(1) that by blast
  from Encode_members [OF bs(2) this] bs(1) show ?case by (simp add: sort_key_members)
qed (auto simp: encodeInt_def split: if_splits option.splits)

section \<open>Reading back from the left\<close>

lemma hex_digit_inject: "hex_digit a = hex_digit b \<Longrightarrow> a < 16 \<Longrightarrow> b < 16 \<Longrightarrow> a = b"
  by (auto simp: hex_digit_def char_of_eq_iff take_bit_eq_mod split: if_splits)

lemma hex_byte_inject:
  assumes "hex_digit (of_char c div 16) = hex_digit (of_char d div 16)" "hex_digit (of_char c mod 16) = hex_digit (of_char d mod 16)"
  shows "c = d"
proof -
  have "(of_char x :: nat) < 256" for x by simp
  then have "(of_char x :: nat) div 16 < 16" for x by (simp add: less_mult_imp_div_less)
  then have "(of_char c :: nat) div 16 = of_char d div 16" "(of_char c :: nat) mod 16 = of_char d mod 16"
    using assms by (auto intro!: hex_digit_inject)
  then have "(of_char c :: nat) = of_char d" by (metis div_mult_mod_eq)
  then show ?thesis by simp
qed

lemma escape_head: "\<exists>e es. escape c = e # es \<and> e \<noteq> quote"
  by (auto simp: escape_def)

lemma escape_prefix: "escape c @ x = escape d @ y \<Longrightarrow> c = d \<and> x = y"
  by (auto simp: escape_def split: if_splits intro: hex_byte_inject)

lemma quoted_prefix:
  "concat (map escape s) @ quote # r = concat (map escape t) @ quote # q \<Longrightarrow> s = t \<and> r = q"
proof (induction s arbitrary: t)
  case Nil
  show ?case
  proof (cases t)
    case (Cons d t')
    with Nil escape_head [of d] show ?thesis by auto
  qed (use Nil in simp)
next
  case (Cons c s)
  from escape_head [of c] obtain e es where e: "escape c = e # es" "e \<noteq> quote" by blast
  with Cons.prems obtain d t' where t: "t = d # t'" by (cases t) auto
  with Cons.prems have "escape c @ (concat (map escape s) @ quote # r) = escape d @ (concat (map escape t') @ quote # q)" by simp
  from escape_prefix [OF this] Cons.IH [of t'] t show ?case by simp
qed

lemma encodeString_prefix: "encodeString s @ r = encodeString t @ q \<Longrightarrow> s = t \<and> r = q"
  by (auto simp: encodeString_def dest: quoted_prefix)

lemma format_nat_read: "foldl (\<lambda>n c. n * 10 + digit_val c) 0 (format_nat n) = n"
proof (induction n rule: format_nat.induct)
  case (1 n)
  then show ?case by (cases "n < 10") (simp_all add: format_nat.simps [of n])
qed

lemma format_nat_inject: "format_nat m = format_nat n \<Longrightarrow> m = n"
  by (metis format_nat_read)

lemma FormatInt_inject: "FormatInt m = FormatInt n \<Longrightarrow> m = n"
proof -
  assume eq: "FormatInt m = FormatInt n"
  have "hd (format_nat k) \<noteq> CHR ''-''" for k
    using format_nat_digits [of "hd (format_nat k)" k] is_digit_neq by auto
  with eq show ?thesis by (auto simp: FormatInt_def split: if_splits dest!: format_nat_inject) (metis list.sel(1))+
qed

definition delimited :: "string \<Rightarrow> bool" where
  "delimited r \<longleftrightarrow> r = [] \<or> hd r \<in> {CHR '','', CHR '']'', CHR ''}''}"

lemma FormatInt_prefix:
  assumes "FormatInt m @ r = FormatInt n @ s" "delimited r" "delimited s"
  shows "m = n \<and> r = s"
proof -
  let ?P = "\<lambda>c. is_digit c \<or> c = CHR ''-''"
  have all: "\<forall>c \<in> set (FormatInt k). ?P c" for k by (auto simp: FormatInt_def dest: format_nat_digits)
  have "takeWhile ?P x = []" if "delimited x" for x
    using that by (cases x) (auto simp: delimited_def is_digit_def)
  then have "takeWhile ?P (FormatInt k @ x) = FormatInt k" if "delimited x" for k x
    using that all by (simp add: takeWhile_append2)
  with assms have "FormatInt m = FormatInt n" by metis
  with assms(1) show ?thesis by (auto dest: FormatInt_inject)
qed

text \<open>The first byte of an encoding tells what kind of value it is.\<close>

definition tag_of_byte :: "char \<Rightarrow> nat" where
  "tag_of_byte c =
     (if c = CHR ''t'' then 0 else if c = CHR ''f'' then 1 else if c = quote then 2 else if c = CHR ''['' then 3
      else if c = CHR ''{'' then 4 else 5)"

fun tag :: "any_value \<Rightarrow> nat" where
  "tag (Bool b) = (if b then 0 else 1)"
| "tag (Str _) = 2"
| "tag (Arr _) = 3"
| "tag (Obj _) = 4"
| "tag _ = 5"

lemma FormatInt_head: "\<exists>c cs. FormatInt n = c # cs \<and> tag_of_byte c = 5 \<and> c \<noteq> CHR '']'' \<and> c \<noteq> CHR ''}''"
proof -
  have "\<exists>c cs. FormatInt n = c # cs \<and> (is_digit c \<or> c = CHR ''-'')"
    using format_nat_digits [of "hd (format_nat (nat n))" "nat n"] by (cases "format_nat (nat n)") (auto simp: FormatInt_def)
  then obtain c cs where c: "FormatInt n = c # cs" "is_digit c \<or> c = CHR ''-''" by blast
  have "\<not> is_digit CHR ''t''" "\<not> is_digit CHR ''f''" "\<not> is_digit quote" "\<not> is_digit CHR ''[''" "\<not> is_digit CHR ''{''"
    "\<not> is_digit CHR '']''" "\<not> is_digit CHR ''}''" by (simp_all add: is_digit_def)
  with c(2) have "tag_of_byte c = 5 \<and> c \<noteq> CHR '']'' \<and> c \<noteq> CHR ''}''" by (auto simp: tag_of_byte_def)
  with c(1) show ?thesis by blast
qed

lemma bytes_head: "plain v \<Longrightarrow> \<exists>c cs. bytes_of v = c # cs \<and> tag_of_byte c = tag v \<and> c \<noteq> CHR '']'' \<and> c \<noteq> CHR ''}''"
  using FormatInt_head by (cases v) (auto simp: encodeString_def tag_of_byte_def)

lemma bytes_tag: "plain v \<Longrightarrow> plain w \<Longrightarrow> bytes_of v @ r = bytes_of w @ s \<Longrightarrow> tag v = tag w"
  using bytes_head [of v] bytes_head [of w] by auto

lemma comma_separated_Cons:
  "comma_separated (x # xs) @ cl # r = x @ (if xs = [] then cl # r else CHR '','' # comma_separated xs @ cl # r)"
  by (cases xs) auto

lemma separated_prefix:
  assumes "comma_separated (map enc xs) @ cl # r = comma_separated (map enc ys) @ cl # s"
    and "\<And>x y r s. x \<in> set xs \<Longrightarrow> good y \<Longrightarrow> enc x @ r = enc y @ s \<Longrightarrow> delimited r \<Longrightarrow> delimited s \<Longrightarrow> x = y \<and> r = s"
    and "\<And>x. good x \<Longrightarrow> \<exists>c cs. enc x = c # cs \<and> c \<noteq> cl"
    and "list_all good xs" "list_all good ys" "cl \<in> {CHR '']'', CHR ''}''}"
  shows "xs = ys \<and> r = s"
  using assms
proof (induction xs arbitrary: ys)
  case Nil
  show ?case
  proof (cases ys)
    case (Cons y ys')
    with Nil.prems(3) [of y] Nil.prems(5) obtain c cs where "enc y = c # cs" "c \<noteq> cl" by auto
    with Nil.prems(1) Cons show ?thesis by (auto simp: comma_separated_Cons)
  qed (use Nil in simp)
next
  case (Cons x xs)
  let ?rest = "\<lambda>zs q. if zs = [] then cl # q else CHR '','' # comma_separated (map enc zs) @ cl # q"
  obtain y ys' where ys: "ys = y # ys'"
    using Cons.prems(1,4) Cons.prems(3) [of x] by (cases ys) (auto simp: comma_separated_Cons)
  have eq: "enc x @ ?rest xs r = enc y @ ?rest ys' s"
    using Cons.prems(1) by (simp add: ys comma_separated_Cons del: append_assoc)
  have d: "delimited (?rest zs q)" for zs q using Cons.prems(6) by (auto simp: delimited_def)
  have "good y" using Cons.prems(5) ys by simp
  from Cons.prems(2) [OF _ this eq d d] have xy: "x = y" "?rest xs r = ?rest ys' s" by simp_all
  show ?case
  proof (cases "xs = [] \<or> ys' = []")
    case True
    with xy(2) Cons.prems(6) have "xs = []" "ys' = []" "r = s" by (auto split: if_splits)
    with xy(1) ys show ?thesis by simp
  next
    case False
    with xy(2) have tl: "comma_separated (map enc xs) @ cl # r = comma_separated (map enc ys') @ cl # s" by simp
    have "xs = ys' \<and> r = s"
    proof (rule Cons.IH [OF tl])
      fix x' y' r' s'
      assume "x' \<in> set xs" "good y'" "enc x' @ r' = enc y' @ s'" "delimited r'" "delimited s'"
      then show "x' = y' \<and> r' = s'" by (intro Cons.prems(2)) simp_all
    qed (use Cons.prems(3-6) ys in simp_all)
    with xy(1) ys show ?thesis by simp
  qed
qed

lemma bytes_prefix:
  assumes "plain v" "plain w" "bytes_of v @ r = bytes_of w @ s" "delimited r" "delimited s"
  shows "v = w \<and> r = s"
  using assms
proof (induction v arbitrary: w r s)
  case (Bool b)
  from bytes_tag [OF Bool(1-3)] have "w = Bool b" using Bool(2) by (cases w) (auto split: if_splits)
  with Bool show ?case by simp
next
  case (Integer n)
  from bytes_tag [OF Integer(1-3)] obtain m where "w = Integer m" using Integer(2) by (cases w) (auto split: if_splits)
  with Integer FormatInt_prefix [of n r m s] show ?case by simp
next
  case (Str t)
  from bytes_tag [OF Str(1-3)] obtain u where "w = Str u" using Str(2) by (cases w) (auto split: if_splits)
  with Str encodeString_prefix [of t r u s] show ?case by simp
next
  case (Arr vs)
  from bytes_tag [OF Arr.prems(1-3)] obtain ws where w: "w = Arr ws" using Arr.prems(2) by (cases w) (auto split: if_splits)
  with Arr.prems have eq: "comma_separated (map bytes_of vs) @ CHR '']'' # r = comma_separated (map bytes_of ws) @ CHR '']'' # s" by simp
  have "vs = ws \<and> r = s"
  proof (rule separated_prefix [OF eq])
    fix x y p q
    assume x: "x \<in> set vs" "plain y" "bytes_of x @ p = bytes_of y @ q" "delimited p" "delimited q"
    have "plain x" using Arr.prems(1) x(1) by (simp add: list_all_iff)
    from Arr.IH [OF x(1) this x(2-5)] show "x = y \<and> p = q" .
  next
    fix x assume "plain x"
    from bytes_head [OF this] show "\<exists>c cs. bytes_of x = c # cs \<and> c \<noteq> CHR '']''" by blast
  qed (use Arr.prems w in simp_all)
  with w show ?case by simp
next
  case (Obj kvs)
  from bytes_tag [OF Obj.prems(1-3)] obtain lws where w: "w = Obj lws" using Obj.prems(2) by (cases w) (auto split: if_splits)
  let ?enc = "\<lambda>(k, v). encodeString k @ CHR '':'' # bytes_of v"
  from w Obj.prems have eq: "comma_separated (map ?enc kvs) @ CHR ''}'' # r = comma_separated (map ?enc lws) @ CHR ''}'' # s" by simp
  have "kvs = lws \<and> r = s"
  proof (rule separated_prefix [OF eq])
    fix x y p q
    assume x: "x \<in> set kvs" "plain (snd y)" "?enc x @ p = ?enc y @ q" "delimited p" "delimited q"
    obtain k v k' v' where kv: "x = (k, v)" "y = (k', v')" by fastforce
    with x(3) have "encodeString k @ (CHR '':'' # bytes_of v @ p) = encodeString k' @ (CHR '':'' # bytes_of v' @ q)" by simp
    from encodeString_prefix [OF this] have "k = k'" "bytes_of v @ p = bytes_of v' @ q" by auto
    moreover have "plain v" using Obj.prems(1) x(1) kv by (auto simp: list_all_iff)
    moreover have "v \<in> Basic_BNFs.snds x" using kv by simp
    ultimately show "x = y \<and> p = q" using Obj.IH [OF x(1), of v v' p q] x(2,4,5) kv by simp
  next
    fix x :: "string \<times> any_value"
    show "\<exists>c cs. ?enc x = c # cs \<and> c \<noteq> CHR ''}''" by (cases x) (simp add: encodeString_def)
  qed (use Obj.prems w in \<open>auto simp: list_all_iff\<close>)
  with w show ?case by simp
qed auto

section \<open>Digests and sets\<close>

lemma split_at_first:
  fixes xs :: string
  assumes "xs @ c # ys = xs' @ c # ys'" "c \<notin> set xs" "c \<notin> set xs'"
  shows "xs = xs' \<and> ys = ys'"
proof -
  have "(xs, ys, True) = cut c (xs' @ c # ys')" using cut_append [OF assms(2), of ys] unfolding assms(1) by (rule sym)
  also have "\<dots> = (xs', ys', True)" by (rule cut_append [OF assms(3)])
  finally show ?thesis by blast
qed

lemma split_at_last:
  fixes xs :: string
  assumes "xs @ c # ys = xs' @ c # ys'" "c \<notin> set ys" "c \<notin> set ys'"
  shows "xs = xs' \<and> ys = ys'"
proof -
  from arg_cong [OF assms(1), of rev] have "rev ys @ c # rev xs = rev ys' @ c # rev xs'" by simp
  from split_at_first [OF this] assms(2,3) show ?thesis by simp
qed

lemma FormatInt_no_newline: "CHR 0x0A \<notin> set (FormatInt n)"
  by (auto simp: FormatInt_def is_digit_def dest!: format_nat_digits)

lemma digest_input_inject:
  assumes "digest_input rt m b = digest_input rt' m' c" "CHR 0x0A \<notin> set rt" "CHR 0x0A \<notin> set rt'"
  shows "rt = rt' \<and> m = m' \<and> b = c"
proof -
  have "(rt @ ''.v'' @ FormatInt m) @ CHR 0x0A # b = (rt' @ ''.v'' @ FormatInt m') @ CHR 0x0A # c"
    using assms(1) by (simp add: digest_input_def)
  from split_at_first [OF this] assms(2,3) FormatInt_no_newline
  have "rt @ ''.v'' @ FormatInt m = rt' @ ''.v'' @ FormatInt m'" "b = c" by auto
  then have "rt @ CHR ''.'' # (CHR ''v'' # FormatInt m) = rt' @ CHR ''.'' # (CHR ''v'' # FormatInt m')" by simp
  from split_at_last [OF this] FormatInt_no_dot have "rt = rt'" "FormatInt m = FormatInt m'" by auto
  with \<open>b = c\<close> show ?thesis by (auto dest: FormatInt_inject)
qed

text \<open>
  C13. Canonical digests are unambiguous: what is hashed for two records is the same text exactly when
  the record types, their versions and the values are the same, numbers being compared as integers
  and members without their order. No two different records share the bytes that are hashed, so
  equal digests of different records would be a collision of SHA-256 itself.
\<close>

theorem canon_unambiguous:
  assumes "Encode v = Inr b" "Encode w = Inr c" "CHR 0x0A \<notin> set rt" "CHR 0x0A \<notin> set rt'"
  shows "digest_input rt m b = digest_input rt' m' c \<longleftrightarrow> rt = rt' \<and> m = m' \<and> normal v = normal w"
proof
  assume "digest_input rt m b = digest_input rt' m' c"
  with digest_input_inject assms(3,4) have "rt = rt'" "m = m'" "b = c" by blast+
  moreover have "normal v = normal w"
    using bytes_prefix [of "normal v" "normal w" "[]" "[]"] Encode_normal [OF assms(1)] Encode_normal [OF assms(2)] \<open>b = c\<close>
    by (simp add: delimited_def)
  ultimately show "rt = rt' \<and> m = m' \<and> normal v = normal w" by simp
next
  assume "rt = rt' \<and> m = m' \<and> normal v = normal w"
  then show "digest_input rt m b = digest_input rt' m' c"
    using Encode_normal [OF assms(1)] Encode_normal [OF assms(2)] by simp
qed

theorem canon_unambiguous_witness:
  "\<exists>b c. Encode (Obj [(''b'', Integer 2), (''a'', Arr [Bool True])]) = Inr b \<and>
     Encode (Obj [(''a'', Arr [Bool True]), (''b'', Number ''2'')]) = Inr c \<and>
     digest_input ''be.a'' 1 b = digest_input ''be.a'' 1 c \<and> digest_input ''be.a'' 1 b \<noteq> digest_input ''be.a'' 2 c"
proof -
  let ?v = "Obj [(''b'', Integer 2), (''a'', Arr [Bool True])]" and ?w = "Obj [(''a'', Arr [Bool True]), (''b'', Number ''2'')]"
  have "\<not> isl (Encode ?v)" "\<not> isl (Encode ?w)" by code_simp+
  then obtain b c where bc: "Encode ?v = Inr b" "Encode ?w = Inr c" by (metis isl_def sum.exhaust)
  have n: "normal ?v = normal ?w" by code_simp
  have l: "CHR 0x0A \<notin> set ''be.a''" by simp
  from canon_unambiguous [OF bc l l] n bc show ?thesis by auto
qed

lemma set_update_insert: "set (AList.update k v al) \<subseteq> insert (k, v) (set al)"
  by (induction al) auto

lemma collect_inv:
  assumes "collect items seen = Inr seen'" "distinct (map fst seen)" "\<forall>(k, v) \<in> set seen. Encode v = Inr k"
  shows "distinct (map fst seen') \<and> (\<forall>(k, v) \<in> set seen'. Encode v = Inr k) \<and>
    Inr ` fst ` set seen' = Inr ` fst ` set seen \<union> Encode ` set items"
  using assms
proof (induction items arbitrary: seen)
  case (Cons it items)
  then obtain b where b: "Encode it = Inr b" and rest: "collect items (AList.update b it seen) = Inr seen'"
    by (auto split: sum.splits)
  have "\<forall>(k, v) \<in> set (AList.update b it seen). Encode v = Inr k"
    using Cons.prems(3) b set_update_insert [of b it seen] by blast
  moreover have "fst ` set (AList.update b it seen) = insert b (fst ` set seen)" by (simp add: dom_update)
  ultimately show ?case using Cons.IH [OF rest] Cons.prems(2) b by (auto simp: distinct_update)
qed simp

text \<open>
  A set is written in one way only: the elements come out in the order of their encodings, each
  encoding once, exactly those of the elements that went in; so two lists with the same elements,
  in any order and with any repetition, are written the same.
\<close>

theorem canon_sorted_set:
  assumes "SortedSet xs = Inr out"
  shows "\<exists>bs. map Encode out = map Inr bs \<and> sorted bs \<and> distinct bs \<and> Inr ` set bs = Encode ` set xs \<and>
    (\<forall>ys out'. SortedSet ys = Inr out' \<and> Encode ` set ys = Encode ` set xs \<longrightarrow> map Encode out' = map Encode out)"
proof -
  have written: "\<exists>bs. map Encode out = map Inr bs \<and> sorted bs \<and> distinct bs \<and> Inr ` set bs = Encode ` set xs"
    if "SortedSet xs = Inr out" for xs out
  proof -
    from that obtain seen where seen: "collect xs [] = Inr seen" "out = map (\<lambda>k. the (map_of seen k)) (sort (map fst seen))"
      by (auto simp: SortedSet_def split: sum.splits)
    from collect_inv [OF seen(1)] have inv: "distinct (map fst seen)" "\<forall>(k, v) \<in> set seen. Encode v = Inr k"
      "Inr ` fst ` set seen = Encode ` set xs" by auto
    have "Encode (the (map_of seen k)) = Inr k" if "k \<in> set (map fst seen)" for k
      using that inv(1,2) by (auto simp: map_of_eq_Some_iff)
    then have "map Encode out = map Inr (sort (map fst seen))" using seen(2) by auto
    with inv show ?thesis by (intro exI [of _ "sort (map fst seen)"]) auto
  qed
  from written [OF assms] obtain bs where bs: "map Encode out = map Inr bs" "sorted bs" "distinct bs" "Inr ` set bs = Encode ` set xs"
    by blast
  have same: "map Encode out' = map Encode out" if "SortedSet ys = Inr out'" "Encode ` set ys = Encode ` set xs" for ys out'
  proof -
    from written [OF that(1)] obtain cs where cs: "map Encode out' = map Inr cs" "sorted cs" "distinct cs" "Inr ` set cs = Encode ` set ys"
      by blast
    from cs(4) bs(4) that(2) have "(Inr :: _ \<Rightarrow> canon_error + string) ` set cs = Inr ` set bs" by simp
    then have "set cs = set bs" by (simp add: inj_image_eq_iff)
    with bs(2,3) cs(2,3) have "cs = bs" by (simp add: sorted_distinct_set_unique)
    with bs(1) cs(1) show ?thesis by simp
  qed
  show ?thesis
  proof (intro exI conjI allI impI)
    fix ys out'
    assume "SortedSet ys = Inr out' \<and> Encode ` set ys = Encode ` set xs"
    then show "map Encode out' = map Encode out" by (elim conjE) (rule same)
  qed (rule bs)+
qed

theorem canon_sorted_set_witness:
  "\<exists>bs out. SortedSet [Str ''b'', Integer 7, Str ''b''] = Inr out \<and> map Encode out = map Inr bs \<and> length bs = 2 \<and> sorted bs"
proof -
  have "\<not> isl (SortedSet [Str ''b'', Integer 7, Str ''b''])" by code_simp
  then obtain out where out: "SortedSet [Str ''b'', Integer 7, Str ''b''] = Inr out" by (metis isl_def sum.exhaust)
  have "length (case SortedSet [Str ''b'', Integer 7, Str ''b''] of Inl _ \<Rightarrow> [] | Inr o' \<Rightarrow> o') = 2" by code_simp
  with out have "length out = 2" by simp
  with canon_sorted_set [OF out] out show ?thesis by (metis length_map)
qed

end
