(* ===== verification/Authz.thy ===== *)
theory Authz
  imports Canon Errs
begin

text \<open>
  Authorization of records (\<open>authz/defs.go\<close>, \<open>authz/segment.go\<close>, \<open>authz/eval.go\<close>, \<open>authz/sql.go\<close>): the
  declarations of a component, segments and their check, the three-valued decision on one record,
  and the compilation of a subject's segments into a list query. Go maps are association lists. A
  dereferenced nil pointer is \<open>None\<close> of the evaluation and \<open>Panic\<close> of the compilation.

  Parsing and printing of times, decimals and Unicode normalization are parameters (\<open>libs\<close>); decimals
  are rational numbers, so the special values a decimal text may denote are left out.
\<close>

record libs =
  time_of :: "string \<Rightarrow> instant option"
  time_text :: "instant \<Rightarrow> string"
  dec :: "string \<Rightarrow> rat option"
  canon_Decimal :: "string \<Rightarrow> canon_error + string"
  canon_Text :: "string \<Rightarrow> string"
  Sanitize :: "string list \<Rightarrow> string"

section \<open>Declarations\<close>

abbreviation (input) ValueSet :: string where "ValueSet \<equiv> ''value_set''"
abbreviation (input) OrgTree :: string where "OrgTree \<equiv> ''org_tree''"
abbreviation (input) Principal :: string where "Principal \<equiv> ''principal''"
abbreviation (input) Amount :: string where "Amount \<equiv> ''amount''"
abbreviation (input) Ordinary :: string where "Ordinary \<equiv> ''ordinary''"
abbreviation (input) Restricted :: string where "Restricted \<equiv> ''restricted''"
abbreviation (input) Secret :: string where "Secret \<equiv> ''secret''"
abbreviation (input) LocalColumn :: string where "LocalColumn \<equiv> ''local_column''"
abbreviation (input) LocalProjection :: string where "LocalProjection \<equiv> ''local_projection''"
abbreviation (input) NotPushdownable :: string where "NotPushdownable \<equiv> ''not_pushdownable''"

record Dimension =
  d_Kind :: string
  d_Column :: string
  d_PrincipalRole :: string
  d_CurrencyColumn :: string
  d_Pushdown :: string
  d_ProjectionWatermark :: string

record Field =
  fd_Class :: string
  fd_ReadKey :: string
  fd_WriteKey :: string
  fd_DerivedFrom :: "string list"
  fd_Queryable :: "string list"

record Resource =
  r_Type :: string
  r_ViewOperation :: string
  r_Dimensions :: "(string \<times> Dimension) list option"
  r_Fields :: "(string \<times> Field) list"

record Operation =
  o_Key :: string
  o_ResourceType :: string
  o_Purpose :: string
  o_RiskClass :: string
  o_SideEffects :: "string list"
  o_Audit :: bool
  o_StrictAudit :: bool
  o_MinimumPath :: string
  o_RequiresAppointment :: bool
  o_Delegable :: bool
  o_ImpersonationAllowed :: bool
  o_TighteningOnly :: bool
  o_OutputReadOperation :: string
  o_SelfReviewRule :: string

record Definitions =
  ds_Component :: string
  ds_Resources :: "Resource list"
  ds_Operations :: "Operation list"

text \<open>A nil map of dimensions reads as an empty one.\<close>

definition dimensions :: "Resource \<Rightarrow> (string \<times> Dimension) list" where
  "dimensions r = (case r_Dimensions r of Some ds \<Rightarrow> ds | None \<Rightarrow> [])"

definition keySet :: "string list \<Rightarrow> any_value list" where
  "keySet keys = map Str (remdups (sort keys))"

definition key_first :: "char \<Rightarrow> bool" where
  "key_first c \<longleftrightarrow> c \<in> set ''abcdefghijklmnopqrstuvwxyz''"

definition key_part :: "string \<Rightarrow> bool" where
  "key_part p \<longleftrightarrow> p \<noteq> [] \<and> key_first (hd p) \<and> list_all (\<lambda>c. key_first c \<or> is_digit c \<or> c = CHR ''_'') p"

definition keyRe :: "string \<Rightarrow> bool" where
  "keyRe s = list_all key_part (split_on (CHR ''.'') s)"

text \<open>A string in Go syntax, as \<open>%q\<close> writes ASCII text.\<close>

definition quoted_char :: "char \<Rightarrow> string" where
  "quoted_char c =
     (if c = quote \<or> c = backslash then [backslash, c]
      else if c = CHR 0x07 then [backslash, CHR ''a''] else if c = CHR 0x08 then [backslash, CHR ''b'']
      else if c = CHR 0x09 then [backslash, CHR ''t''] else if c = CHR 0x0A then [backslash, CHR ''n'']
      else if c = CHR 0x0B then [backslash, CHR ''v''] else if c = CHR 0x0C then [backslash, CHR ''f'']
      else if c = CHR 0x0D then [backslash, CHR ''r'']
      else if (of_char c :: nat) < 0x20 \<or> (of_char c :: nat) = 0x7F
      then [backslash, CHR ''x'', hex_digit (of_char c div 16), hex_digit (of_char c mod 16)]
      else [c])"

definition go_quoted :: "string \<Rightarrow> string" where
  "go_quoted s = quote # concat (map quoted_char s) @ [quote]"

definition purposes :: "string list" where
  "purposes = [''read'', ''special_read'', ''export'', ''action'', ''create'', ''manage'']"
definition paths :: "string list" where
  "paths = [''default'', ''strict_acceptance'', ''strict_barrier'']"
definition sideEffects :: "string list" where
  "sideEffects = [''business_write'', ''external_command'', ''job_or_subscription'', ''file_capability'', ''security_change'', ''notification'']"
definition queryUses :: "string list" where
  "queryUses = [''filter'', ''sort'', ''group'', ''aggregate'']"

definition dimension_problems :: "string \<Rightarrow> string \<times> Dimension \<Rightarrow> string list" where
  "dimension_problems typ = (\<lambda>(name, dn).
     (let at' = typ @ ''.'' @ name
      in if d_Kind dn \<notin> {ValueSet, OrgTree, Principal, Amount} then [at' @ '': dimension kind '' @ go_quoted (d_Kind dn)]
         else if d_Column dn = [] then [at' @ '': no column'']
         else if d_Kind dn = Amount \<and> d_CurrencyColumn dn = [] then [at' @ '': an amount needs its currency column'']
         else if d_Pushdown dn \<notin> {[], LocalColumn, LocalProjection, NotPushdownable} then [at' @ '': pushdown '' @ go_quoted (d_Pushdown dn)]
         else if d_Pushdown dn = LocalProjection \<and> d_ProjectionWatermark dn = [] then [at' @ '': a local projection needs its watermark domain'']
         else []))"

definition field_problems :: "string \<Rightarrow> string \<times> Field \<Rightarrow> string list" where
  "field_problems typ = (\<lambda>(name, f).
     (let at' = typ @ ''.'' @ name
      in (if fd_Class f \<notin> {Ordinary, Restricted, Secret}
          then [at' @ '': field class '' @ go_quoted (fd_Class f) @ '' (every field is classified)''] else []) @
         (if fd_Class f = Restricted \<and> fd_ReadKey f = [] then [at' @ '': a restricted field needs its read key''] else []) @
         map (\<lambda>q. at' @ '': query use '' @ go_quoted q) (filter (\<lambda>q. q \<notin> set queryUses) (fd_Queryable f))))"

definition resource_problems :: "Resource \<Rightarrow> string list" where
  "resource_problems r =
     (if keyRe (r_Type r) then [] else [''resource '' @ go_quoted (r_Type r) @ '': not a registry key'']) @
     (if r_Dimensions r = None then [r_Type r @ '': dimensions must be declared (an empty map when there are none)''] else []) @
     concat (map (dimension_problems (r_Type r)) (dimensions r)) @ concat (map (field_problems (r_Type r)) (r_Fields r))"

definition operation_problems :: "Resource list \<Rightarrow> Operation \<Rightarrow> string list" where
  "operation_problems rs o' =
     (if keyRe (o_Key o') then [] else [''operation '' @ go_quoted (o_Key o') @ '': not a registry key'']) @
     (if o_ResourceType o' \<in> r_Type ` set rs then [] else [o_Key o' @ '': resource type '' @ o_ResourceType o' @ '' is not declared'']) @
     (if o_RiskClass o' = ''low'' \<or> o_RiskClass o' = ''high'' then [] else [o_Key o' @ '': risk class must be low or high (never assumed low)'']) @
     (if o_Purpose o' \<in> set purposes then [] else [o_Key o' @ '': purpose '' @ go_quoted (o_Purpose o')]) @
     (if o_MinimumPath o' \<noteq> [] \<and> o_MinimumPath o' \<notin> set paths then [o_Key o' @ '': minimum path '' @ go_quoted (o_MinimumPath o')] else []) @
     map (\<lambda>e. o_Key o' @ '': side effect '' @ go_quoted e) (filter (\<lambda>e. e \<notin> set sideEffects) (o_SideEffects o')) @
     (if o_StrictAudit o' \<and> o_Purpose o' \<notin> {''read'', ''special_read'', ''export''}
      then [o_Key o' @ '': the strict audit tier is a sensitive read's or an export's (purpose '' @ o_Purpose o' @ '')''] else []) @
     (if o_ImpersonationAllowed o' \<and> o_SideEffects o' \<noteq> []
      then [o_Key o' @ '': an operation with side effects is never allowed under impersonation''] else []) @
     (if o_TighteningOnly o' \<and> (o_Purpose o' \<noteq> ''manage'' \<or> o_SideEffects o' \<noteq> [''security_change''])
      then [o_Key o' @ '': only a manage operation whose only side effect is security_change can be tightening only''] else [])"

fun declared_twice :: "string list \<Rightarrow> Operation list \<Rightarrow> string list" where
  "declared_twice seen [] = []"
| "declared_twice seen (o' # os) =
     (if o_Key o' \<in> set seen then [o_Key o' @ '': declared twice''] else []) @ declared_twice (o_Key o' # seen) os"

text \<open>The last declaration of a key is the one that is indexed.\<close>

definition find_Operation :: "Definitions \<Rightarrow> string \<Rightarrow> Operation option" where
  "find_Operation d key = find (\<lambda>o'. o_Key o' = key) (rev (ds_Operations d))"

definition find_Resource :: "Definitions \<Rightarrow> string \<Rightarrow> Resource option" where
  "find_Resource d typ = find (\<lambda>r. r_Type r = typ) (rev (ds_Resources d))"

definition view_problems :: "Definitions \<Rightarrow> Resource \<Rightarrow> string list" where
  "view_problems d r =
     (case find_Operation d (r_ViewOperation r) of
        Some o' \<Rightarrow> if o_ResourceType o' = r_Type r then []
                   else [r_Type r @ '': its view operation '' @ r_ViewOperation r @ '' is not declared for it'']
      | None \<Rightarrow> [r_Type r @ '': its view operation '' @ r_ViewOperation r @ '' is not declared for it''])"

fun semicolon_separated :: "string list \<Rightarrow> string" where
  "semicolon_separated [] = []"
| "semicolon_separated [x] = x"
| "semicolon_separated (x # y # zs) = x @ ''; '' @ semicolon_separated (y # zs)"

definition Validate :: "Definitions \<Rightarrow> string option" where
  "Validate d =
     (let problems = concat (map resource_problems (ds_Resources d)) @
                     concat (map (operation_problems (ds_Resources d)) (ds_Operations d)) @
                     declared_twice [] (ds_Operations d) @
                     concat (map (view_problems d) (ds_Resources d))
      in if problems = [] then None else Some (''authorization declarations: '' @ semicolon_separated (sort problems)))"

text \<open>The definitions as security records.\<close>

definition optional_member :: "string \<Rightarrow> string \<Rightarrow> (string \<times> any_value) list" where
  "optional_member k v = (if v = [] then [] else [(k, Str v)])"

definition or_default :: "string \<Rightarrow> string \<Rightarrow> string" where
  "or_default v d = (if v = [] then d else v)"

definition Dimension_Record :: "Dimension \<Rightarrow> any_value" where
  "Dimension_Record d =
     Obj ([(''kind'', Str (d_Kind d)), (''column'', Str (d_Column d)), (''pushdown'', Str (or_default (d_Pushdown d) LocalColumn))] @
          optional_member ''principal_role'' (d_PrincipalRole d) @ optional_member ''currency_column'' (d_CurrencyColumn d) @
          optional_member ''projection_watermark'' (d_ProjectionWatermark d))"

definition Field_Record :: "Field \<Rightarrow> any_value" where
  "Field_Record f =
     Obj ([(''class'', Str (fd_Class f))] @ optional_member ''read_key'' (fd_ReadKey f) @ optional_member ''write_key'' (fd_WriteKey f) @
          (if fd_DerivedFrom f = [] then [] else [(''derived_from'', Arr (keySet (fd_DerivedFrom f)))]) @
          (if fd_Queryable f = [] then [] else [(''queryable'', Arr (keySet (fd_Queryable f)))]))"

definition Resource_Record :: "Resource \<Rightarrow> any_value" where
  "Resource_Record r =
     Obj [(''type'', Str (r_Type r)), (''view_operation'', Str (r_ViewOperation r)),
          (''dimensions'', Obj (map (\<lambda>(n, d). (n, Dimension_Record d)) (dimensions r))),
          (''fields'', Obj (map (\<lambda>(n, f). (n, Field_Record f)) (r_Fields r)))]"

definition Resource_Digest :: "Resource \<Rightarrow> canon_error + string" where
  "Resource_Digest r = Digest ''be.security.resource_definition'' 1 (Resource_Record r)"

definition Operation_Record :: "Operation \<Rightarrow> any_value" where
  "Operation_Record o' =
     Obj ([(''key'', Str (o_Key o')), (''resource_type'', Str (o_ResourceType o')), (''purpose'', Str (o_Purpose o')),
           (''risk_class'', Str (o_RiskClass o')), (''minimum_path'', Str (or_default (o_MinimumPath o') ''default'')),
           (''side_effects'', Arr (keySet (o_SideEffects o'))), (''requires_appointment'', Bool (o_RequiresAppointment o')),
           (''delegable'', Bool (o_Delegable o')), (''impersonation_allowed'', Bool (o_ImpersonationAllowed o')),
           (''audit'', Str (if o_StrictAudit o' then ''strict'' else if o_Audit o' then ''required'' else ''none''))] @
          (if o_TighteningOnly o' then [(''tightening_only'', Bool True)] else []) @
          optional_member ''output_read_operation'' (o_OutputReadOperation o') @ optional_member ''self_review_rule'' (o_SelfReviewRule o'))"

section \<open>Segments\<close>

record TreeItem =
  t_Path :: string
  t_Mode :: string

record Atom =
  a_Kind :: string
  a_Values :: "string list"
  a_Items :: "TreeItem list"
  a_Currency :: string
  a_Lo :: "string option"
  a_LoClosed :: "bool option"
  a_Hi :: "string option"
  a_HiClosed :: "bool option"

record Window =
  v_From :: string
  v_Until :: string

record Segment =
  s_ResourceType :: string
  s_Operation :: string
  s_Atoms :: "(string \<times> Atom) list"
  s_ReadFields :: "string list"
  s_WriteFields :: "string list"
  s_Valid :: Window
  s_Binding :: string
  s_Source :: string
  s_Definition :: "(string \<times> any_value) list option"

definition ActiveAt :: "libs \<Rightarrow> Segment \<Rightarrow> instant \<Rightarrow> bool" where
  "ActiveAt lib s t =
     (case time_of lib (v_From (s_Valid s)) of
        None \<Rightarrow> False
      | Some from' \<Rightarrow>
          if t < from' then False
          else if v_Until (s_Valid s) = [] then True
          else (case time_of lib (v_Until (s_Valid s)) of None \<Rightarrow> False | Some until \<Rightarrow> t < until))"

definition atom_problem :: "Resource \<Rightarrow> string \<Rightarrow> string \<times> Atom \<Rightarrow> string option" where
  "atom_problem r op = (\<lambda>(dn, a).
     (let for = ''segment for '' @ op @ '': ''
      in case map_of (dimensions r) dn of
           None \<Rightarrow> Some (for @ ''dimension '' @ dn @ '' is not declared'')
         | Some d \<Rightarrow>
             if a_Kind a = ''all'' \<or> a_Kind a = ''in'' then None
             else if a_Kind a = ''tree'' then (if d_Kind d \<noteq> OrgTree then Some (for @ ''a tree atom on '' @ dn) else None)
             else if a_Kind a = ''self'' then (if d_Kind d \<noteq> Principal then Some (for @ ''self on '' @ dn) else None)
             else if a_Kind a = ''interval'' then
               (if d_Kind d \<noteq> Amount \<or> (a_Lo a = None \<and> a_Hi a = None) \<or> (a_Lo a \<noteq> None) \<noteq> (a_LoClosed a \<noteq> None) \<or>
                   (a_Hi a \<noteq> None) \<noteq> (a_HiClosed a \<noteq> None)
                then Some (for @ ''interval on '' @ dn) else None)
             else Some (for @ ''atom kind '' @ go_quoted (a_Kind a) @ '' is not understood'')))"

text \<open>The first problem, in the order of the lists.\<close>

definition Check :: "Segment \<Rightarrow> Resource \<Rightarrow> string option" where
  "Check s r =
     (if length (s_Atoms s) \<noteq> length (dimensions r)
      then Some (''segment for '' @ s_Operation s @ '': '' @ FormatInt (int (length (s_Atoms s))) @ '' atoms for '' @
                 FormatInt (int (length (dimensions r))) @ '' dimensions'')
      else case List.map_filter (atom_problem r (s_Operation s)) (s_Atoms s) of
             p # _ \<Rightarrow> Some p
           | [] \<Rightarrow>
               (case filter (\<lambda>f. f \<notin> set (s_ReadFields s)) (s_WriteFields s) of
                  f # _ \<Rightarrow> Some (''segment for '' @ s_Operation s @ '': field '' @ f @ '' writable but not readable'')
                | [] \<Rightarrow> None))"

text \<open>The normalized form and its digest.\<close>

datatype canonical_error = NotCanonical canon_error | NilBound

definition canonical :: "canon_error + 'a \<Rightarrow> canonical_error + 'a" where
  "canonical x = (case x of Inl e \<Rightarrow> Inl (NotCanonical e) | Inr y \<Rightarrow> Inr y)"

definition canon_Instant :: "libs \<Rightarrow> string \<Rightarrow> canon_error + string" where
  "canon_Instant lib s = (case time_of lib s of None \<Rightarrow> Inl (Refused (''instant '' @ go_quoted s)) | Some t \<Rightarrow> Inr (time_text lib t))"

definition bound_members :: "libs \<Rightarrow> string \<Rightarrow> string option \<Rightarrow> bool option \<Rightarrow> canonical_error + (string \<times> any_value) list" where
  "bound_members lib name v cl =
     (case v of
        None \<Rightarrow> Inr []
      | Some t \<Rightarrow>
          (case canonical (canon_Decimal lib t) of
             Inl e \<Rightarrow> Inl e
           | Inr d \<Rightarrow>
               (case cl of
                  None \<Rightarrow> Inl NilBound
                | Some b \<Rightarrow> Inr [(name, Str d), (name @ ''_closed'', Bool b)])))"

definition atom_members :: "libs \<Rightarrow> Atom \<Rightarrow> canonical_error + (string \<times> any_value) list" where
  "atom_members lib a =
     (if a_Kind a = ''in'' then
        (case canonical (SortedSet (map (\<lambda>v. Str (canon_Text lib v)) (a_Values a))) of Inl e \<Rightarrow> Inl e | Inr vs \<Rightarrow> Inr [(''values'', Arr vs)])
      else if a_Kind a = ''tree'' then
        (case canonical (SortedSet (map (\<lambda>it. Obj [(''path'', Str (t_Path it)), (''mode'', Str (t_Mode it))]) (a_Items a))) of
           Inl e \<Rightarrow> Inl e | Inr vs \<Rightarrow> Inr [(''items'', Arr vs)])
      else if a_Kind a = ''interval'' then
        (case bound_members lib ''lo'' (a_Lo a) (a_LoClosed a) of
           Inl e \<Rightarrow> Inl e
         | Inr lo \<Rightarrow>
             (case bound_members lib ''hi'' (a_Hi a) (a_HiClosed a) of
                Inl e \<Rightarrow> Inl e
              | Inr hi \<Rightarrow> Inr ([(''currency'', Str (a_Currency a))] @ lo @ hi)))
      else Inr [])"

definition Canonical :: "libs \<Rightarrow> Segment \<Rightarrow> string \<Rightarrow> canonical_error + any_value" where
  "Canonical lib s resourceType =
     (case first_error (map (\<lambda>(dn, a). case atom_members lib a of
                                Inl e \<Rightarrow> Inl e | Inr ms \<Rightarrow> Inr (dn, Obj ((''kind'', Str (a_Kind a)) # ms))) (s_Atoms s)) of
        Inl e \<Rightarrow> Inl e
      | Inr atoms \<Rightarrow>
     (case canonical (SortedSet (map Str (s_ReadFields s))) of
        Inl e \<Rightarrow> Inl e
      | Inr read \<Rightarrow>
     (case canonical (SortedSet (map Str (s_WriteFields s))) of
        Inl e \<Rightarrow> Inl e
      | Inr wr \<Rightarrow>
     (case canonical (canon_Instant lib (v_From (s_Valid s))) of
        Inl e \<Rightarrow> Inl e
      | Inr from' \<Rightarrow>
     (case (if v_Until (s_Valid s) = [] then Inr [] else canonical (map_sum (\<lambda>e. e) (\<lambda>t. [(''until'', Str t)]) (canon_Instant lib (v_Until (s_Valid s))))) of
        Inl e \<Rightarrow> Inl e
      | Inr until \<Rightarrow>
          Inr (Obj ([(''operation'', Str (s_Operation s)), (''atoms'', Obj atoms), (''read_fields'', Arr read), (''write_fields'', Arr wr),
                     (''valid'', Obj ((''from'', Str from') # until))] @
                    optional_member ''resource_type'' resourceType @ optional_member ''binding'' (s_Binding s) @
                    optional_member ''source'' (s_Source s) @
                    (case s_Definition s of None \<Rightarrow> [] | Some def \<Rightarrow> [(''definition'', Obj def)]))))))))"

definition Segment_Digest :: "libs \<Rightarrow> Segment \<Rightarrow> canonical_error + string" where
  "Segment_Digest lib s =
     (case Canonical lib s (s_ResourceType s) of Inl e \<Rightarrow> Inl e | Inr c \<Rightarrow> canonical (Digest ''be.security.segment'' 1 c))"

section \<open>The decision on one record\<close>

datatype Tri = TriFalse | TriTrue | TriUnknown

record Fact =
  f_State :: string
  f_Value :: string
  f_Currency :: string

definition Value :: "string \<Rightarrow> Fact" where
  "Value v = \<lparr>f_State = ''value'', f_Value = v, f_Currency = []\<rparr>"

definition Money :: "string \<Rightarrow> string \<Rightarrow> Fact" where
  "Money amount currency = \<lparr>f_State = ''value'', f_Value = amount, f_Currency = currency\<rparr>"

definition NullFact :: Fact where
  "NullFact = \<lparr>f_State = ''null'', f_Value = [], f_Currency = []\<rparr>"

definition Unobtained :: Fact where
  "Unobtained = \<lparr>f_State = ''unobtained'', f_Value = [], f_Currency = []\<rparr>"

definition no_Fact :: Fact where
  "no_Fact = \<lparr>f_State = [], f_Value = [], f_Currency = []\<rparr>"

type_synonym Facts = "(string \<times> Fact) list"

definition fact_of :: "Facts \<Rightarrow> string \<Rightarrow> Fact" where
  "fact_of facts dn = (case map_of facts dn of Some f \<Rightarrow> f | None \<Rightarrow> no_Fact)"

text \<open>Whether an amount lies on the wrong side of a bound; \<open>None\<close> of the outer option is a nil dereference.\<close>

definition beyond :: "libs \<Rightarrow> (rat \<Rightarrow> rat \<Rightarrow> bool) \<Rightarrow> rat \<Rightarrow> string option \<Rightarrow> bool option \<Rightarrow> Tri option" where
  "beyond lib less' amount bound cl =
     (case bound of
        None \<Rightarrow> Some TriFalse
      | Some t \<Rightarrow>
          (case dec lib t of
             None \<Rightarrow> Some TriUnknown
           | Some b \<Rightarrow>
               if less' amount b then Some TriTrue
               else if amount = b then (case cl of None \<Rightarrow> None | Some c \<Rightarrow> Some (if c then TriFalse else TriTrue))
               else Some TriFalse))"

definition interval :: "libs \<Rightarrow> Atom \<Rightarrow> Fact \<Rightarrow> Tri option" where
  "interval lib a f =
     (if f_Currency f \<noteq> a_Currency a then Some TriFalse
      else case dec lib (f_Value f) of
        None \<Rightarrow> Some TriUnknown
      | Some amount \<Rightarrow>
          (case beyond lib (<) amount (a_Lo a) (a_LoClosed a) of
             None \<Rightarrow> None
           | Some TriTrue \<Rightarrow> Some TriFalse
           | Some TriUnknown \<Rightarrow> Some TriUnknown
           | Some TriFalse \<Rightarrow>
               (case beyond lib (>) amount (a_Hi a) (a_HiClosed a) of
                  None \<Rightarrow> None
                | Some TriTrue \<Rightarrow> Some TriFalse
                | Some TriUnknown \<Rightarrow> Some TriUnknown
                | Some TriFalse \<Rightarrow> Some TriTrue)))"

definition tri :: "bool \<Rightarrow> Tri" where
  "tri b = (if b then TriTrue else TriFalse)"

definition in_item :: "string \<Rightarrow> TreeItem \<Rightarrow> bool" where
  "in_item v it \<longleftrightarrow> v = t_Path it \<or> t_Mode it = ''subtree'' \<and> has_prefix v (t_Path it @ ''/'')"

definition atom :: "libs \<Rightarrow> Atom \<Rightarrow> Fact \<Rightarrow> string \<Rightarrow> Tri option" where
  "atom lib a f who =
     (if a_Kind a = ''all'' then Some TriTrue
      else if f_State f = ''unobtained'' \<or> f_State f = [] then Some TriUnknown
      else if f_State f = ''null'' then Some TriFalse
      else if a_Kind a = ''in'' then Some (tri (f_Value f \<in> set (a_Values a)))
      else if a_Kind a = ''self'' then Some (tri (f_Value f = who))
      else if a_Kind a = ''tree'' then
        Some (tri (f_Value f \<noteq> [] \<and> list_ex (in_item (f_Value f)) (a_Items a)))
      else if a_Kind a = ''interval'' then interval lib a f
      else Some TriUnknown)"

fun atoms_loop :: "libs \<Rightarrow> Facts \<Rightarrow> string \<Rightarrow> Tri \<Rightarrow> (string \<times> Atom) list \<Rightarrow> Tri option" where
  "atoms_loop lib facts who out [] = Some out"
| "atoms_loop lib facts who out ((dn, a) # rest) =
     (case atom lib a (fact_of facts dn) who of
        None \<Rightarrow> None
      | Some TriFalse \<Rightarrow> Some TriFalse
      | Some TriUnknown \<Rightarrow> atoms_loop lib facts who TriUnknown rest
      | Some TriTrue \<Rightarrow> atoms_loop lib facts who out rest)"

definition segment :: "libs \<Rightarrow> Segment \<Rightarrow> Facts \<Rightarrow> string \<Rightarrow> instant \<Rightarrow> Tri option" where
  "segment lib s facts who t =
     (if \<not> ActiveAt lib s t then Some TriFalse else atoms_loop lib facts who TriTrue (s_Atoms s))"

fun entitled_loop ::
  "libs \<Rightarrow> string \<Rightarrow> Facts \<Rightarrow> string \<Rightarrow> instant \<Rightarrow> Tri \<times> string list \<Rightarrow> Segment list \<Rightarrow> (Tri \<times> string list) option" where
  "entitled_loop lib op facts who t acc [] = Some acc"
| "entitled_loop lib op facts who t (res, fnames) (s # segs) =
     (if s_Operation s \<noteq> op then entitled_loop lib op facts who t (res, fnames) segs
      else case segment lib s facts who t of
        None \<Rightarrow> None
      | Some TriTrue \<Rightarrow> entitled_loop lib op facts who t (TriTrue, fnames @ s_ReadFields s) segs
      | Some TriUnknown \<Rightarrow>
          entitled_loop lib op facts who t (if res = TriFalse then TriUnknown else res, fnames) segs
      | Some TriFalse \<Rightarrow> entitled_loop lib op facts who t (res, fnames) segs)"

definition entitled :: "libs \<Rightarrow> Segment list \<Rightarrow> string \<Rightarrow> Facts \<Rightarrow> string \<Rightarrow> instant \<Rightarrow> (Tri \<times> string list) option" where
  "entitled lib segs op facts who t = entitled_loop lib op facts who t (TriFalse, []) segs"

record Decision =
  Visible :: Tri
  Action :: Tri
  Fields :: "string list"

definition tri_and :: "Tri \<Rightarrow> Tri \<Rightarrow> Tri" where
  "tri_and a b =
     (if a = TriFalse \<or> b = TriFalse then TriFalse else if a = TriUnknown \<or> b = TriUnknown then TriUnknown else TriTrue)"

definition outputs :: "Resource \<Rightarrow> string \<Rightarrow> bool" where
  "outputs r f = (case map_of (r_Fields r) f of None \<Rightarrow> False | Some fd \<Rightarrow> fd_Class fd \<noteq> Secret)"

definition Evaluate ::
  "libs \<Rightarrow> Resource \<Rightarrow> Segment list \<Rightarrow> string \<Rightarrow> Facts \<Rightarrow> string \<Rightarrow> instant \<Rightarrow> Decision option" where
  "Evaluate lib r segs op facts who t =
     (case entitled lib segs (r_ViewOperation r) facts who t of
        None \<Rightarrow> None
      | Some (visible, fnames) \<Rightarrow>
          (case (if op \<noteq> r_ViewOperation r
                 then map_option (\<lambda>(act, fs). (tri_and visible act, fs)) (entitled lib segs op facts who t)
                 else Some (visible, fnames)) of
             None \<Rightarrow> None
           | Some (act, fs) \<Rightarrow>
               Some \<lparr>Visible = visible, Action = act,
                     Fields = (if visible = TriTrue then sort (remdups (filter (outputs r) fs)) else [])\<rparr>))"

definition Decision_Err :: "Decision \<Rightarrow> Error option" where
  "Decision_Err d =
     (if Visible d = TriFalse then Some (New ReasonNotFound ''not found'')
      else if Action d = TriFalse then Some (New ReasonPermissionDenied ''not allowed'')
      else if Visible d = TriUnknown \<or> Action d = TriUnknown
      then Some (New ReasonAuthorizationUnprovable ''the authorization cannot be proven right now'')
      else None)"

end
