(* ===== verification/Authz_Sql.thy ===== *)
theory Authz_Sql
  imports Authz
begin

text \<open>
  The compilation of a subject's segments into a list query (\<open>authz/sql.go\<close>). The compiler builds text;
  here it builds the condition as a tree, and \<open>render\<close> gives the text of the tree. A placeholder
  carries its number and the argument it is bound to. The meaning of a condition on a row is that
  of PostgreSQL: three-valued, with \<open>None\<close> for NULL.
\<close>

section \<open>Conditions\<close>

datatype sql_arg = ArgText string | ArgTexts "string list"

datatype sql =
    SqlTrue
  | SqlFalse
  | SqlEqAny string nat "string list"
  | SqlEq string nat string
  | SqlEqOrLike string nat string nat string
  | SqlNotNull string
  | SqlCompare string string nat string
  | SqlAnd "sql list"
  | SqlOr "sql list"
  | SqlBoth sql sql
  | SqlCoalesceFalse sql

definition placeholder :: "nat \<Rightarrow> string" where
  "placeholder n = ''$'' @ FormatInt (int n)"

fun joined :: "string \<Rightarrow> string list \<Rightarrow> string" where
  "joined sep [] = []"
| "joined sep [x] = x"
| "joined sep (x # y # zs) = x @ sep @ joined sep (y # zs)"

definition col :: "libs \<Rightarrow> string \<Rightarrow> string \<Rightarrow> string" where
  "col lib alias name = (if alias = [] then Sanitize lib [name] else Sanitize lib [alias, name])"

fun render :: "libs \<Rightarrow> string \<Rightarrow> sql \<Rightarrow> string" where
  "render lib alias SqlTrue = ''TRUE''"
| "render lib alias SqlFalse = ''FALSE''"
| "render lib alias (SqlEqAny c n vs) = col lib alias c @ '' = ANY('' @ placeholder n @ '')''"
| "render lib alias (SqlEq c n v) = col lib alias c @ '' = '' @ placeholder n"
| "render lib alias (SqlEqOrLike c n v m p) =
     ''('' @ col lib alias c @ '' = '' @ placeholder n @ '' OR '' @ col lib alias c @ '' LIKE '' @ placeholder m @ '' ESCAPE '' @
     [CHR 0x27, backslash, CHR 0x27] @ '')''"
| "render lib alias (SqlNotNull c) = col lib alias c @ '' IS NOT NULL''"
| "render lib alias (SqlCompare c op n v) = col lib alias c @ '' '' @ op @ '' '' @ placeholder n @ ''::numeric''"
| "render lib alias (SqlAnd ps) = ''('' @ joined '' AND '' (map (render lib alias) ps) @ '')''"
| "render lib alias (SqlOr ps) = ''('' @ joined '' OR '' (map (render lib alias) ps) @ '')''"
| "render lib alias (SqlBoth p q) = render lib alias p @ '' AND '' @ render lib alias q"
| "render lib alias (SqlCoalesceFalse p) = ''COALESCE('' @ render lib alias p @ '', FALSE)''"

section \<open>The compiler\<close>

datatype compile_error = Failed Error | FailedDigest canon_error | Panic

text \<open>The arguments collected so far; the first placeholder comes after \<open>argBase\<close>.\<close>

definition add_arg :: "nat \<Rightarrow> sql_arg \<Rightarrow> sql_arg list \<Rightarrow> nat \<times> sql_arg list" where
  "add_arg base v args = (base + length args + 1, args @ [v])"

definition like_escaped :: "char \<Rightarrow> string" where
  "like_escaped c = (if c = backslash \<or> c = CHR ''%'' \<or> c = CHR ''_'' then [backslash, c] else [c])"

definition likeEscape :: "string \<Rightarrow> string" where
  "likeEscape s = concat (map like_escaped s)"

definition not_completable :: "string \<Rightarrow> compile_error" where
  "not_completable why =
     Failed (Wrap (Some (OtherError why)) (New ReasonQueryNotCompletable ''a segment cannot be compiled into the query''))"

fun tree_parts :: "nat \<Rightarrow> string \<Rightarrow> TreeItem list \<Rightarrow> sql_arg list \<Rightarrow> sql list \<times> sql_arg list" where
  "tree_parts base c [] args = ([], args)"
| "tree_parts base c (it # its) args =
     (if t_Mode it = ''subtree'' then
        (let p = likeEscape (t_Path it) @ ''/%'';
             (n, args1) = add_arg base (ArgText (t_Path it)) args;
             (m, args2) = add_arg base (ArgText p) args1;
             (ps, args3) = tree_parts base c its args2
         in (SqlEqOrLike c n (t_Path it) m p # ps, args3))
      else
        (let (n, args1) = add_arg base (ArgText (t_Path it)) args;
             (ps, args2) = tree_parts base c its args1
         in (SqlEq c n (t_Path it) # ps, args2)))"

definition bound_part ::
  "nat \<Rightarrow> string \<Rightarrow> string \<Rightarrow> string \<Rightarrow> string option \<Rightarrow> bool option \<Rightarrow> sql_arg list \<Rightarrow> compile_error + (sql list \<times> sql_arg list)" where
  "bound_part base c open_op closed_op bound cl args =
     (case bound of
        None \<Rightarrow> Inr ([], args)
      | Some v \<Rightarrow>
          (case cl of
             None \<Rightarrow> Inl Panic
           | Some incl \<Rightarrow>
               (case add_arg base (ArgText v) args of
                  (n, args1) \<Rightarrow> Inr ([SqlCompare c (if incl then closed_op else open_op) n v], args1))))"

definition no_Dimension :: Dimension where
  "no_Dimension = \<lparr>d_Kind = [], d_Column = [], d_PrincipalRole = [], d_CurrencyColumn = [], d_Pushdown = [], d_ProjectionWatermark = []\<rparr>"

definition dimension_of :: "Resource \<Rightarrow> string \<Rightarrow> Dimension" where
  "dimension_of r dn = (case map_of (dimensions r) dn of Some d \<Rightarrow> d | None \<Rightarrow> no_Dimension)"

text \<open>The condition of one atom; none for an atom that allows everything.\<close>

definition compile_atom ::
  "Resource \<Rightarrow> string \<Rightarrow> nat \<Rightarrow> string \<Rightarrow> Atom \<Rightarrow> sql_arg list \<Rightarrow> compile_error + (sql option \<times> sql_arg list)" where
  "compile_atom r who base dn a args =
     (let d = dimension_of r dn; c = d_Column d
      in if a_Kind a \<noteq> ''all'' \<and> d_Pushdown d = NotPushdownable
         then Inl (not_completable (''dimension '' @ dn @ '' is not pushdownable''))
         else if a_Kind a = ''all'' then Inr (None, args)
         else if a_Kind a = ''in'' then
           (if a_Values a = [] then Inr (Some SqlFalse, args)
            else case add_arg base (ArgTexts (a_Values a)) args of (n, args1) \<Rightarrow> Inr (Some (SqlEqAny c n (a_Values a)), args1))
         else if a_Kind a = ''self'' then
           (case add_arg base (ArgText who) args of (n, args1) \<Rightarrow> Inr (Some (SqlEq c n who), args1))
         else if a_Kind a = ''tree'' then
           (case tree_parts base c (a_Items a) args of
              (ps, args1) \<Rightarrow> Inr (Some (if ps = [] then SqlFalse else SqlOr ps), args1))
         else if a_Kind a = ''interval'' then
           (case add_arg base (ArgText (a_Currency a)) args of
              (n, args1) \<Rightarrow>
                (case bound_part base c ''>'' ''>='' (a_Lo a) (a_LoClosed a) args1 of
                   Inl e \<Rightarrow> Inl e
                 | Inr (lo, args2) \<Rightarrow>
                     (case bound_part base c ''<'' ''<='' (a_Hi a) (a_HiClosed a) args2 of
                        Inl e \<Rightarrow> Inl e
                      | Inr (hi, args3) \<Rightarrow>
                          Inr (Some (SqlAnd ([SqlNotNull c, SqlEq (d_CurrencyColumn d) n (a_Currency a)] @ lo @ hi)), args3))))
         else Inl (not_completable (''atom kind '' @ go_quoted (a_Kind a) @ '' on '' @ dn)))"

fun compile_atoms ::
  "Resource \<Rightarrow> string \<Rightarrow> nat \<Rightarrow> (string \<times> Atom) list \<Rightarrow> sql_arg list \<Rightarrow> compile_error + (sql list \<times> sql_arg list)" where
  "compile_atoms r who base [] args = Inr ([], args)"
| "compile_atoms r who base ((dn, a) # rest) args =
     (case compile_atom r who base dn a args of
        Inl e \<Rightarrow> Inl e
      | Inr (p, args1) \<Rightarrow>
          (case compile_atoms r who base rest args1 of
             Inl e \<Rightarrow> Inl e
           | Inr (ps, args2) \<Rightarrow> Inr ((case p of None \<Rightarrow> ps | Some q \<Rightarrow> q # ps), args2)))"

definition compile_segment ::
  "Resource \<Rightarrow> string \<Rightarrow> nat \<Rightarrow> Segment \<Rightarrow> sql_arg list \<Rightarrow> compile_error + (sql \<times> sql_arg list)" where
  "compile_segment r who base s args =
     (case compile_atoms r who base (sort_key fst (s_Atoms s)) args of
        Inl e \<Rightarrow> Inl e
      | Inr (ps, args1) \<Rightarrow> Inr (if ps = [] then SqlTrue else SqlAnd ps, args1))"

fun compile_union ::
  "Resource \<Rightarrow> string \<Rightarrow> nat \<Rightarrow> Segment list \<Rightarrow> sql_arg list \<Rightarrow> compile_error + (sql list \<times> sql_arg list)" where
  "compile_union r who base [] args = Inr ([], args)"
| "compile_union r who base (s # segs) args =
     (case compile_segment r who base s args of
        Inl e \<Rightarrow> Inl e
      | Inr (p, args1) \<Rightarrow>
          (case compile_union r who base segs args1 of
             Inl e \<Rightarrow> Inl e
           | Inr (ps, args2) \<Rightarrow> Inr (p # ps, args2)))"

definition orAll :: "sql list \<Rightarrow> sql" where
  "orAll preds = (if preds = [] then SqlFalse else SqlOr preds)"

record Plan =
  p_Where :: sql
  p_Args :: "sql_arg list"
  p_Hits :: "sql list"
  p_Digest :: string
  p_sets :: "string list list"

definition active :: "libs \<Rightarrow> Segment list \<Rightarrow> instant \<Rightarrow> string \<Rightarrow> Segment list" where
  "active lib segs t op = filter (\<lambda>s. s_Operation s = op \<and> ActiveAt lib s t) segs"

definition plan_digest :: "libs \<Rightarrow> Resource \<Rightarrow> string \<Rightarrow> Segment list \<Rightarrow> canonical_error + string" where
  "plan_digest lib r op used =
     (case first_error (map (Segment_Digest lib) used) of
        Inl e \<Rightarrow> Inl e
      | Inr digests \<Rightarrow>
          (case canonical (Resource_Digest r) of
             Inl e \<Rightarrow> Inl e
           | Inr rd \<Rightarrow> Inr (hex_of (take 16 (Sum256 (joined [CHR 0x0A] (sort digests @ [rd, op])))))))"

definition Compile ::
  "libs \<Rightarrow> Resource \<Rightarrow> Segment list \<Rightarrow> string \<Rightarrow> string \<Rightarrow> instant \<Rightarrow> nat \<Rightarrow> compile_error + Plan" where
  "Compile lib r segs op who t base =
     (let view = active lib segs t (r_ViewOperation r)
      in case compile_union r who base view [] of
           Inl e \<Rightarrow> Inl e
         | Inr (viewPreds, args1) \<Rightarrow>
             (case (if op \<noteq> r_ViewOperation r
                    then (case compile_union r who base (active lib segs t op) args1 of
                            Inl e \<Rightarrow> Inl e
                          | Inr (opPreds, args2) \<Rightarrow>
                              Inr (SqlBoth (orAll viewPreds) (orAll opPreds), active lib segs t op, opPreds,
                                   view @ active lib segs t op, args2))
                    else Inr (orAll viewPreds, view, viewPreds, view, args1)) of
                Inl e \<Rightarrow> Inl e
              | Inr (condition, fieldSegs, hitPreds, used, args) \<Rightarrow>
                  (case plan_digest lib r op used of
                     Inl (NotCanonical e) \<Rightarrow> Inl (FailedDigest e)
                   | Inl NilBound \<Rightarrow> Inl Panic
                   | Inr digest \<Rightarrow>
                       Inr \<lparr>p_Where = condition, p_Args = args, p_Hits = map SqlCoalesceFalse hitPreds, p_Digest = digest,
                            p_sets = map (\<lambda>s. filter (outputs r) (s_ReadFields s)) fieldSegs\<rparr>)))"

definition Plan_Fields :: "Plan \<Rightarrow> bool list \<Rightarrow> string list" where
  "Plan_Fields p hits = sort (remdups (concat (map snd (filter fst (zip hits (p_sets p))))))"

definition ReadableWhere :: "Plan \<Rightarrow> string \<Rightarrow> sql" where
  "ReadableWhere p f = orAll (map snd (filter (\<lambda>(set', _). f \<in> set set') (zip (p_sets p) (p_Hits p))))"

definition ReadableEverywhere :: "Plan \<Rightarrow> string \<Rightarrow> bool" where
  "ReadableEverywhere p f \<longleftrightarrow> p_sets p \<noteq> [] \<and> list_all (\<lambda>set'. f \<in> set set') (p_sets p)"

section \<open>What a condition means on a row\<close>

datatype sql_value = SqlNull | SqlText string | SqlNum rat

fun sql_and :: "bool option list \<Rightarrow> bool option" where
  "sql_and bs = (if Some False \<in> set bs then Some False else if None \<in> set bs then None else Some True)"

fun sql_or :: "bool option list \<Rightarrow> bool option" where
  "sql_or bs = (if Some True \<in> set bs then Some True else if None \<in> set bs then None else Some False)"

definition text_test :: "(string \<Rightarrow> bool) \<Rightarrow> sql_value \<Rightarrow> bool option" where
  "text_test test v = (case v of SqlText s \<Rightarrow> Some (test s) | _ \<Rightarrow> None)"

text \<open>The pattern match with a backslash as the escape character.\<close>

fun like :: "string \<Rightarrow> string \<Rightarrow> bool" where
  "like [] s = (s = [])"
| "like (c # p) [] = (c = CHR ''%'' \<and> like p [])"
| "like (c # p) (d # s) =
     (if c = CHR ''%'' then like p (d # s) \<or> like (c # p) s
      else if c = CHR ''_'' then like p s
      else if c = backslash then (case p of [] \<Rightarrow> False | e # p' \<Rightarrow> e = d \<and> like p' s)
      else c = d \<and> like p s)"

definition compares :: "string \<Rightarrow> rat \<Rightarrow> rat \<Rightarrow> bool" where
  "compares op a b =
     (if op = ''>'' then a > b else if op = ''>='' then a \<ge> b else if op = ''<'' then a < b else a \<le> b)"

text \<open>\<open>numeric\<close> is the server's reading of a decimal text.\<close>

fun sql_eval :: "(string \<Rightarrow> rat option) \<Rightarrow> (string \<Rightarrow> sql_value) \<Rightarrow> sql \<Rightarrow> bool option" where
  "sql_eval numeric row SqlTrue = Some True"
| "sql_eval numeric row SqlFalse = Some False"
| "sql_eval numeric row (SqlEqAny c n vs) = text_test (\<lambda>s. s \<in> set vs) (row c)"
| "sql_eval numeric row (SqlEq c n v) = text_test (\<lambda>s. s = v) (row c)"
| "sql_eval numeric row (SqlEqOrLike c n v m p) = sql_or [text_test (\<lambda>s. s = v) (row c), text_test (like p) (row c)]"
| "sql_eval numeric row (SqlNotNull c) = Some (row c \<noteq> SqlNull)"
| "sql_eval numeric row (SqlCompare c op n v) =
     (case (row c, numeric v) of (SqlNum a, Some b) \<Rightarrow> Some (compares op a b) | _ \<Rightarrow> None)"
| "sql_eval numeric row (SqlAnd ps) = sql_and (map (sql_eval numeric row) ps)"
| "sql_eval numeric row (SqlOr ps) = sql_or (map (sql_eval numeric row) ps)"
| "sql_eval numeric row (SqlBoth p q) = sql_and [sql_eval numeric row p, sql_eval numeric row q]"
| "sql_eval numeric row (SqlCoalesceFalse p) = (case sql_eval numeric row p of None \<Rightarrow> Some False | b \<Rightarrow> b)"

end
