(* ===== verification/Authz_Correct.thy ===== *)
theory Authz_Correct
  imports Authz_Sql
begin

text \<open>
  The list query of \<open>Compile\<close> and the decision of \<open>Evaluate\<close> on one record say the same. The first part
  relates a condition on a row to an atom on the fact the row shows; the second lifts this to
  segments and to the union over the segments; the third follows the numbering of the arguments.
\<close>

section \<open>Rows and facts\<close>

text \<open>The columns of a dimension show a fact: NULL for a known null, the value otherwise.\<close>

definition shows_fact :: "libs \<Rightarrow> (string \<Rightarrow> sql_value) \<Rightarrow> Dimension \<Rightarrow> Fact \<Rightarrow> bool" where
  "shows_fact lib row d f \<longleftrightarrow>
     f_State f = ''null'' \<and> row (d_Column d) = SqlNull \<or>
     f_State f = ''value'' \<and>
     (if d_Kind d = Amount
      then dec lib (f_Value f) \<noteq> None \<and> row (d_Column d) = SqlNum (the (dec lib (f_Value f))) \<and>
           row (d_CurrencyColumn d) = SqlText (f_Currency f)
      else row (d_Column d) = SqlText (f_Value f))"

definition row_shows :: "libs \<Rightarrow> Resource \<Rightarrow> Facts \<Rightarrow> (string \<Rightarrow> sql_value) \<Rightarrow> bool" where
  "row_shows lib r facts row \<longleftrightarrow> list_all (\<lambda>(dn, _). shows_fact lib row (dimension_of r dn) (fact_of facts dn)) (dimensions r)"

text \<open>What a checked segment needs beyond its check: values are not matched against amounts, no item of a tree is the empty path, and bounds are decimals.\<close>

definition usable_atom :: "libs \<Rightarrow> Resource \<Rightarrow> string \<times> Atom \<Rightarrow> bool" where
  "usable_atom lib r = (\<lambda>(dn, a).
     (a_Kind a = ''in'' \<longrightarrow> d_Kind (dimension_of r dn) \<noteq> Amount) \<and>
     (a_Kind a = ''tree'' \<longrightarrow> list_all (\<lambda>it. t_Path it \<noteq> []) (a_Items a)) \<and>
     (a_Kind a = ''interval'' \<longrightarrow> pred_option (\<lambda>b. dec lib b \<noteq> None) (a_Lo a) \<and> pred_option (\<lambda>b. dec lib b \<noteq> None) (a_Hi a)))"

definition usable :: "libs \<Rightarrow> Resource \<Rightarrow> Segment \<Rightarrow> bool" where
  "usable lib r s \<longleftrightarrow> Check s r = None \<and> list_all (usable_atom lib r) (s_Atoms s)"

definition sql_holds :: "(string \<Rightarrow> rat option) \<Rightarrow> (string \<Rightarrow> sql_value) \<Rightarrow> sql \<Rightarrow> bool" where
  "sql_holds numeric row c \<longleftrightarrow> sql_eval numeric row c = Some True"

lemma all_true: "Some False \<notin> set bs \<and> None \<notin> set bs \<longleftrightarrow> list_all (\<lambda>b. b = Some True) bs"
proof (induction bs)
  case (Cons b bs)
  then show ?case by (cases b) auto
qed simp

lemma sql_and_true: "sql_and bs = Some True \<longleftrightarrow> list_all (\<lambda>b. b = Some True) bs"
  using all_true [of bs] by auto

lemma sql_or_true: "sql_or bs = Some True \<longleftrightarrow> list_ex (\<lambda>b. b = Some True) bs"
  by (auto simp: list_ex_iff)

lemma sql_holds_simps [simp]:
  "sql_holds numeric row SqlTrue"
  "\<not> sql_holds numeric row SqlFalse"
  "sql_holds numeric row (SqlAnd ps) \<longleftrightarrow> list_all (sql_holds numeric row) ps"
  "sql_holds numeric row (SqlOr ps) \<longleftrightarrow> list_ex (sql_holds numeric row) ps"
  "sql_holds numeric row (SqlBoth p q) \<longleftrightarrow> sql_holds numeric row p \<and> sql_holds numeric row q"
  "sql_holds numeric row (SqlCoalesceFalse p) \<longleftrightarrow> sql_holds numeric row p"
  "sql_holds numeric row (SqlEqOrLike c n v m w) \<longleftrightarrow> (\<exists>s. row c = SqlText s \<and> (s = v \<or> like w s))"
  "sql_holds numeric row (SqlEq c n v) \<longleftrightarrow> row c = SqlText v"
  "sql_holds numeric row (SqlEqAny c n vs) \<longleftrightarrow> (\<exists>s\<in>set vs. row c = SqlText s)"
  "sql_holds numeric row (SqlNotNull c) \<longleftrightarrow> row c \<noteq> SqlNull"
  by (auto simp: sql_holds_def sql_and_true sql_or_true list_all_iff list_ex_iff text_test_def image_iff
      simp del: sql_and.simps sql_or.simps split: option.splits sql_value.splits) metis

lemma sql_holds_orAll [simp]: "sql_holds numeric row (orAll ps) \<longleftrightarrow> list_ex (sql_holds numeric row) ps"
  by (simp add: orAll_def)

section \<open>The pattern of a subtree\<close>

lemma like_percent: "like ''%'' s"
  by (induction s) auto

lemma like_escaped_prefix: "like (likeEscape p @ q) s \<longleftrightarrow> (\<exists>u. s = p @ u \<and> like q u)"
proof (induction p arbitrary: s)
  case Nil
  then show ?case by (simp add: likeEscape_def)
next
  case (Cons c p)
  show ?case
  proof (cases s)
    case Nil
    then show ?thesis by (simp add: likeEscape_def like_escaped_def)
  next
    case (Cons d s')
    then show ?thesis
      using Cons.IH [of s'] by (auto simp: likeEscape_def like_escaped_def)
  qed
qed

lemma like_subtree: "like (likeEscape p @ ''/%'') s \<longleftrightarrow> has_prefix s (p @ ''/'')"
proof -
  have slash: "like ''/%'' u \<longleftrightarrow> (\<exists>w. u = CHR ''/'' # w)" for u
    by (cases u) (auto simp: like_percent)
  show ?thesis
    by (auto simp: like_escaped_prefix slash has_prefix_iff)
qed

section \<open>Atoms\<close>

text \<open>An atom on a fact, decided without reference to a panic or to an unknown result.\<close>

definition over_lo :: "libs \<Rightarrow> rat \<Rightarrow> Atom \<Rightarrow> bool" where
  "over_lo lib x a = (case a_Lo a of None \<Rightarrow> True | Some b \<Rightarrow> if a_LoClosed a = Some True then x \<ge> the (dec lib b) else x > the (dec lib b))"

definition under_hi :: "libs \<Rightarrow> rat \<Rightarrow> Atom \<Rightarrow> bool" where
  "under_hi lib x a = (case a_Hi a of None \<Rightarrow> True | Some b \<Rightarrow> if a_HiClosed a = Some True then x \<le> the (dec lib b) else x < the (dec lib b))"

definition flagged :: "Atom \<Rightarrow> bool" where
  "flagged a \<longleftrightarrow> (a_Lo a \<noteq> None) = (a_LoClosed a \<noteq> None) \<and> (a_Hi a \<noteq> None) = (a_HiClosed a \<noteq> None)"

definition decimal_bounds :: "libs \<Rightarrow> Atom \<Rightarrow> bool" where
  "decimal_bounds lib a \<longleftrightarrow> pred_option (\<lambda>b. dec lib b \<noteq> None) (a_Lo a) \<and> pred_option (\<lambda>b. dec lib b \<noteq> None) (a_Hi a)"

lemma beyond_lo:
  assumes "flagged a" "decimal_bounds lib a"
  shows "beyond lib (<) x (a_Lo a) (a_LoClosed a) = Some (tri (\<not> over_lo lib x a))"
  using assms by (auto simp: beyond_def over_lo_def flagged_def decimal_bounds_def tri_def split: option.splits)

lemma beyond_hi:
  assumes "flagged a" "decimal_bounds lib a"
  shows "beyond lib (>) x (a_Hi a) (a_HiClosed a) = Some (tri (\<not> under_hi lib x a))"
  using assms by (auto simp: beyond_def under_hi_def flagged_def decimal_bounds_def tri_def split: option.splits)

lemma interval_value:
  assumes "flagged a" "decimal_bounds lib a" "dec lib (f_Value f) = Some x"
  shows "interval lib a f = Some (tri (f_Currency f = a_Currency a \<and> over_lo lib x a \<and> under_hi lib x a))"
  using assms by (simp add: interval_def beyond_lo beyond_hi tri_def)

definition reads :: "libs \<Rightarrow> (string \<Rightarrow> rat option) \<Rightarrow> bool" where
  "reads lib numeric \<longleftrightarrow> (\<forall>t x. dec lib t = Some x \<longrightarrow> numeric t = Some x)"

lemma lo_part:
  assumes "bound_part base c ''>'' ''>='' (a_Lo a) (a_LoClosed a) args = Inr (ps, args')"
    and "flagged a" "decimal_bounds lib a" "reads lib numeric" "row c = SqlNum x"
  shows "list_all (sql_holds numeric row) ps \<longleftrightarrow> over_lo lib x a"
  using assms
  by (auto simp: bound_part_def add_arg_def over_lo_def flagged_def decimal_bounds_def reads_def sql_holds_def compares_def
      split: option.splits if_splits)

lemma hi_part:
  assumes "bound_part base c ''<'' ''<='' (a_Hi a) (a_HiClosed a) args = Inr (ps, args')"
    and "flagged a" "decimal_bounds lib a" "reads lib numeric" "row c = SqlNum x"
  shows "list_all (sql_holds numeric row) ps \<longleftrightarrow> under_hi lib x a"
  using assms
  by (auto simp: bound_part_def add_arg_def under_hi_def flagged_def decimal_bounds_def reads_def sql_holds_def compares_def
      split: option.splits if_splits)

lemma tree_parts_holds:
  "tree_parts base c its args = (ps, args') \<Longrightarrow>
   list_ex (sql_holds numeric row) ps \<longleftrightarrow> (\<exists>v. row c = SqlText v \<and> list_ex (in_item v) its)"
proof (induction its arbitrary: args ps args')
  case Nil
  then show ?case by simp
next
  case (Cons it its)
  show ?case
  proof (cases "t_Mode it = ''subtree''")
    case True
    then obtain n m args2 ps' where ps: "ps = SqlEqOrLike c n (t_Path it) m (likeEscape (t_Path it) @ ''/%'') # ps'"
      and rest: "tree_parts base c its args2 = (ps', args')"
      using Cons.prems by (auto simp: add_arg_def Let_def split: prod.splits)
    show ?thesis
      using Cons.IH [OF rest] True by (auto simp: ps like_subtree in_item_def)
  next
    case False
    then obtain n args2 ps' where ps: "ps = SqlEq c n (t_Path it) # ps'"
      and rest: "tree_parts base c its args2 = (ps', args')"
      using Cons.prems by (auto simp: add_arg_def Let_def split: prod.splits)
    show ?thesis
      using Cons.IH [OF rest] False by (auto simp: ps in_item_def)
  qed
qed

text \<open>A condition that is absent holds.\<close>

definition part_holds :: "(string \<Rightarrow> rat option) \<Rightarrow> (string \<Rightarrow> sql_value) \<Rightarrow> sql option \<Rightarrow> bool" where
  "part_holds numeric row p = (case p of None \<Rightarrow> True | Some c \<Rightarrow> sql_holds numeric row c)"

definition atom_fits :: "libs \<Rightarrow> Dimension \<Rightarrow> Atom \<Rightarrow> bool" where
  "atom_fits lib d a \<longleftrightarrow>
     a_Kind a = ''all'' \<or>
     a_Kind a = ''in'' \<and> d_Kind d \<noteq> Amount \<or>
     a_Kind a = ''self'' \<and> d_Kind d \<noteq> Amount \<or>
     a_Kind a = ''tree'' \<and> d_Kind d \<noteq> Amount \<and> list_all (\<lambda>it. t_Path it \<noteq> []) (a_Items a) \<or>
     a_Kind a = ''interval'' \<and> d_Kind d = Amount \<and> flagged a \<and> decimal_bounds lib a"

lemma atom_fitsI:
  assumes "atom_problem r op (dn, a) = None" "usable_atom lib r (dn, a)"
  shows "dn \<in> fst ` set (dimensions r) \<and> atom_fits lib (dimension_of r dn) a"
proof (cases "map_of (dimensions r) dn")
  case None
  with assms show ?thesis by (simp add: atom_problem_def)
next
  case (Some d)
  then have "dn \<in> fst ` set (dimensions r)"
    by (metis domI dom_map_of_conv_image_fst)
  moreover have "atom_fits lib (dimension_of r dn) a"
    using assms Some
    by (auto simp: atom_problem_def usable_atom_def atom_fits_def dimension_of_def flagged_def decimal_bounds_def Let_def
        split: if_splits)
  ultimately show ?thesis ..
qed

lemma empty_path: "list_all (\<lambda>it. t_Path it \<noteq> []) its \<Longrightarrow> \<not> list_ex (in_item []) its"
  by (auto simp: list_all_iff list_ex_iff in_item_def has_prefix_iff)

lemma tree_agrees:
  assumes "compile_atom r who base dn a args = Inr (p, args')" "a_Kind a = ''tree''"
    and "shows_fact lib row (dimension_of r dn) f" "atom_fits lib (dimension_of r dn) a"
  shows "atom lib a f who = Some (tri (part_holds numeric row p))"
proof -
  obtain ps args1 where parts: "tree_parts base (d_Column (dimension_of r dn)) (a_Items a) args = (ps, args1)"
    by force
  then have p: "p = Some (if ps = [] then SqlFalse else SqlOr ps)"
    using assms(1,2) by (auto simp: compile_atom_def Let_def split: if_splits)
  have "part_holds numeric row p \<longleftrightarrow> list_ex (sql_holds numeric row) ps"
    by (simp add: p part_holds_def)
  then show ?thesis
    using assms(2-) tree_parts_holds [OF parts] empty_path [of "a_Items a"]
    by (auto simp: atom_def shows_fact_def atom_fits_def tri_def)
qed

lemma interval_agrees:
  assumes "compile_atom r who base dn a args = Inr (p, args')" "a_Kind a = ''interval''"
    and "shows_fact lib row (dimension_of r dn) f" "atom_fits lib (dimension_of r dn) a" "reads lib numeric"
  shows "atom lib a f who = Some (tri (part_holds numeric row p))"
proof -
  let ?c = "d_Column (dimension_of r dn)" and ?cur = "d_CurrencyColumn (dimension_of r dn)"
  obtain n args1 lo args2 hi where
    lo: "bound_part base ?c ''>'' ''>='' (a_Lo a) (a_LoClosed a) args1 = Inr (lo, args2)"
    and hi: "bound_part base ?c ''<'' ''<='' (a_Hi a) (a_HiClosed a) args2 = Inr (hi, args')"
    and p: "p = Some (SqlAnd ([SqlNotNull ?c, SqlEq ?cur n (a_Currency a)] @ lo @ hi))"
    using assms(1,2) by (auto simp: compile_atom_def Let_def split: if_splits sum.splits prod.splits)
  have fits: "d_Kind (dimension_of r dn) = Amount" "flagged a" "decimal_bounds lib a"
    using assms(2,4) by (simp_all add: atom_fits_def)
  show ?thesis
  proof (cases "f_State f = ''value''")
    case True
    then obtain x where x: "dec lib (f_Value f) = Some x" "row ?c = SqlNum x" "row ?cur = SqlText (f_Currency f)"
      using assms(3) fits by (auto simp: shows_fact_def)
    show ?thesis
      using True assms(2,5) fits x lo_part [where row = row, OF lo fits(2,3) assms(5) x(2)] hi_part [where row = row, OF hi fits(2,3) assms(5) x(2)]
      by (simp add: atom_def interval_value p part_holds_def)
  next
    case False
    then show ?thesis
      using assms(2,3) by (simp add: atom_def shows_fact_def p part_holds_def tri_def)
  qed
qed

lemma atom_agrees:
  assumes "compile_atom r who base dn a args = Inr (p, args')"
    and "shows_fact lib row (dimension_of r dn) f" "atom_fits lib (dimension_of r dn) a" "reads lib numeric"
  shows "atom lib a f who = Some (tri (part_holds numeric row p))"
proof -
  consider "a_Kind a = ''all''" | "a_Kind a = ''in''" | "a_Kind a = ''self''" | "a_Kind a = ''tree''" | "a_Kind a = ''interval''"
    using assms(3) by (auto simp: atom_fits_def)
  then show ?thesis
  proof cases
    case 1
    then show ?thesis using assms(1) by (auto simp: atom_def compile_atom_def part_holds_def tri_def)
  next
    case 2
    then show ?thesis
      using assms
      by (auto simp: atom_def compile_atom_def part_holds_def tri_def add_arg_def shows_fact_def atom_fits_def Let_def
          split: if_splits)
  next
    case 3
    then show ?thesis
      using assms
      by (auto simp: atom_def compile_atom_def part_holds_def tri_def add_arg_def shows_fact_def atom_fits_def Let_def
          split: if_splits)
  next
    case 4
    then show ?thesis using assms tree_agrees by blast
  next
    case 5
    then show ?thesis using assms interval_agrees by blast
  qed
qed

section \<open>Segments and their union\<close>

lemma tri_simps [simp]: "tri b = TriTrue \<longleftrightarrow> b" "tri b = TriFalse \<longleftrightarrow> \<not> b" "tri b \<noteq> TriUnknown"
  by (simp_all add: tri_def)

lemma atoms_loop_decided:
  assumes "\<forall>(dn, a)\<in>set atoms. atom lib a (fact_of facts dn) who = Some (tri (h dn a))"
  shows "atoms_loop lib facts who TriTrue atoms = Some (tri (list_all (\<lambda>(dn, a). h dn a) atoms))"
  using assms by (induction atoms) (auto simp: tri_def split: if_splits)

lemma compile_atoms_parts:
  assumes "compile_atoms r who base atoms args = Inr (ps, args')"
    and "\<And>dn a p args args'. (dn, a) \<in> set atoms \<Longrightarrow> compile_atom r who base dn a args = Inr (p, args') \<Longrightarrow>
           part_holds numeric row p \<longleftrightarrow> h dn a"
  shows "list_all (sql_holds numeric row) ps \<longleftrightarrow> list_all (\<lambda>(dn, a). h dn a) atoms"
  using assms
proof (induction atoms arbitrary: args ps args')
  case Nil
  then show ?case by simp
next
  case (Cons x atoms)
  obtain dn a where x: "x = (dn, a)" by force
  obtain p args1 ps1 where first: "compile_atom r who base dn a args = Inr (p, args1)"
    and rest: "compile_atoms r who base atoms args1 = Inr (ps1, args')"
    and ps: "ps = (case p of None \<Rightarrow> ps1 | Some q \<Rightarrow> q # ps1)"
    using Cons.prems(1) x by (auto split: sum.splits)
  have "part_holds numeric row p \<longleftrightarrow> h dn a"
    using Cons.prems(2) first x by simp
  then show ?case
    using Cons.IH [OF rest] Cons.prems(2) x ps by (auto simp: part_holds_def split: option.splits)
qed

lemma compile_atoms_each:
  "compile_atoms r who base atoms args = Inr (ps, args') \<Longrightarrow> (dn, a) \<in> set atoms \<Longrightarrow>
   \<exists>args1 p args2. compile_atom r who base dn a args1 = Inr (p, args2)"
  by (induction atoms arbitrary: args ps args') (fastforce split: sum.splits)+

definition atoms_fit :: "libs \<Rightarrow> Resource \<Rightarrow> Segment \<Rightarrow> bool" where
  "atoms_fit lib r s \<longleftrightarrow> (\<forall>(dn, a)\<in>set (s_Atoms s). dn \<in> fst ` set (dimensions r) \<and> atom_fits lib (dimension_of r dn) a)"

lemma map_filter_Nil: "List.map_filter f xs = [] \<longleftrightarrow> (\<forall>x\<in>set xs. f x = None)"
  by (induction xs) (auto simp: List.map_filter_simps split: option.splits)

lemma usable_fits: "usable lib r s \<Longrightarrow> atoms_fit lib r s"
  by (fastforce simp: usable_def atoms_fit_def Check_def map_filter_Nil list_all_iff split: if_splits list.splits
      dest: atom_fitsI)

lemma row_showsD: "row_shows lib r facts row \<Longrightarrow> dn \<in> fst ` set (dimensions r) \<Longrightarrow> shows_fact lib row (dimension_of r dn) (fact_of facts dn)"
  by (auto simp: row_shows_def list_all_iff)

text \<open>A compiled segment holds on the row exactly when the segment is true of the facts.\<close>

lemma segment_agrees:
  assumes "compile_segment r who base s args = Inr (c, args')" "atoms_fit lib r s"
    and "row_shows lib r facts row" "reads lib numeric" "ActiveAt lib s t"
  shows "segment lib s facts who t = Some (tri (sql_holds numeric row c))"
proof -
  let ?h = "\<lambda>dn a. atom lib a (fact_of facts dn) who = Some TriTrue"
  have agree: "atom lib a (fact_of facts dn) who = Some (tri (part_holds numeric row p))"
    if "(dn, a) \<in> set (s_Atoms s)" "compile_atom r who base dn a args = Inr (p, args')" for dn a p args args'
    using that assms(2-4) atom_agrees row_showsD by (fastforce simp: atoms_fit_def)
  obtain ps where ps: "compile_atoms r who base (sort_key fst (s_Atoms s)) args = Inr (ps, args')"
    and c: "c = (if ps = [] then SqlTrue else SqlAnd ps)"
    using assms(1) by (auto simp: compile_segment_def split: sum.splits if_splits)
  have holds: "list_all (sql_holds numeric row) ps \<longleftrightarrow> list_all (\<lambda>(dn, a). ?h dn a) (sort_key fst (s_Atoms s))"
    by (rule compile_atoms_parts [OF ps]) (use agree in auto)
  have "atom lib a (fact_of facts dn) who = Some (tri (?h dn a))" if "(dn, a) \<in> set (s_Atoms s)" for dn a
    using compile_atoms_each [OF ps, of dn a] agree that by fastforce
  then have "atoms_loop lib facts who TriTrue (s_Atoms s) = Some (tri (list_all (\<lambda>(dn, a). ?h dn a) (s_Atoms s)))"
    by (intro atoms_loop_decided) auto
  moreover have "sql_holds numeric row c \<longleftrightarrow> list_all (sql_holds numeric row) ps"
    by (simp add: c)
  ultimately show ?thesis
    using holds assms(5) by (simp add: segment_def list_all_iff)
qed

lemma entitled_loop_decided:
  assumes "\<forall>s\<in>set segs. s_Operation s = op \<longrightarrow> segment lib s facts who t = Some (tri (h s))"
  shows "entitled_loop lib op facts who t (tri b, fs) segs =
         Some (tri (b \<or> list_ex h (filter (\<lambda>s. s_Operation s = op) segs)),
               fs @ concat (map s_ReadFields (filter h (filter (\<lambda>s. s_Operation s = op) segs))))"
  using assms
proof (induction segs arbitrary: b fs)
  case Nil
  then show ?case by simp
next
  case (Cons s segs)
  show ?case
  proof (cases "s_Operation s = op \<and> h s")
    case True
    then show ?thesis using Cons.IH [of True] Cons.prems by (simp add: tri_def)
  next
    case False
    then show ?thesis using Cons.IH [of b] Cons.prems by (auto simp: tri_def)
  qed
qed

lemma compile_union_each:
  assumes "compile_union r who base segs args = Inr (ps, args')"
    and "\<And>s c args args'. s \<in> set segs \<Longrightarrow> compile_segment r who base s args = Inr (c, args') \<Longrightarrow> sql_holds numeric row c \<longleftrightarrow> h s"
  shows "map (sql_holds numeric row) ps = map h segs"
  using assms
proof (induction segs arbitrary: args ps args')
  case Nil
  then show ?case by simp
next
  case (Cons s segs)
  obtain c args1 ps1 where first: "compile_segment r who base s args = Inr (c, args1)"
    and rest: "compile_union r who base segs args1 = Inr (ps1, args')" and ps: "ps = c # ps1"
    using Cons.prems(1) by (auto split: sum.splits)
  have "map (sql_holds numeric row) ps1 = map h segs"
    using Cons.IH [OF rest] Cons.prems(2) by simp
  then show ?case
    using Cons.prems(2) [OF _ first] by (simp add: ps)
qed

lemma compile_union_compiled:
  "compile_union r who base segs args = Inr (ps, args') \<Longrightarrow> s \<in> set segs \<Longrightarrow>
   \<exists>args1 c args2. compile_segment r who base s args1 = Inr (c, args2)"
  by (induction segs arbitrary: args ps args') (fastforce split: sum.splits)+

text \<open>The segments of one operation: the conditions of the active ones tell which are true, and these give the entitlement.\<close>

definition true_segment :: "libs \<Rightarrow> Facts \<Rightarrow> string \<Rightarrow> instant \<Rightarrow> Segment \<Rightarrow> bool" where
  "true_segment lib facts who t s \<longleftrightarrow> segment lib s facts who t = Some TriTrue"

lemma union_agrees:
  assumes "compile_union r who base (active lib segs t op) args = Inr (ps, args')"
    and "list_all (usable lib r) segs" "row_shows lib r facts row" "reads lib numeric"
  shows "map (sql_holds numeric row) ps = map (true_segment lib facts who t) (active lib segs t op)"
    and "entitled lib segs op facts who t =
         Some (tri (list_ex (true_segment lib facts who t) (active lib segs t op)),
               concat (map s_ReadFields (filter (true_segment lib facts who t) (active lib segs t op))))"
proof -
  let ?h = "true_segment lib facts who t"
  have agree: "segment lib s facts who t = Some (tri (sql_holds numeric row c))"
    if "s \<in> set (active lib segs t op)" "compile_segment r who base s args = Inr (c, args')" for s c args args'
    using that assms(2-4) by (intro segment_agrees) (auto simp: active_def list_all_iff usable_fits)
  show "map (sql_holds numeric row) ps = map ?h (active lib segs t op)"
    by (rule compile_union_each [OF assms(1)]) (simp add: agree true_segment_def)
  have "segment lib s facts who t = Some (tri (?h s))" if "s \<in> set segs" "s_Operation s = op" for s
  proof (cases "ActiveAt lib s t")
    case True
    then have "s \<in> set (active lib segs t op)"
      using that by (simp add: active_def)
    then show ?thesis
      using compile_union_compiled [OF assms(1)] agree by (fastforce simp: true_segment_def)
  next
    case False
    then show ?thesis by (simp add: segment_def true_segment_def tri_def)
  qed
  moreover have inactive: "?h s \<Longrightarrow> ActiveAt lib s t" for s
    by (auto simp: true_segment_def segment_def split: if_splits)
  then have "filter ?h (filter (\<lambda>s. s_Operation s = op) segs) = filter ?h (active lib segs t op)"
    by (auto simp: active_def intro!: filter_cong)
  moreover have "list_ex ?h (filter (\<lambda>s. s_Operation s = op) segs) \<longleftrightarrow> list_ex ?h (active lib segs t op)"
    using inactive by (auto simp: active_def list_ex_iff)
  ultimately show "entitled lib segs op facts who t =
         Some (tri (list_ex ?h (active lib segs t op)), concat (map s_ReadFields (filter ?h (active lib segs t op))))"
    using entitled_loop_decided [of segs op lib facts who t ?h False "[]"]
    by (simp add: entitled_def tri_def)
qed

section \<open>Arguments\<close>

text \<open>Every placeholder of a condition names the argument the condition was built with.\<close>

definition arg_at :: "nat \<Rightarrow> sql_arg list \<Rightarrow> nat \<Rightarrow> sql_arg \<Rightarrow> bool" where
  "arg_at base args n v \<longleftrightarrow> base < n \<and> n \<le> base + length args \<and> args ! (n - base - 1) = v"

fun bound :: "nat \<Rightarrow> sql_arg list \<Rightarrow> sql \<Rightarrow> bool" where
  "bound base args (SqlEqAny c n vs) = arg_at base args n (ArgTexts vs)"
| "bound base args (SqlEq c n v) = arg_at base args n (ArgText v)"
| "bound base args (SqlEqOrLike c n v m p) = (arg_at base args n (ArgText v) \<and> arg_at base args m (ArgText p))"
| "bound base args (SqlCompare c op n v) = arg_at base args n (ArgText v)"
| "bound base args (SqlAnd ps) = list_all (bound base args) ps"
| "bound base args (SqlOr ps) = list_all (bound base args) ps"
| "bound base args (SqlBoth p q) = (bound base args p \<and> bound base args q)"
| "bound base args (SqlCoalesceFalse p) = bound base args p"
| "bound base args _ = True"

lemma arg_at_append: "arg_at base args n v \<Longrightarrow> arg_at base (args @ xs) n v"
  by (auto simp: arg_at_def nth_append)

lemma bound_append: "bound base args c \<Longrightarrow> bound base (args @ xs) c"
  by (induction base args c rule: bound.induct) (auto simp: arg_at_append list_all_iff)

definition grown :: "nat \<Rightarrow> sql_arg list \<Rightarrow> sql list \<Rightarrow> sql_arg list \<Rightarrow> bool" where
  "grown base args ps args' \<longleftrightarrow> (\<exists>xs. args' = args @ xs) \<and> list_all (bound base args') ps"

lemma grown_Nil [simp]: "grown base args [] args"
  by (simp add: grown_def)

lemma grown_append: "grown base args ps args1 \<Longrightarrow> grown base args1 qs args2 \<Longrightarrow> grown base args (ps @ qs) args2"
  by (auto simp: grown_def list_all_iff) (metis append_assoc bound_append)

lemma add_arg_bound: "add_arg base v args = (n, args') \<Longrightarrow> args' = args @ [v] \<and> arg_at base args' n v"
  by (auto simp: add_arg_def arg_at_def)

lemma grown_tree_parts: "tree_parts base c its args = (ps, args') \<Longrightarrow> grown base args ps args'"
proof (induction its arbitrary: args ps args')
  case (Cons it its)
  show ?case
  proof (cases "t_Mode it = ''subtree''")
    case True
    let ?p = "likeEscape (t_Path it) @ ''/%''"
    obtain n args1 m args2 ps' where 1: "add_arg base (ArgText (t_Path it)) args = (n, args1)"
      and 2: "add_arg base (ArgText ?p) args1 = (m, args2)"
      and rest: "tree_parts base c its args2 = (ps', args')" and ps: "ps = SqlEqOrLike c n (t_Path it) m ?p # ps'"
      using Cons.prems True by (auto simp: Let_def split: prod.splits)
    have "grown base args [SqlEqOrLike c n (t_Path it) m ?p] args2"
      using add_arg_bound [OF 1] add_arg_bound [OF 2] arg_at_append [of base args1 n "ArgText (t_Path it)" "[ArgText ?p]"]
      by (auto simp: grown_def)
    from grown_append [OF this Cons.IH [OF rest]] show ?thesis by (simp add: ps)
  next
    case False
    obtain n args1 ps' where 1: "add_arg base (ArgText (t_Path it)) args = (n, args1)"
      and rest: "tree_parts base c its args1 = (ps', args')" and ps: "ps = SqlEq c n (t_Path it) # ps'"
      using Cons.prems False by (auto simp: Let_def split: prod.splits)
    have "grown base args [SqlEq c n (t_Path it)] args1"
      using add_arg_bound [OF 1] by (auto simp: grown_def)
    from grown_append [OF this Cons.IH [OF rest]] show ?thesis by (simp add: ps)
  qed
qed simp

lemma grown_bound_part: "bound_part base c o1 o2 b cl args = Inr (ps, args') \<Longrightarrow> grown base args ps args'"
  by (auto simp: bound_part_def grown_def dest!: add_arg_bound split: option.splits prod.splits)

lemma grown_interval:
  assumes "add_arg base (ArgText cur) args = (n, args1)"
    and "bound_part base c o1 o2 lo lc args1 = Inr (ps, args2)" "bound_part base c o3 o4 hi hc args2 = Inr (qs, args3)"
  shows "grown base args (SqlNotNull c # SqlEq cc n cur # ps @ qs) args3"
proof -
  have "grown base args [SqlNotNull c, SqlEq cc n cur] args1"
    using add_arg_bound [OF assms(1)] by (auto simp: grown_def)
  from grown_append [OF this grown_append [OF grown_bound_part [OF assms(2)] grown_bound_part [OF assms(3)]]]
  show ?thesis by simp
qed

lemma grown_and: "grown base args [SqlAnd ps] args' \<longleftrightarrow> grown base args ps args'" "grown base args [SqlOr ps] args' \<longleftrightarrow> grown base args ps args'"
  by (simp_all add: grown_def)

lemma grown_atom: "compile_atom r who base dn a args = Inr (p, args') \<Longrightarrow> grown base args (case p of None \<Rightarrow> [] | Some q \<Rightarrow> [q]) args'"
  by (auto simp: compile_atom_def Let_def grown_and grown_interval grown_tree_parts
      split: if_splits prod.splits sum.splits dest: add_arg_bound)
     (auto simp: grown_def dest!: add_arg_bound grown_tree_parts)

lemma grown_atoms: "compile_atoms r who base atoms args = Inr (ps, args') \<Longrightarrow> grown base args ps args'"
proof (induction atoms arbitrary: args ps args')
  case (Cons x atoms)
  obtain dn a where x: "x = (dn, a)" by force
  obtain p args1 ps1 where first: "compile_atom r who base dn a args = Inr (p, args1)"
    and rest: "compile_atoms r who base atoms args1 = Inr (ps1, args')"
    and ps: "ps = (case p of None \<Rightarrow> ps1 | Some q \<Rightarrow> q # ps1)"
    using Cons.prems x by (auto split: sum.splits)
  show ?case
    using grown_append [OF grown_atom [OF first] Cons.IH [OF rest]] by (cases p) (simp_all add: ps)
qed simp

lemma grown_union: "compile_union r who base segs args = Inr (ps, args') \<Longrightarrow> grown base args ps args'"
proof (induction segs arbitrary: args ps args')
  case (Cons s segs)
  obtain c args1 ps1 where first: "compile_segment r who base s args = Inr (c, args1)"
    and rest: "compile_union r who base segs args1 = Inr (ps1, args')" and ps: "ps = c # ps1"
    using Cons.prems by (auto split: sum.splits)
  have "grown base args [c] args1"
    using first grown_atoms by (fastforce simp: compile_segment_def grown_def split: sum.splits if_splits)
  from grown_append [OF this Cons.IH [OF rest]] show ?case by (simp add: ps)
qed simp

section \<open>No panic\<close>

lemma bound_part_no_panic: "(b \<noteq> None) = (cl \<noteq> None) \<Longrightarrow> \<exists>x. bound_part base c o1 o2 b cl args = Inr x"
  by (auto simp: bound_part_def add_arg_def split: option.splits)

lemma compile_atom_no_panic: "atom_fits lib (dimension_of r dn) a \<Longrightarrow> compile_atom r who base dn a args \<noteq> Inl Panic"
  using bound_part_no_panic [of "a_Lo a" "a_LoClosed a" base "d_Column (dimension_of r dn)" "''>''" "''>=''"]
    bound_part_no_panic [of "a_Hi a" "a_HiClosed a" base "d_Column (dimension_of r dn)" "''<''" "''<=''"]
  by (auto simp: compile_atom_def atom_fits_def flagged_def not_completable_def Let_def split: if_splits prod.splits sum.splits)
     (metis Inl_Inr_False)+

lemma compile_atoms_no_panic:
  "\<forall>(dn, a)\<in>set atoms. atom_fits lib (dimension_of r dn) a \<Longrightarrow> compile_atoms r who base atoms args \<noteq> Inl Panic"
  by (induction atoms arbitrary: args) (auto simp: compile_atom_no_panic split: sum.splits)

lemma compile_segment_no_panic: "atoms_fit lib r s \<Longrightarrow> compile_segment r who base s args \<noteq> Inl Panic"
  using compile_atoms_no_panic [of "sort_key fst (s_Atoms s)" lib r who base args]
  by (auto simp: compile_segment_def atoms_fit_def split: sum.splits)

lemma compile_union_no_panic: "\<forall>s\<in>set segs. atoms_fit lib r s \<Longrightarrow> compile_union r who base segs args \<noteq> Inl Panic"
  by (induction segs arbitrary: args) (auto simp: compile_segment_no_panic split: sum.splits)

lemma compile_active_no_panic:
  "list_all (usable lib r) segs \<Longrightarrow> compile_union r who base (active lib segs t op) args \<noteq> Inl Panic"
  by (rule compile_union_no_panic [of _ lib]) (auto simp: active_def list_all_iff usable_fits)

text \<open>Nor does the digest of the plan dereference a flag of a bound that is absent.\<close>

lemma first_error_Inl: "first_error xs = Inl e \<Longrightarrow> Inl e \<in> set xs"
  by (induction xs rule: first_error.induct) (auto split: sum.splits)

lemma canonical_not_nil [simp]: "canonical x \<noteq> Inl NilBound"
  by (simp add: canonical_def split: sum.splits)

lemma bound_members_not_nil: "(b \<noteq> None) = (cl \<noteq> None) \<Longrightarrow> bound_members lib n b cl \<noteq> Inl NilBound"
  by (auto simp: bound_members_def split: sum.splits option.splits)

lemma atom_members_not_nil: "atom_fits lib d a \<Longrightarrow> atom_members lib a \<noteq> Inl NilBound"
  using bound_members_not_nil [of "a_Lo a" "a_LoClosed a" lib "''lo''"] bound_members_not_nil [of "a_Hi a" "a_HiClosed a" lib "''hi''"]
  by (auto simp: atom_fits_def atom_members_def flagged_def simp del: not_None_eq split: sum.splits)

lemma Segment_Digest_not_nil:
  assumes "atoms_fit lib r s"
  shows "Segment_Digest lib s \<noteq> Inl NilBound"
proof
  assume "Segment_Digest lib s = Inl NilBound"
  then have "Inl NilBound \<in> set (map (\<lambda>(dn, a). case atom_members lib a of
      Inl e \<Rightarrow> Inl e | Inr ms \<Rightarrow> Inr (dn, Obj ((''kind'', Str (a_Kind a)) # ms))) (s_Atoms s))"
    by (auto simp: Segment_Digest_def Canonical_def split: sum.splits if_splits dest!: first_error_Inl)
  then show False
    using assms atom_members_not_nil by (fastforce simp: atoms_fit_def split: sum.splits)
qed

lemma plan_digest_not_nil: "\<forall>s\<in>set used. atoms_fit lib r s \<Longrightarrow> plan_digest lib r' op used \<noteq> Inl NilBound"
  by (auto simp: plan_digest_def dest!: first_error_Inl split: sum.splits)
     (metis Segment_Digest_not_nil)

section \<open>The plan\<close>

text \<open>The parts of a plan: the segments its fields come from, and the conditions of the two unions.\<close>

lemma Compile_Inr:
  assumes "Compile lib r segs op who t base = Inr p"
  obtains viewPreds opPreds args where
    "compile_union r who base (active lib segs t (r_ViewOperation r)) [] = Inr (viewPreds, args)"
    "compile_union r who base (active lib segs t op) (if op = r_ViewOperation r then [] else args) = Inr (opPreds, p_Args p)"
    "p_Where p = (if op = r_ViewOperation r then orAll opPreds else SqlBoth (orAll viewPreds) (orAll opPreds))"
    "p_Hits p = map SqlCoalesceFalse opPreds"
    "p_sets p = map (\<lambda>s. filter (outputs r) (s_ReadFields s)) (active lib segs t op)"
  using assms that by (auto simp: Compile_def Let_def split: sum.splits if_splits prod.splits canonical_error.splits)

lemma Compile_no_panic:
  assumes "list_all (usable lib r) segs"
  shows "Compile lib r segs op who t base \<noteq> Inl Panic"
proof -
  have "plan_digest lib r op (active lib segs t op1) \<noteq> Inl NilBound"
    "plan_digest lib r op (active lib segs t op1 @ active lib segs t op2) \<noteq> Inl NilBound" for op1 op2
    using assms by (auto intro!: plan_digest_not_nil [of _ lib r] simp: active_def list_all_iff usable_fits)
  then show ?thesis
    using compile_active_no_panic [OF assms]
    by (auto simp: Compile_def Let_def split: sum.splits if_splits prod.splits canonical_error.splits)
qed

lemma hit_sets: "set (concat (map snd (filter fst (zip (map h xs) (map g xs))))) = (\<Union>s\<in>set (filter h xs). set (g s))"
  by (induction xs) auto

lemma Plan_Fields_of:
  assumes "p_sets p = map (\<lambda>s. filter (outputs r) (s_ReadFields s)) segs"
  shows "Plan_Fields p (map h segs) = sort (remdups (filter (outputs r) (concat (map s_ReadFields (filter h segs)))))"
  unfolding Plan_Fields_def assms
  by (rule sorted_distinct_set_unique) (use hit_sets [of h segs "\<lambda>s. filter (outputs r) (s_ReadFields s)"] in auto)

lemma readable_holds:
  "list_ex (sql_holds numeric row) (map snd (filter (\<lambda>(set', _). f \<in> set set') (zip sets hits))) \<longleftrightarrow>
   f \<in> set (concat (map snd (filter fst (zip (map (sql_holds numeric row) hits) sets))))"
proof (induction sets arbitrary: hits)
  case (Cons x sets)
  then show ?case by (cases hits) auto
qed simp

lemma Evaluate_decided:
  assumes "entitled lib segs (r_ViewOperation r) facts who t = Some (tri v, vfs)" "entitled lib segs op facts who t = Some (tri b, fs)"
  shows "Evaluate lib r segs op facts who t =
         Some \<lparr>Visible = tri v, Action = tri (v \<and> b),
               Fields = (if v then sort (remdups (filter (outputs r) fs)) else [])\<rparr>"
  using assms by (cases "op = r_ViewOperation r"; cases v; cases b) (auto simp: Evaluate_def tri_def tri_and_def)

lemma everywhere_readable:
  assumes "ReadableEverywhere p f" "p_sets p = map g segs" "list_ex h segs"
  shows "f \<in> set (Plan_Fields p (map h segs))"
  using assms hit_sets [of h segs g] by (auto simp: ReadableEverywhere_def Plan_Fields_def list_all_iff list_ex_iff)

lemma plan_bound:
  assumes "compile_union r who base vs [] = Inr (viewPreds, args)"
    and "compile_union r who base os (if b then [] else args) = Inr (opPreds, args')"
  shows "list_all (bound base args') ((if b then orAll opPreds else SqlBoth (orAll viewPreds) (orAll opPreds)) # map SqlCoalesceFalse opPreds)"
  using grown_union [OF assms(1)] grown_union [OF assms(2)]
  by (auto simp: grown_def orAll_def list_all_iff bound_append)

section \<open>Properties\<close>

text \<open>
  C4. A list and a single read decide alike. Take segments that pass the check, whose tree items and
  bounds are usable, and a row that shows the facts. Then compiling the segments into a list query
  does not panic, and when it gives a plan, the evaluation of the record gives a decision such
  that: the plan's condition selects the row exactly when the action is allowed; for a selected
  row the fields computed from the hit columns are the readable fields of the decision; the
  condition \<open>ReadableWhere\<close> of a field holds on it exactly when the field is readable, and a field
  reported as readable everywhere is; and every placeholder of the condition and of the hit
  columns is bound to the value the segment names.
\<close>

theorem authz_sql_agrees:
  assumes "list_all (usable lib r) segs" "row_shows lib r facts row" "reads lib numeric"
  shows "case Compile lib r segs op who t base of
           Inl e \<Rightarrow> e \<noteq> Panic
         | Inr p \<Rightarrow>
             list_all (bound base (p_Args p)) (p_Where p # p_Hits p) \<and>
             (\<exists>d. Evaluate lib r segs op facts who t = Some d \<and>
                  (sql_holds numeric row (p_Where p) \<longleftrightarrow> Action d = TriTrue) \<and>
                  (Action d = TriTrue \<longrightarrow>
                     Plan_Fields p (map (sql_holds numeric row) (p_Hits p)) = Fields d \<and>
                     (\<forall>f. sql_holds numeric row (ReadableWhere p f) \<longleftrightarrow> f \<in> set (Fields d)) \<and>
                     (\<forall>f. ReadableEverywhere p f \<longrightarrow> f \<in> set (Fields d))))"
proof (cases "Compile lib r segs op who t base")
  case (Inl e)
  then show ?thesis using Compile_no_panic [OF assms(1)] by auto
next
  case (Inr p)
  obtain viewPreds opPreds args where
    view: "compile_union r who base (active lib segs t (r_ViewOperation r)) [] = Inr (viewPreds, args)"
    and ops: "compile_union r who base (active lib segs t op) (if op = r_ViewOperation r then [] else args) = Inr (opPreds, p_Args p)"
    and p: "p_Where p = (if op = r_ViewOperation r then orAll opPreds else SqlBoth (orAll viewPreds) (orAll opPreds))"
      "p_Hits p = map SqlCoalesceFalse opPreds"
      "p_sets p = map (\<lambda>s. filter (outputs r) (s_ReadFields s)) (active lib segs t op)"
    by (rule Compile_Inr [OF Inr])
  let ?h = "true_segment lib facts who t" and ?vs = "active lib segs t (r_ViewOperation r)" and ?os = "active lib segs t op"
  note v = union_agrees [OF view assms] and o' = union_agrees [OF ops assms]
  let ?d = "\<lparr>Visible = tri (list_ex ?h ?vs), Action = tri (list_ex ?h ?vs \<and> list_ex ?h ?os),
             Fields = (if list_ex ?h ?vs then sort (remdups (filter (outputs r) (concat (map s_ReadFields (filter ?h ?os))))) else [])\<rparr>"
  have eval: "Evaluate lib r segs op facts who t = Some ?d"
    by (rule Evaluate_decided [OF v(2) o'(2)])
  have ex: "list_ex (sql_holds numeric row) viewPreds \<longleftrightarrow> list_ex ?h ?vs" "list_ex (sql_holds numeric row) opPreds \<longleftrightarrow> list_ex ?h ?os"
    using arg_cong [OF v(1), of "list_ex (\<lambda>b. b)"] arg_cong [OF o'(1), of "list_ex (\<lambda>b. b)"]
    by (simp_all add: list_ex_iff)
  have hits: "map (sql_holds numeric row) (p_Hits p) = map ?h ?os"
    using o'(1) by (simp add: p(2) comp_def)
  have fs: "Plan_Fields p (map ?h ?os) = sort (remdups (filter (outputs r) (concat (map s_ReadFields (filter ?h ?os)))))"
    by (rule Plan_Fields_of [OF p(3)])
  have readable: "sql_holds numeric row (ReadableWhere p f) \<longleftrightarrow> f \<in> set (Plan_Fields p (map ?h ?os))" for f
    using readable_holds [of numeric row f "p_sets p" "p_Hits p"] by (simp add: ReadableWhere_def Plan_Fields_def hits)
  have everywhere: "f \<in> set (Plan_Fields p (map ?h ?os))" if "ReadableEverywhere p f" "list_ex ?h ?os" for f
    by (rule everywhere_readable [OF that(1) p(3) that(2)])
  have "list_all (bound base (p_Args p)) (p_Where p # p_Hits p)"
    unfolding p(1,2) by (rule plan_bound [OF view ops])
  moreover have "sql_holds numeric row (p_Where p) \<longleftrightarrow> Action ?d = TriTrue"
    using ex by (auto simp: p(1))
  moreover have "Plan_Fields p (map ?h ?os) = Fields ?d" if "Action ?d = TriTrue"
    using that by (simp add: fs)
  ultimately show ?thesis
    using Inr eval readable everywhere hits by auto
qed

text \<open>An expense record of 250 euros below the unit north, seen by a manager of the unit.\<close>

definition demo_libs :: libs where
  "demo_libs = \<lparr>time_of = (\<lambda>s. if s = ''t'' then Some 0 else None), time_text = (\<lambda>_. ''t''),
     dec = (\<lambda>s. if s = ''250'' then Some 250 else if s = ''1000'' then Some 1000 else None),
     canon_Decimal = (\<lambda>s. Inr s), canon_Text = (\<lambda>s. s), Sanitize = joined ''.''\<rparr>"

definition demo_dimension :: "string \<Rightarrow> string \<Rightarrow> Dimension" where
  "demo_dimension kind c =
     \<lparr>d_Kind = kind, d_Column = c, d_PrincipalRole = [], d_CurrencyColumn = ''cur'', d_Pushdown = LocalColumn, d_ProjectionWatermark = []\<rparr>"

definition demo_resource :: Resource where
  "demo_resource = \<lparr>r_Type = ''expense'', r_ViewOperation = ''view'',
     r_Dimensions = Some [(''unit'', demo_dimension OrgTree ''unit''), (''total'', demo_dimension Amount ''amt'')],
     r_Fields = [(''note'', \<lparr>fd_Class = Ordinary, fd_ReadKey = [], fd_WriteKey = [], fd_DerivedFrom = [], fd_Queryable = []\<rparr>)]\<rparr>"

definition demo_atom :: Atom where
  "demo_atom = \<lparr>a_Kind = ''tree'', a_Values = [], a_Items = [\<lparr>t_Path = ''north'', t_Mode = ''subtree''\<rparr>], a_Currency = [],
                a_Lo = None, a_LoClosed = None, a_Hi = None, a_HiClosed = None\<rparr>"

definition demo_segment :: Segment where
  "demo_segment = \<lparr>s_ResourceType = ''expense'', s_Operation = ''view'',
     s_Atoms = [(''unit'', demo_atom),
                (''total'', demo_atom\<lparr>a_Kind := ''interval'', a_Currency := ''EUR'', a_Hi := Some ''1000'', a_HiClosed := Some False\<rparr>)],
     s_ReadFields = [''note''], s_WriteFields = [], s_Valid = \<lparr>v_From = ''t'', v_Until = []\<rparr>, s_Binding = [], s_Source = [], s_Definition = None\<rparr>"

definition demo_facts :: Facts where
  "demo_facts = [(''unit'', Value ''north/a''), (''total'', Money ''250'' ''EUR'')]"

definition demo_row :: "string \<Rightarrow> sql_value" where
  "demo_row c = (if c = ''unit'' then SqlText ''north/a'' else if c = ''amt'' then SqlNum 250 else if c = ''cur'' then SqlText ''EUR'' else SqlNull)"

lemmas demo_defs = demo_libs_def demo_dimension_def demo_resource_def demo_atom_def demo_segment_def demo_facts_def demo_row_def

lemma demo_usable: "usable demo_libs demo_resource demo_segment"
  by (simp add: usable_def Check_def atom_problem_def usable_atom_def dimension_of_def dimensions_def demo_defs
      List.map_filter_simps Let_def)

lemma demo_shows: "row_shows demo_libs demo_resource demo_facts demo_row"
  by (simp add: row_shows_def shows_fact_def dimension_of_def dimensions_def fact_of_def Value_def Money_def demo_defs)

lemma demo_canonical: "\<not> isl (Canonical demo_libs demo_segment ''expense'')" "\<not> isl (Encode (Resource_Record demo_resource))"
  "\<not> isl (case Canonical demo_libs demo_segment ''expense'' of Inl _ \<Rightarrow> Inl () | Inr c \<Rightarrow> map_sum (\<lambda>_. ()) (\<lambda>s. s) (Encode c))"
  by code_simp+

lemma demo_active: "active demo_libs [demo_segment] 0 ''view'' = [demo_segment]"
  by (simp add: active_def ActiveAt_def demo_defs)

lemma demo_digest: "\<exists>d. plan_digest demo_libs demo_resource op [demo_segment] = Inr d"
proof -
  have "s_ResourceType demo_segment = ''expense''"
    by (simp add: demo_defs)
  then show ?thesis
    using demo_canonical
    by (auto simp: plan_digest_def Segment_Digest_def Resource_Digest_def Digest_def canonical_def isl_def split: sum.splits)
qed

lemma demo_union: "\<not> isl (compile_union demo_resource ''me'' 0 [demo_segment] [])"
  by code_simp

lemma demo_compiled: "\<exists>p. Compile demo_libs demo_resource [demo_segment] ''view'' ''me'' 0 0 = Inr p"
proof -
  have "r_ViewOperation demo_resource = ''view''"
    by (simp add: demo_defs)
  then show ?thesis
    using demo_union demo_digest [of "''view''"]
    by (auto simp: Compile_def demo_active Let_def isl_def split: sum.splits)
qed

lemma demo_allowed: "map_option Action (Evaluate demo_libs demo_resource [demo_segment] ''view'' demo_facts ''me'' 0) = Some TriTrue"
  by code_simp

lemma demo_reads: "reads demo_libs (dec demo_libs)"
  by (simp add: reads_def)

theorem authz_sql_agrees_witness:
  "\<exists>p. Compile demo_libs demo_resource [demo_segment] ''view'' ''me'' 0 0 = Inr p \<and>
       sql_holds (dec demo_libs) demo_row (p_Where p)"
  using authz_sql_agrees [of demo_libs demo_resource "[demo_segment]" demo_facts demo_row "dec demo_libs",
      where op = "''view''" and who = "''me''" and t = 0 and base = 0]
    demo_usable demo_shows demo_reads demo_compiled demo_allowed
  by auto

end
