(* ===== verification/Authz_View.thy ===== *)
theory Authz_View
  imports Authz_Sql Epochs "HOL-Library.AList"
begin

text \<open>
  The authorization view a member holds (\<open>authz/view.go\<close>, \<open>authz/refuse.go\<close>), the subject of a request
  (\<open>authz/subject.go\<close>) and the admission of user requests (\<open>guard/guard.go\<close>). The holder's map of
  shards is an association list in the order of an iteration; the clock readings, the nonce and
  the answers of the authorization member are arguments. \<open>Verify\<close> is two operations, the request
  and the answer, because other operations run between them. An operation reads each clock once.
  Logging is left out.
\<close>

section \<open>Views and answers\<close>

abbreviation (input) WRead :: duration where "WRead \<equiv> 30 * Second"
abbreviation (input) WHigh :: duration where "WHigh \<equiv> 5 * Second"
abbreviation (input) TStall :: duration where "TStall \<equiv> 2 * Second"
abbreviation (input) Interval :: duration where "Interval \<equiv> 2500000000"

record Revision =
  rv_Domain :: string
  rv_Value :: string
  rv_Epoch :: string
  rv_Instance :: string

record SubjectEntry =
  se_Segments :: "Segment list"
  se_AccountsDisabled :: bool
  se_SecurityVersion :: int

record Shard =
  sh_Shard :: string
  sh_RecoveryGeneration :: Revision
  sh_SecurityRevisions :: "Revision list"
  sh_Applicability :: "string list"
  sh_Subjects :: "(string \<times> SubjectEntry) list"
  sh_Capabilities :: "string list"
  sh_Digest :: string

record Held =
  hl_Shard :: string
  hl_Digest :: string

record VerifyRequest =
  vr_Component :: string
  vr_Held :: "Held list"
  vr_Nonce :: string

record ShardAnswer =
  sa_Shard :: string
  sa_Status :: string
  sa_View :: "Shard option"
  sa_ReadOnly :: bool

record VerifyAnswer =
  va_Nonce :: string
  va_ComputedAt :: string
  va_Instance :: string
  va_Shards :: "ShardAnswer list"
  va_RecoveryGeneration :: Revision

record held =
  hd_shard :: Shard
  hd_sentAt :: duration
  hd_highAt :: duration
  hd_hasHigh :: bool
  hd_stopped :: bool
  hd_suspended :: bool
  hd_sourceStale :: bool

record Holder =
  ho_Component :: string
  ho_Defs :: "Definitions option"
  ho_shards :: "(string \<times> held) list"
  ho_recovery :: int
  ho_hasRecovery :: bool
  ho_instance :: string
  ho_lastTick :: duration
  ho_lastSkew :: duration

definition NewHolder :: "string \<Rightarrow> Definitions option \<Rightarrow> Holder" where
  "NewHolder component defs =
     \<lparr>ho_Component = component, ho_Defs = defs, ho_shards = [], ho_recovery = 0, ho_hasRecovery = False, ho_instance = [],
      ho_lastTick = 0, ho_lastSkew = 0\<rparr>"

section \<open>Stalls\<close>

definition rest :: "duration \<Rightarrow> instant \<Rightarrow> Holder \<Rightarrow> Holder" where
  "rest now wall h = h\<lparr>ho_lastTick := now, ho_lastSkew := wall - now\<rparr>"

definition tick :: "duration \<Rightarrow> instant \<Rightarrow> Holder \<Rightarrow> Holder" where
  "tick now wall h =
     (let skew = wall - now; gap = now - ho_lastTick h; jump = skew - ho_lastSkew h;
          h1 = (if ho_lastTick h \<noteq> 0 \<and> (gap > Interval + TStall \<or> jump > TStall \<or> jump < - TStall)
                then h\<lparr>ho_shards := []\<rparr> else h)
      in h1\<lparr>ho_lastTick := now, ho_lastSkew := skew\<rparr>)"

section \<open>Segments that fit the declarations\<close>

definition fits_defs :: "Definitions \<Rightarrow> Segment \<Rightarrow> bool" where
  "fits_defs defs s = (case find_Resource defs (s_ResourceType s) of None \<Rightarrow> True | Some r \<Rightarrow> Check s r = None)"

definition fitting :: "Definitions option \<Rightarrow> Shard \<Rightarrow> Shard" where
  "fitting defs v =
     (case defs of
        None \<Rightarrow> v
      | Some ds \<Rightarrow> v\<lparr>sh_Subjects := map (\<lambda>(p, e). (p, e\<lparr>se_Segments := filter (fits_defs ds) (se_Segments e)\<rparr>)) (sh_Subjects v)\<rparr>)"

section \<open>Verification\<close>

definition revision_back :: "Revision \<Rightarrow> Revision \<Rightarrow> bool" where
  "revision_back o' n \<longleftrightarrow>
     rv_Domain o' = rv_Domain n \<and>
     (epochBefore (rv_Epoch n) (rv_Epoch o') \<or>
      rv_Epoch n = rv_Epoch o' \<and> snd (ParseInt (rv_Value n)) = None \<and> snd (ParseInt (rv_Value o')) = None \<and>
      fst (ParseInt (rv_Value n)) < fst (ParseInt (rv_Value o')))"

definition revisionsGoBack :: "Revision list \<Rightarrow> Revision list \<Rightarrow> bool" where
  "revisionsGoBack old new = list_ex (\<lambda>n. list_ex (\<lambda>o'. revision_back o' n) old) new"

definition Verify_request :: "string \<Rightarrow> Holder \<Rightarrow> VerifyRequest" where
  "Verify_request nonce h =
     \<lparr>vr_Component = ho_Component h,
      vr_Held = map (\<lambda>(_, s). \<lparr>hl_Shard = sh_Shard (hd_shard s), hl_Digest = sh_Digest (hd_shard s)\<rparr>) (ho_shards h),
      vr_Nonce = nonce\<rparr>"

definition renewed :: "duration \<Rightarrow> bool \<Rightarrow> held \<Rightarrow> held" where
  "renewed sent readOnly s =
     (let s1 = s\<lparr>hd_sentAt := sent, hd_suspended := False, hd_sourceStale := readOnly\<rparr>
      in if readOnly then s1 else s1\<lparr>hd_highAt := sent, hd_hasHigh := True\<rparr>)"

definition adopted :: "Shard \<Rightarrow> duration \<Rightarrow> duration \<Rightarrow> bool \<Rightarrow> bool \<Rightarrow> held" where
  "adopted v sent high hasHigh stale =
     \<lparr>hd_shard = v, hd_sentAt = sent, hd_highAt = high, hd_hasHigh = hasHigh, hd_stopped = False, hd_suspended = False,
      hd_sourceStale = stale\<rparr>"

text \<open>One shard of an accepted answer.\<close>

definition apply_shard ::
  "Definitions option \<Rightarrow> bool \<Rightarrow> duration \<Rightarrow> ShardAnswer \<Rightarrow> (string \<times> held) list \<Rightarrow> (string \<times> held) list" where
  "apply_shard defs newer sent a shards =
     (let s = map_of shards (sa_Shard a); view = map_option (fitting defs) (sa_View a)
      in if sa_Status a = ''unchanged'' then
           (case s of
              None \<Rightarrow> shards
            | Some x \<Rightarrow> if hd_stopped x then shards else AList.map_entry (sa_Shard a) (renewed sent (sa_ReadOnly a)) shards)
         else if sa_Status a = ''changed'' then
           (case (view, s) of
              (None, _) \<Rightarrow> shards
            | (Some v, Some x) \<Rightarrow>
                if hd_stopped x then shards
                else if \<not> newer \<and> revisionsGoBack (sh_SecurityRevisions (hd_shard x)) (sh_SecurityRevisions v)
                then AList.map_entry (sa_Shard a) (\<lambda>y. y\<lparr>hd_stopped := True\<rparr>) shards
                else if sa_ReadOnly a
                then AList.update (sa_Shard a) (adopted v sent (hd_highAt x) (hd_hasHigh x) True) shards
                else AList.update (sa_Shard a) (adopted v sent sent True False) shards
            | (Some v, None) \<Rightarrow>
                if sa_ReadOnly a then AList.update (sa_Shard a) (adopted v sent 0 False True) shards
                else AList.update (sa_Shard a) (adopted v sent sent True False) shards)
         else if sa_Status a = ''closed'' then
           AList.map_entry (sa_Shard a) (\<lambda>y. y\<lparr>hd_sourceStale := True\<rparr>) shards
         else shards)"

definition foreign :: "Holder \<Rightarrow> VerifyAnswer \<Rightarrow> bool" where
  "foreign h ans \<longleftrightarrow>
     ho_instance h \<noteq> [] \<and> va_Instance ans \<noteq> ho_instance h \<or>
     list_ex (\<lambda>a. case sa_View a of
                    None \<Rightarrow> False
                  | Some v \<Rightarrow> list_ex (\<lambda>r. rv_Instance r \<noteq> va_Instance ans) (sh_SecurityRevisions v)) (va_Shards ans)"

definition apply_answer :: "VerifyAnswer \<Rightarrow> int \<Rightarrow> duration \<Rightarrow> Holder \<Rightarrow> bool \<times> Holder" where
  "apply_answer ans gen sent h =
     (if (ho_hasRecovery h \<and> gen < ho_recovery h) \<or> foreign h ans
      then (False, h\<lparr>ho_shards := map (\<lambda>(n, s). (n, s\<lparr>hd_suspended := True\<rparr>)) (ho_shards h)\<rparr>)
      else
        (let newer = (\<not> ho_hasRecovery h \<or> gen > ho_recovery h);
             start = (if newer then [] else ho_shards h)
         in (True, h\<lparr>ho_recovery := gen, ho_hasRecovery := True, ho_instance := va_Instance ans,
                     ho_shards := foldl (\<lambda>shards a. apply_shard (ho_Defs h) newer sent a shards) start (va_Shards ans)\<rparr>)))"

definition Verify_answer :: "VerifyRequest \<Rightarrow> duration \<Rightarrow> go_error + VerifyAnswer \<Rightarrow> Holder \<Rightarrow> go_error option \<times> Holder" where
  "Verify_answer req sent res h =
     (case res of
        Inl e \<Rightarrow> (Some e, h)
      | Inr ans \<Rightarrow>
          if va_Nonce ans \<noteq> vr_Nonce req
          then (Some (OtherError ''an answer for another request (nonce mismatch) was discarded''), h)
          else if snd (ParseInt (rv_Value (va_RecoveryGeneration ans))) \<noteq> None
          then (Some (OtherError (''recovery generation '' @ go_quoted (rv_Value (va_RecoveryGeneration ans)))), h)
          else (None, snd (apply_answer ans (fst (ParseInt (rv_Value (va_RecoveryGeneration ans)))) sent h)))"

section \<open>Lookups\<close>

record Grant =
  g_Segments :: "Segment list"
  g_Stale :: bool
  g_Since :: "instant option"
  g_Cutoff :: duration
  g_SecurityVersion :: int

text \<open>The length of a validity, less the drift of a thousandth; both windows are multiples of a microsecond.\<close>

definition valid_for :: "duration \<Rightarrow> duration" where
  "valid_for w = w * 999 div 1000"

definition no_entry :: SubjectEntry where
  "no_entry = \<lparr>se_Segments = [], se_AccountsDisabled = False, se_SecurityVersion = 0\<rparr>"

definition entry_of :: "Shard \<Rightarrow> string \<Rightarrow> SubjectEntry" where
  "entry_of v who = (case map_of (sh_Subjects v) who of Some e \<Rightarrow> e | None \<Rightarrow> no_entry)"

definition granted :: "Shard \<Rightarrow> string \<Rightarrow> string \<Rightarrow> Segment list" where
  "granted v resourceType who =
     (let e = entry_of v who
      in if se_AccountsDisabled e then []
         else filter (\<lambda>s. s_ResourceType s = [] \<or> s_ResourceType s = resourceType) (se_Segments e))"

definition no_view :: "string \<Rightarrow> Error" where
  "no_view resourceType =
     With ''resource_type'' resourceType (New ReasonAuthorizationViewExpired ''no valid authorization view'')"

definition valid_from :: "string \<Rightarrow> held \<Rightarrow> duration" where
  "valid_from risk s = (if risk = ''high'' then hd_highAt s else hd_sentAt s)"

definition window :: "string \<Rightarrow> duration" where
  "window risk = (if risk = ''high'' then valid_for WHigh else valid_for WRead)"

definition shard_valid :: "duration \<Rightarrow> string \<Rightarrow> string \<Rightarrow> held \<Rightarrow> bool" where
  "shard_valid now resourceType risk s \<longleftrightarrow>
     \<not> (hd_stopped s \<or> hd_suspended s \<or> resourceType \<notin> set (sh_Applicability (hd_shard s)) \<or> (risk = ''high'' \<and> \<not> hd_hasHigh s) \<or>
        now \<ge> valid_from risk s + window risk)"

definition Lookup :: "Holder \<Rightarrow> duration \<Rightarrow> string \<Rightarrow> string \<Rightarrow> string \<Rightarrow> Error + Grant" where
  "Lookup h now resourceType who risk =
     (case find (shard_valid now resourceType risk) (map snd (ho_shards h)) of
        None \<Rightarrow> Inl (no_view resourceType)
      | Some s \<Rightarrow>
          Inr \<lparr>g_Segments = granted (hd_shard s) resourceType who, g_Stale = False, g_Since = None,
               g_Cutoff = valid_from risk s + window risk, g_SecurityVersion = se_SecurityVersion (entry_of (hd_shard s) who)\<rparr>)"

definition stale_source :: "string \<Rightarrow> held \<Rightarrow> bool" where
  "stale_source resourceType s \<longleftrightarrow>
     \<not> (\<not> hd_sourceStale s \<or> \<not> hd_hasHigh s \<or> hd_stopped s \<or> hd_suspended s \<or> resourceType \<notin> set (sh_Applicability (hd_shard s)))"

definition LookupStale :: "Holder \<Rightarrow> duration \<Rightarrow> instant \<Rightarrow> string \<Rightarrow> string \<Rightarrow> Error + Grant" where
  "LookupStale h now wall resourceType who =
     (case find (stale_source resourceType) (map snd (ho_shards h)) of
        None \<Rightarrow> Inl (no_view resourceType)
      | Some s \<Rightarrow>
          Inr \<lparr>g_Segments = granted (hd_shard s) resourceType who, g_Stale = True, g_Since = Some (wall + (hd_highAt s - now)),
               g_Cutoff = now + valid_for WRead, g_SecurityVersion = se_SecurityVersion (entry_of (hd_shard s) who)\<rparr>)"

definition LookupFor :: "Holder \<Rightarrow> duration \<Rightarrow> instant \<Rightarrow> string \<Rightarrow> string \<Rightarrow> string \<Rightarrow> bool \<Rightarrow> Error + Grant" where
  "LookupFor h now wall resourceType who risk tighteningOnly =
     (case Lookup h now resourceType who risk of
        Inr g \<Rightarrow> Inr g
      | Inl e \<Rightarrow>
          if tighteningOnly \<and> Is (Proto e) ''be'' ReasonAuthorizationViewExpired
          then LookupStale h now wall resourceType who else Inl e)"

section \<open>The subject of a request\<close>

text \<open>What the request context carries of this: the cutoff and the stale basis.\<close>

record request_ctx =
  c_cutoff :: "duration option"
  c_stale :: "instant option"

definition WithCutoff :: "duration \<Rightarrow> request_ctx \<Rightarrow> request_ctx" where
  "WithCutoff boot ctx =
     ctx\<lparr>c_cutoff := Some (case c_cutoff ctx of Some prev \<Rightarrow> if prev < boot then prev else boot | None \<Rightarrow> boot)\<rparr>"

record Subject =
  su_Principal :: string
  su_Defs :: Definitions
  su_At :: instant

definition errUndeclared :: "string \<Rightarrow> go_error" where
  "errUndeclared op = OtherError (''operation '' @ op @ '' is not declared'')"

definition grant_risk :: "Definitions \<Rightarrow> Operation \<Rightarrow> Resource \<Rightarrow> string" where
  "grant_risk defs o' r =
     (case find_Operation defs (r_ViewOperation r) of
        Some v \<Rightarrow> if o_RiskClass v = ''high'' then ''high'' else o_RiskClass o'
      | None \<Rightarrow> o_RiskClass o')"

text \<open>\<open>None\<close> is the nil dereference for an operation whose resource type is not declared.\<close>

definition grant ::
  "Holder \<Rightarrow> Subject \<Rightarrow> duration \<Rightarrow> instant \<Rightarrow> request_ctx \<Rightarrow> string \<Rightarrow>
   (Error option + request_ctx \<times> Operation \<times> Resource \<times> Grant) option" where
  "grant h s now wall ctx op =
     (case find_Operation (su_Defs s) op of
        None \<Rightarrow> Some (Inl (From (Some (errUndeclared op))))
      | Some o' \<Rightarrow>
          (case find_Resource (su_Defs s) (o_ResourceType o') of
             None \<Rightarrow> None
           | Some r \<Rightarrow>
               (case LookupFor h now wall (r_Type r) (su_Principal s) (grant_risk (su_Defs s) o' r) (o_TighteningOnly o') of
                  Inl e \<Rightarrow> Some (Inl (Some e))
                | Inr g \<Rightarrow>
                    Some (Inr (WithCutoff (g_Cutoff g) (if g_Stale g then ctx\<lparr>c_stale := g_Since g\<rparr> else ctx), o', r, g)))))"

definition no_Decision :: Decision where
  "no_Decision = \<lparr>Visible = TriFalse, Action = TriFalse, Fields = []\<rparr>"

definition Subject_Check ::
  "libs \<Rightarrow> Holder \<Rightarrow> Subject \<Rightarrow> duration \<Rightarrow> instant \<Rightarrow> request_ctx \<Rightarrow> string \<Rightarrow> Facts \<Rightarrow> (request_ctx \<times> Decision \<times> Error option) option" where
  "Subject_Check lib h s now wall ctx op facts =
     (case grant h s now wall ctx op of
        None \<Rightarrow> None
      | Some (Inl e) \<Rightarrow> Some (ctx, no_Decision, e)
      | Some (Inr (ctx', o', r, g)) \<Rightarrow>
          map_option (\<lambda>d. (ctx', d, Decision_Err d)) (Evaluate lib r (g_Segments g) (o_Key o') facts (su_Principal s) (su_At s)))"

definition Decider ::
  "libs \<Rightarrow> Holder \<Rightarrow> Subject \<Rightarrow> duration \<Rightarrow> instant \<Rightarrow> request_ctx \<Rightarrow> string \<Rightarrow>
   (Error option + request_ctx \<times> (Facts \<Rightarrow> Decision option)) option" where
  "Decider lib h s now wall ctx op =
     (case grant h s now wall ctx op of
        None \<Rightarrow> None
      | Some (Inl e) \<Rightarrow> Some (Inl e)
      | Some (Inr (ctx', o', r, g)) \<Rightarrow>
          Some (Inr (ctx', \<lambda>f. Evaluate lib r (g_Segments g) (o_Key o') f (su_Principal s) (su_At s))))"

definition List_plan ::
  "libs \<Rightarrow> Holder \<Rightarrow> Subject \<Rightarrow> duration \<Rightarrow> instant \<Rightarrow> request_ctx \<Rightarrow> string \<Rightarrow> nat \<Rightarrow>
   (Error option + request_ctx \<times> (compile_error + Plan)) option" where
  "List_plan lib h s now wall ctx op argBase =
     (case grant h s now wall ctx op of
        None \<Rightarrow> None
      | Some (Inl e) \<Rightarrow> Some (Inl e)
      | Some (Inr (ctx', o', r, g)) \<Rightarrow>
          Some (Inr (ctx', Compile lib r (g_Segments g) (o_Key o') (su_Principal s) (su_At s) argBase)))"

text \<open>An output object shaped for the caller.\<close>

datatype 'v shaped = Shown 'v | Null | Names "string list"

definition Mask :: "Resource \<Rightarrow> (string \<times> 'v) list \<Rightarrow> string list \<Rightarrow> (string \<times> 'v shaped) list" where
  "Mask r out readable =
     (let passed = filter (\<lambda>(k, _). outputs r k) out;
          shaped = map (\<lambda>(k, v). (k, if k \<in> set readable then Shown v else Null)) passed;
          masked = map fst (filter (\<lambda>(k, _). k \<notin> set readable) passed)
      in if masked = [] then shaped else AList.update ''_masked'' (Names (sort masked)) shaped)"

section \<open>Admission\<close>

record User =
  us_Subject :: string
  us_SecurityVersion :: int
  us_Expiry :: instant

definition Stale :: "int \<Rightarrow> int \<Rightarrow> bool" where
  "Stale tokenSV viewSV \<longleftrightarrow> viewSV > tokenSV"

text \<open>
  \<open>verify\<close> is the verifier's answer for a credential. The result carries the context and the user.
\<close>

definition Admit ::
  "Definitions \<Rightarrow> Holder \<Rightarrow> (string \<Rightarrow> Error + User) \<Rightarrow> duration \<Rightarrow> instant \<Rightarrow> request_ctx \<Rightarrow> string \<Rightarrow> string \<Rightarrow>
   (Error option + request_ctx \<times> Subject) option" where
  "Admit defs h verify now wall ctx operation auth =
     (if \<not> has_prefix auth ''Bearer '' \<or> drop (length ''Bearer '') auth = []
      then Some (Inl (Some (New ReasonTokenInvalid ''the credential is missing or not valid'')))
      else case verify (drop (length ''Bearer '') auth) of
             Inl e \<Rightarrow> Some (Inl (Some e))
           | Inr user \<Rightarrow>
               (case find_Operation defs operation of
                  None \<Rightarrow> Some (Inl (From (Some (OtherError (''route operation '' @ operation @ '' is not declared'')))))
                | Some op \<Rightarrow>
                    (case find_Resource defs (o_ResourceType op) of
                       None \<Rightarrow> None
                     | Some res \<Rightarrow>
                         (case LookupFor h now wall (r_Type res) (us_Subject user) (o_RiskClass op) (o_TighteningOnly op) of
                            Inl e \<Rightarrow> Some (Inl (Some e))
                          | Inr g \<Rightarrow>
                              if Stale (us_SecurityVersion user) (g_SecurityVersion g)
                              then Some (Inl (Some (New ReasonTokenStale ''the credential predates the account's last security change'')))
                              else Some (Inr (WithCutoff (g_Cutoff g) (WithCutoff (now + (us_Expiry user - wall)) ctx),
                                              \<lparr>su_Principal = us_Subject user, su_Defs = defs, su_At = wall\<rparr>))))))"

definition CheckOperations :: "Definitions \<Rightarrow> string list \<Rightarrow> string option" where
  "CheckOperations defs ops =
     (let missing = filter (\<lambda>op. find_Operation defs op = None) ops
      in if missing = [] then None
         else Some (''operations used by routes or methods but not declared: '' @ joined '', '' (sort missing)))"

end
