(* ===== verification/Authz_View_Correct.thy ===== *)
theory Authz_View_Correct
  imports Authz_View Authz_Correct Transactions
begin

text \<open>
  How old the basis of a decision can be. A holder runs as a step relation: the loop's stall checks,
  requests and answers, at readings of a clock that does not go back. The authorization member is
  a function giving its view of a shard at each moment. The invariant of the reachable states
  says of every held shard which moment's view it is and which request renewed it.
\<close>

section \<open>The holder and the authorization member\<close>

type_synonym member_view = "string \<Rightarrow> duration \<Rightarrow> Shard"

text \<open>
  What is relied on: a view names its shard, two views of a shard with one digest are the same
  view, and an answer with the request's nonce was computed after the request was sent and
  before the answer arrived, by comparing digests or sending the view.
\<close>

definition member_ok :: "member_view \<Rightarrow> bool" where
  "member_ok source \<longleftrightarrow>
     (\<forall>n u. sh_Shard (source n u) = n) \<and>
     (\<forall>n u u'. sh_Digest (source n u) = sh_Digest (source n u') \<longrightarrow> source n u = source n u')"

definition honest_shard :: "member_view \<Rightarrow> VerifyRequest \<Rightarrow> duration \<Rightarrow> duration \<Rightarrow> ShardAnswer \<Rightarrow> bool" where
  "honest_shard source req sent now a \<longleftrightarrow>
     (\<exists>u. sent \<le> u \<and> u \<le> now \<and>
          (sa_Status a = ''unchanged'' \<longrightarrow> \<lparr>hl_Shard = sa_Shard a, hl_Digest = sh_Digest (source (sa_Shard a) u)\<rparr> \<in> set (vr_Held req)) \<and>
          (sa_Status a = ''changed'' \<longrightarrow> sa_View a = Some (source (sa_Shard a) u)))"

definition honest :: "member_view \<Rightarrow> VerifyRequest \<Rightarrow> duration \<Rightarrow> duration \<Rightarrow> go_error + VerifyAnswer \<Rightarrow> bool" where
  "honest source req sent now res =
     (case res of
        Inl _ \<Rightarrow> True
      | Inr ans \<Rightarrow> va_Nonce ans = vr_Nonce req \<longrightarrow> list_all (honest_shard source req sent now) (va_Shards ans))"

text \<open>The holder, the last reading of the clock, the request on its way, and the answers received so far with the reading their request was sent at.\<close>

record view_state =
  vs_holder :: Holder
  vs_clock :: duration
  vs_pending :: "(VerifyRequest \<times> duration) option"
  vs_answers :: "(duration \<times> VerifyAnswer) list"

inductive view_step :: "member_view \<Rightarrow> view_state \<Rightarrow> view_state \<Rightarrow> bool" for source where
  tick: "vs_clock st \<le> now \<Longrightarrow>
    view_step source st (st\<lparr>vs_holder := tick now wall (vs_holder st), vs_clock := now\<rparr>)"
| rest: "vs_clock st \<le> now \<Longrightarrow>
    view_step source st (st\<lparr>vs_holder := rest now wall (vs_holder st), vs_clock := now\<rparr>)"
| request: "vs_clock st \<le> now \<Longrightarrow> vs_pending st = None \<Longrightarrow>
    view_step source st (st\<lparr>vs_pending := Some (Verify_request nonce (vs_holder st), now), vs_clock := now\<rparr>)"
| answer: "vs_clock st \<le> now \<Longrightarrow> vs_pending st = Some (req, sent) \<Longrightarrow> honest source req sent now res \<Longrightarrow>
    view_step source st (st\<lparr>vs_holder := snd (Verify_answer req sent res (vs_holder st)), vs_pending := None, vs_clock := now,
                            vs_answers := (case res of Inl _ \<Rightarrow> [] | Inr ans \<Rightarrow> [(sent, ans)]) @ vs_answers st\<rparr>)"

inductive view_reachable :: "member_view \<Rightarrow> string \<Rightarrow> Definitions option \<Rightarrow> view_state \<Rightarrow> bool" for source component defs where
  start: "view_reachable source component defs
    \<lparr>vs_holder = NewHolder component defs, vs_clock = c, vs_pending = None, vs_answers = []\<rparr>"
| step: "view_reachable source component defs st \<Longrightarrow> view_step source st st' \<Longrightarrow> view_reachable source component defs st'"

section \<open>The invariant\<close>

text \<open>An answer confirms a shard, fully or for ordinary reads.\<close>

definition confirms :: "string \<Rightarrow> bool \<Rightarrow> VerifyAnswer \<Rightarrow> bool" where
  "confirms n full ans \<longleftrightarrow>
     (\<exists>a\<in>set (va_Shards ans). sa_Shard a = n \<and> sa_Status a \<in> {''unchanged'', ''changed''} \<and> (full \<longrightarrow> \<not> sa_ReadOnly a))"

definition based :: "member_view \<Rightarrow> Definitions option \<Rightarrow> duration \<Rightarrow> duration \<Rightarrow> string \<Rightarrow> held \<Rightarrow> bool" where
  "based source defs since now n s \<longleftrightarrow> (\<exists>u. since \<le> u \<and> u \<le> now \<and> hd_shard s = fitting defs (source n u))"

definition proven :: "(duration \<times> VerifyAnswer) list \<Rightarrow> string \<Rightarrow> held \<Rightarrow> bool" where
  "proven answers n s \<longleftrightarrow>
     (\<exists>ans. (hd_sentAt s, ans) \<in> set answers \<and> confirms n False ans) \<and>
     (hd_hasHigh s \<longrightarrow> hd_highAt s \<le> hd_sentAt s \<and> (\<exists>ans. (hd_highAt s, ans) \<in> set answers \<and> confirms n True ans))"

definition held_ok :: "member_view \<Rightarrow> Definitions option \<Rightarrow> (duration \<times> VerifyAnswer) list \<Rightarrow> duration \<Rightarrow> string \<Rightarrow> held \<Rightarrow> bool" where
  "held_ok source defs answers now n s \<longleftrightarrow> based source defs (hd_sentAt s) now n s \<and> proven answers n s"

definition shards_ok :: "(string \<Rightarrow> held \<Rightarrow> bool) \<Rightarrow> (string \<times> held) list \<Rightarrow> bool" where
  "shards_ok P shards \<longleftrightarrow> distinct (map fst shards) \<and> (\<forall>n s. map_of shards n = Some s \<longrightarrow> P n s)"

text \<open>A shard still held is the one the request on its way names, or was adopted since.\<close>

definition asked :: "VerifyRequest \<Rightarrow> string \<Rightarrow> held \<Rightarrow> bool" where
  "asked req n s \<longleftrightarrow> (\<forall>l\<in>set (vr_Held req). hl_Shard l = n \<longrightarrow> hl_Digest l = sh_Digest (hd_shard s))"

definition pending_ok :: "view_state \<Rightarrow> bool" where
  "pending_ok st =
     (case vs_pending st of
        None \<Rightarrow> True
      | Some (req, sent) \<Rightarrow>
          sent \<le> vs_clock st \<and> shards_ok (\<lambda>n s. hd_sentAt s \<le> sent \<and> asked req n s) (ho_shards (vs_holder st)))"

definition view_ok :: "member_view \<Rightarrow> Definitions option \<Rightarrow> view_state \<Rightarrow> bool" where
  "view_ok source defs st \<longleftrightarrow>
     ho_Defs (vs_holder st) = defs \<and>
     shards_ok (held_ok source defs (vs_answers st) (vs_clock st)) (ho_shards (vs_holder st)) \<and> pending_ok st"

subsection \<open>Association lists of shards\<close>

lemma shards_ok_Nil [simp]: "shards_ok P []"
  by (simp add: shards_ok_def)

lemma shards_ok_mono: "shards_ok P shards \<Longrightarrow> (\<And>n s. P n s \<Longrightarrow> Q n s) \<Longrightarrow> shards_ok Q shards"
  by (auto simp: shards_ok_def)

lemma shards_ok_update: "shards_ok P shards \<Longrightarrow> P n s \<Longrightarrow> shards_ok P (AList.update n s shards)"
  by (auto simp: shards_ok_def update_conv distinct_update)

lemma shards_ok_map_entry:
  assumes "shards_ok P shards" "\<And>s. map_of shards n = Some s \<Longrightarrow> P n s \<Longrightarrow> P n (f s)"
  shows "shards_ok P (AList.map_entry n f shards)"
  using assms by (auto simp: shards_ok_def map_of_map_entry split: option.splits)

lemma shards_ok_map_values:
  assumes "shards_ok P shards" "\<And>n s. P n s \<Longrightarrow> P n (f s)"
  shows "shards_ok P (map (\<lambda>(n, s). (n, f s)) shards)"
  using assms by (auto simp: shards_ok_def map_of_map comp_def split_def)

lemma shards_ok_in: "shards_ok P shards \<Longrightarrow> s \<in> set (map snd shards) \<Longrightarrow> \<exists>n. map_of shards n = Some s \<and> P n s"
  by (auto simp: shards_ok_def)

subsection \<open>One answer\<close>

definition loop_ok ::
  "member_view \<Rightarrow> Definitions option \<Rightarrow> VerifyRequest \<Rightarrow> duration \<Rightarrow> duration \<Rightarrow> (duration \<times> VerifyAnswer) list \<Rightarrow> string \<Rightarrow> held \<Rightarrow> bool" where
  "loop_ok source defs req sent now answers n s \<longleftrightarrow>
     held_ok source defs answers now n s \<and> hd_sentAt s \<le> sent \<and> (asked req n s \<or> based source defs sent now n s)"

lemma fitting_simps [simp]:
  "sh_Digest (fitting defs v) = sh_Digest v" "sh_Shard (fitting defs v) = sh_Shard v"
  "sh_Applicability (fitting defs v) = sh_Applicability v"
  by (simp_all add: fitting_def split: option.splits)

lemma renewed_sentAt [simp]: "hd_sentAt (renewed sent readOnly s) = sent"
  by (simp add: renewed_def Let_def)

lemma confirmed_based:
  assumes "loop_ok source defs req sent now answers (sa_Shard a) x" "honest_shard source req sent now a"
    and "sa_Status a = ''unchanged''" "member_ok source"
  shows "based source defs sent now (sa_Shard a) x"
proof -
  obtain u0 where u0: "hd_shard x = fitting defs (source (sa_Shard a) u0)"
    using assms(1) by (auto simp: loop_ok_def held_ok_def based_def)
  obtain u where u: "sent \<le> u" "u \<le> now"
    and l: "\<lparr>hl_Shard = sa_Shard a, hl_Digest = sh_Digest (source (sa_Shard a) u)\<rparr> \<in> set (vr_Held req)"
    using assms(2,3) by (auto simp: honest_shard_def)
  show ?thesis
  proof (cases "asked req (sa_Shard a) x")
    case True
    with l have "sh_Digest (source (sa_Shard a) u) = sh_Digest (source (sa_Shard a) u0)"
      by (auto simp: asked_def u0)
    with assms(4) have "source (sa_Shard a) u = source (sa_Shard a) u0"
      by (auto simp: member_ok_def)
    with u u0 show ?thesis by (auto simp: based_def)
  next
    case False
    with assms(1) show ?thesis by (simp add: loop_ok_def)
  qed
qed

lemma renewed_ok:
  assumes "loop_ok source defs req sent now answers (sa_Shard a) x" "honest_shard source req sent now a"
    and "sa_Status a = ''unchanged''" "member_ok source" "a \<in> set (va_Shards ans)" "(sent, ans) \<in> set answers"
  shows "loop_ok source defs req sent now answers (sa_Shard a) (renewed sent (sa_ReadOnly a) x)"
proof -
  have "based source defs sent now (sa_Shard a) (renewed sent (sa_ReadOnly a) x)"
    using confirmed_based [OF assms(1-4)] by (simp add: based_def renewed_def Let_def)
  moreover have "confirms (sa_Shard a) False ans" "\<not> sa_ReadOnly a \<Longrightarrow> confirms (sa_Shard a) True ans"
    using assms(3,5) by (auto simp: confirms_def)
  then have "proven answers (sa_Shard a) (renewed sent (sa_ReadOnly a) x)"
    using assms(1,6) by (auto simp: loop_ok_def held_ok_def proven_def renewed_def Let_def)
  ultimately show ?thesis
    by (simp add: loop_ok_def held_ok_def)
qed

lemma adopted_ok:
  assumes "honest_shard source req sent now a" "sa_Status a = ''changed''" "sa_View a = Some v"
    and "a \<in> set (va_Shards ans)" "(sent, ans) \<in> set answers"
    and "hasHigh \<longrightarrow> high \<le> sent \<and> (\<exists>ans'. (high, ans') \<in> set answers \<and> confirms (sa_Shard a) True ans')"
  shows "loop_ok source defs req sent now answers (sa_Shard a) (adopted (fitting defs v) sent high hasHigh stale)"
proof -
  have "confirms (sa_Shard a) False ans"
    using assms(2,4) by (auto simp: confirms_def)
  then show ?thesis
    using assms by (auto simp: loop_ok_def held_ok_def proven_def adopted_def based_def honest_shard_def)
qed

lemma flags_ok:
  assumes "loop_ok source defs req sent now answers n s" "hd_shard s' = hd_shard s" "hd_sentAt s' = hd_sentAt s"
    "hd_highAt s' = hd_highAt s" "hd_hasHigh s' = hd_hasHigh s"
  shows "loop_ok source defs req sent now answers n s'"
  using assms by (simp add: loop_ok_def held_ok_def based_def proven_def asked_def)

lemma changed_ok:
  assumes ok: "shards_ok (loop_ok source defs req sent now answers) shards"
    and a: "honest_shard source req sent now a" "sa_Status a = ''changed''" "sa_View a = Some v"
      "a \<in> set (va_Shards ans)" "(sent, ans) \<in> set answers"
  shows "shards_ok (loop_ok source defs req sent now answers) (apply_shard defs newer sent a shards)"
proof -
  let ?P = "loop_ok source defs req sent now answers" and ?new = "\<lambda>high hasHigh stale. adopted (fitting defs v) sent high hasHigh stale"
  note new = adopted_ok [OF a]
  have "confirms (sa_Shard a) True ans" if "\<not> sa_ReadOnly a"
    using that a by (auto simp: confirms_def)
  then have full: "?P (sa_Shard a) (?new sent True False)" if "\<not> sa_ReadOnly a"
    using that a(5) by (intro new) auto
  have fresh: "?P (sa_Shard a) (?new 0 False True)"
    by (rule new) simp
  have over: "?P (sa_Shard a) (?new (hd_highAt x) (hd_hasHigh x) True)" if "map_of shards (sa_Shard a) = Some x" for x
    using that ok by (intro new) (fastforce simp: shards_ok_def loop_ok_def held_ok_def proven_def)
  have stopped: "shards_ok ?P (AList.map_entry (sa_Shard a) (\<lambda>y. y\<lparr>hd_stopped := True\<rparr>) shards)"
    using ok by (rule shards_ok_map_entry) (auto elim: flags_ok)
  show ?thesis
    using full fresh over stopped ok a(2,3)
    by (cases "map_of shards (sa_Shard a)") (auto simp: apply_shard_def Let_def intro!: shards_ok_update)
qed

lemma apply_shard_other:
  "sa_Status a \<noteq> ''unchanged'' \<Longrightarrow> sa_Status a \<noteq> ''closed'' \<Longrightarrow> sa_Status a \<noteq> ''changed'' \<or> sa_View a = None \<Longrightarrow>
   apply_shard defs newer sent a shards = shards"
  by (auto simp: apply_shard_def Let_def)

lemma apply_shard_ok:
  assumes ok: "shards_ok (loop_ok source defs req sent now answers) shards"
    and a: "honest_shard source req sent now a" "a \<in> set (va_Shards ans)" "(sent, ans) \<in> set answers" "member_ok source"
  shows "shards_ok (loop_ok source defs req sent now answers) (apply_shard defs newer sent a shards)"
proof -
  let ?P = "loop_ok source defs req sent now answers"
  consider "sa_Status a = ''unchanged''" | v where "sa_Status a = ''changed''" "sa_View a = Some v" | "sa_Status a = ''closed''"
    | "apply_shard defs newer sent a shards = shards"
    using apply_shard_other by (metis not_None_eq)
  then show ?thesis
  proof cases
    case 1
    have "shards_ok ?P (AList.map_entry (sa_Shard a) (renewed sent (sa_ReadOnly a)) shards)"
      using ok by (rule shards_ok_map_entry) (use 1 a renewed_ok in blast)
    then show ?thesis
      using 1 ok by (auto simp: apply_shard_def Let_def split: option.splits)
  next
    case 2
    then show ?thesis using changed_ok ok a by blast
  next
    case 3
    have "shards_ok ?P (AList.map_entry (sa_Shard a) (\<lambda>y. y\<lparr>hd_sourceStale := True\<rparr>) shards)"
      using ok by (rule shards_ok_map_entry) (auto elim: flags_ok)
    with 3 show ?thesis by (simp add: apply_shard_def Let_def)
  qed (use ok in simp)
qed

lemma apply_shards_ok:
  assumes "shards_ok (loop_ok source defs req sent now answers) shards" "list_all (honest_shard source req sent now) as"
    "set as \<subseteq> set (va_Shards ans)" "(sent, ans) \<in> set answers" "member_ok source"
  shows "shards_ok (loop_ok source defs req sent now answers) (foldl (\<lambda>shards a. apply_shard defs newer sent a shards) shards as)"
  using assms
proof (induction as arbitrary: shards)
  case (Cons a as)
  have "shards_ok (loop_ok source defs req sent now answers) (apply_shard defs newer sent a shards)"
    by (rule apply_shard_ok) (use Cons.prems in auto)
  with Cons show ?case by simp
qed simp

lemma apply_answer_ok:
  assumes "shards_ok (loop_ok source defs req sent now answers) (ho_shards h)" "ho_Defs h = defs"
    "list_all (honest_shard source req sent now) (va_Shards ans)" "(sent, ans) \<in> set answers" "member_ok source"
  shows "shards_ok (loop_ok source defs req sent now answers) (ho_shards (snd (apply_answer ans gen sent h)))"
proof -
  have "shards_ok (loop_ok source defs req sent now answers) (map (\<lambda>(n, s). (n, s\<lparr>hd_suspended := True\<rparr>)) (ho_shards h))"
    using assms(1) by (rule shards_ok_map_values) (auto elim: flags_ok)
  then show ?thesis
    using assms by (auto simp: apply_answer_def Let_def intro: apply_shards_ok)
qed

subsection \<open>Every step\<close>

lemma held_ok_mono:
  assumes "held_ok source defs answers now n s" "now \<le> now'" "set answers \<subseteq> set answers'"
  shows "held_ok source defs answers' now' n s"
proof -
  have "based source defs (hd_sentAt s) now' n s"
    using assms(1,2) by (auto simp: held_ok_def based_def intro: order_trans)
  moreover have "proven answers' n s"
    using assms(1,3) by (auto simp: held_ok_def proven_def)
  ultimately show ?thesis by (simp add: held_ok_def)
qed

lemma shards_held_mono:
  "shards_ok (held_ok source defs answers now) shards \<Longrightarrow> now \<le> now' \<Longrightarrow> set answers \<subseteq> set answers' \<Longrightarrow>
   shards_ok (held_ok source defs answers' now') shards"
  by (erule shards_ok_mono) (rule held_ok_mono)

lemma tick_shards: "ho_shards (tick now wall h) = ho_shards h \<or> ho_shards (tick now wall h) = []"
  and tick_Defs [simp]: "ho_Defs (tick now wall h) = ho_Defs h"
  by (simp_all add: tick_def Let_def)

lemma rest_simps [simp]: "ho_shards (rest now wall h) = ho_shards h" "ho_Defs (rest now wall h) = ho_Defs h"
  by (simp_all add: rest_def)

lemma apply_answer_Defs [simp]: "ho_Defs (snd (apply_answer ans gen sent h)) = ho_Defs h"
  by (simp add: apply_answer_def Let_def)

lemma Verify_answer_cases:
  obtains "snd (Verify_answer req sent res h) = h"
  | ans gen where "res = Inr ans" "va_Nonce ans = vr_Nonce req" "snd (Verify_answer req sent res h) = snd (apply_answer ans gen sent h)"
proof -
  have "snd (Verify_answer req sent res h) = h \<or>
    (\<exists>ans gen. res = Inr ans \<and> va_Nonce ans = vr_Nonce req \<and> snd (Verify_answer req sent res h) = snd (apply_answer ans gen sent h))"
    by (auto simp: Verify_answer_def split: sum.splits)
  then show ?thesis using that by blast
qed

lemma view_ok_shards:
  assumes "view_ok source defs st" "ho_Defs h = defs" "ho_shards h = ho_shards (vs_holder st) \<or> ho_shards h = []" "vs_clock st \<le> now"
  shows "view_ok source defs (st\<lparr>vs_holder := h, vs_clock := now\<rparr>)"
proof -
  have "shards_ok (held_ok source defs (vs_answers st) now) (ho_shards h)"
    using assms shards_held_mono by (fastforce simp: view_ok_def)
  then show ?thesis
    using assms by (auto simp: view_ok_def pending_ok_def split: option.splits)
qed

lemma request_asks:
  assumes "member_ok source" "shards_ok (held_ok source defs answers now) (ho_shards h)" "map_of (ho_shards h) n = Some s"
  shows "asked (Verify_request nonce h) n s"
proof -
  have "hl_Digest l = sh_Digest (hd_shard s)" if l: "l \<in> set (vr_Held (Verify_request nonce h))" "hl_Shard l = n" for l
  proof -
    obtain k x where x: "(k, x) \<in> set (ho_shards h)" "l = \<lparr>hl_Shard = sh_Shard (hd_shard x), hl_Digest = sh_Digest (hd_shard x)\<rparr>"
      using l(1) by (auto simp: Verify_request_def)
    then have k: "map_of (ho_shards h) k = Some x"
      using assms(2) by (simp add: shards_ok_def)
    then have "sh_Shard (hd_shard x) = k"
      using assms(1,2) by (fastforce simp: shards_ok_def held_ok_def based_def member_ok_def)
    then show ?thesis
      using x k l(2) assms(3) by simp
  qed
  then show ?thesis by (simp add: asked_def)
qed

lemma view_ok_request:
  assumes "member_ok source" "view_ok source defs st" "vs_clock st \<le> now"
  shows "view_ok source defs (st\<lparr>vs_pending := Some (Verify_request nonce (vs_holder st), now), vs_clock := now\<rparr>)"
proof -
  let ?h = "vs_holder st"
  have ok: "shards_ok (held_ok source defs (vs_answers st) (vs_clock st)) (ho_shards ?h)"
    using assms(2) by (simp add: view_ok_def)
  have "shards_ok (held_ok source defs (vs_answers st) now) (ho_shards ?h)"
    using ok assms(3) by (rule shards_held_mono) simp
  moreover have "hd_sentAt s \<le> now \<and> asked (Verify_request nonce ?h) n s" if "map_of (ho_shards ?h) n = Some s" for n s
    using that ok assms(3) request_asks [OF assms(1) ok that] by (force simp: shards_ok_def held_ok_def based_def)
  ultimately show ?thesis
    using assms(2) by (auto simp: view_ok_def pending_ok_def shards_ok_def)
qed

lemma view_ok_answer:
  assumes "member_ok source" "view_ok source defs st" "vs_clock st \<le> now" "vs_pending st = Some (req, sent)" "honest source req sent now res"
  shows "view_ok source defs (st\<lparr>vs_holder := snd (Verify_answer req sent res (vs_holder st)), vs_pending := None, vs_clock := now,
                                vs_answers := (case res of Inl _ \<Rightarrow> [] | Inr ans \<Rightarrow> [(sent, ans)]) @ vs_answers st\<rparr>)"
proof -
  let ?answers = "(case res of Inl _ \<Rightarrow> [] | Inr ans \<Rightarrow> [(sent, ans)]) @ vs_answers st" and ?h = "vs_holder st"
  have ok: "shards_ok (held_ok source defs ?answers now) (ho_shards ?h)"
    using assms(2,3) by (auto simp: view_ok_def intro: shards_held_mono)
  have "shards_ok (held_ok source defs ?answers now) (ho_shards (snd (Verify_answer req sent res ?h)))"
  proof (cases rule: Verify_answer_cases [of req sent res ?h])
    case 1
    with ok show ?thesis by simp
  next
    case (2 ans gen)
    have "shards_ok (\<lambda>n s. hd_sentAt s \<le> sent \<and> asked req n s) (ho_shards ?h)"
      using assms(2,4) by (simp add: view_ok_def pending_ok_def)
    with ok have "shards_ok (loop_ok source defs req sent now ?answers) (ho_shards ?h)"
      by (simp add: shards_ok_def loop_ok_def)
    then have "shards_ok (loop_ok source defs req sent now ?answers) (ho_shards (snd (apply_answer ans gen sent ?h)))"
      using assms(1,2,5) 2 by (intro apply_answer_ok) (auto simp: view_ok_def honest_def)
    then show ?thesis
      unfolding 2(3) by (rule shards_ok_mono) (simp add: loop_ok_def)
  qed
  then show ?thesis
    using assms(2) by (cases rule: Verify_answer_cases [of req sent res ?h]) (auto simp: view_ok_def pending_ok_def)
qed

lemma view_step_ok:
  assumes "view_step source st st'" "member_ok source" "view_ok source defs st"
  shows "view_ok source defs st'"
  using assms
proof cases
  case (tick now wall)
  have "ho_Defs (vs_holder st) = defs"
    using assms(3) by (simp add: view_ok_def)
  then show ?thesis
    unfolding tick(1) using tick_shards by (intro view_ok_shards [OF assms(3) _ _ tick(2)]) simp_all
next
  case (rest now wall)
  have "ho_Defs (vs_holder st) = defs"
    using assms(3) by (simp add: view_ok_def)
  then show ?thesis
    unfolding rest(1) by (intro view_ok_shards [OF assms(3) _ _ rest(2)]) simp_all
next
  case (request now nonce)
  then show ?thesis
    using view_ok_request assms(2,3) by simp
next
  case (answer now req sent res)
  then show ?thesis
    using view_ok_answer assms(2,3) by simp
qed

lemma view_reachable_ok:
  assumes "view_reachable source component defs st" "member_ok source"
  shows "view_ok source defs st"
  using assms
proof induction
  case (start c)
  then show ?case by (simp add: view_ok_def pending_ok_def NewHolder_def)
next
  case (step st st')
  then show ?case using view_step_ok by blast
qed

section \<open>What a grant is based on\<close>

lemma Lookup_Inr:
  assumes "Lookup h now resourceType who risk = Inr g"
  obtains n s where "(n, s) \<in> set (ho_shards h)" "shard_valid now resourceType risk s"
    "g_Segments g = granted (hd_shard s) resourceType who" "g_Cutoff g = valid_from risk s + window risk" "\<not> g_Stale g"
proof -
  obtain s where s: "find (shard_valid now resourceType risk) (map snd (ho_shards h)) = Some s"
    and g: "g = \<lparr>g_Segments = granted (hd_shard s) resourceType who, g_Stale = False, g_Since = None,
               g_Cutoff = valid_from risk s + window risk, g_SecurityVersion = se_SecurityVersion (entry_of (hd_shard s) who)\<rparr>"
    using assms by (auto simp: Lookup_def split: option.splits)
  have "s \<in> set (map snd (ho_shards h))" "shard_valid now resourceType risk s"
    using s by (metis find_Some_iff nth_mem)+
  then show ?thesis
    using that g by auto
qed

text \<open>
  A grant at a reading of the clock rests on the member's view at some moment: a renewal sent at
  the start of the validity confirmed it, fully for a high-risk operation.
\<close>

definition rests_on ::
  "member_view \<Rightarrow> Definitions option \<Rightarrow> (duration \<times> VerifyAnswer) list \<Rightarrow> duration \<Rightarrow> string \<Rightarrow> string \<Rightarrow> string \<Rightarrow> Segment list \<Rightarrow> duration \<Rightarrow> bool" where
  "rests_on source defs answers now resourceType who risk segs cutoff \<longleftrightarrow>
     now < cutoff \<and>
     (\<exists>n u ans. cutoff - window risk \<le> u \<and> u \<le> now \<and> segs = granted (fitting defs (source n u)) resourceType who \<and>
                resourceType \<in> set (sh_Applicability (source n u)) \<and>
                (cutoff - window risk, ans) \<in> set answers \<and> confirms n (risk = ''high'') ans)"

lemma Lookup_rests_on:
  assumes "view_reachable source component defs st" "member_ok source" "vs_clock st \<le> now"
    and "Lookup (vs_holder st) now resourceType who risk = Inr g"
  shows "rests_on source defs (vs_answers st) now resourceType who risk (g_Segments g) (g_Cutoff g)"
proof -
  obtain n s where s: "(n, s) \<in> set (ho_shards (vs_holder st))" "shard_valid now resourceType risk s"
    and g: "g_Segments g = granted (hd_shard s) resourceType who" "g_Cutoff g = valid_from risk s + window risk"
    by (rule Lookup_Inr [OF assms(4)])
  have "held_ok source defs (vs_answers st) (vs_clock st) n s"
    using view_reachable_ok [OF assms(1,2)] s(1) by (simp add: view_ok_def shards_ok_def)
  then obtain u where u: "hd_sentAt s \<le> u" "u \<le> vs_clock st" "hd_shard s = fitting defs (source n u)" and p: "proven (vs_answers st) n s"
    by (auto simp: held_ok_def based_def)
  have "valid_from risk s \<le> hd_sentAt s" "\<exists>ans. (valid_from risk s, ans) \<in> set (vs_answers st) \<and> confirms n (risk = ''high'') ans"
    using p s(2) by (auto simp: proven_def valid_from_def shard_valid_def)
  then show ?thesis
    using u g s(2) assms(3) by (auto simp: rests_on_def shard_valid_def intro!: exI [of _ n] exI [of _ u])
qed

lemma LookupFor_Lookup: "LookupFor h now wall rt who risk False = Lookup h now rt who risk"
  by (simp add: LookupFor_def split: sum.splits)

lemma WithCutoff_shortens: "\<exists>c. c_cutoff (WithCutoff boot ctx) = Some c \<and> c \<le> boot"
  by (auto simp: WithCutoff_def split: option.splits)

lemma Subject_Check_allowed:
  assumes "Subject_Check lib h s now wall ctx op facts = Some (ctx', d, None)"
    and "find_Operation (su_Defs s) op = Some o'" "\<not> o_TighteningOnly o'"
  obtains r g where "find_Resource (su_Defs s) (o_ResourceType o') = Some r"
    "Lookup h now (r_Type r) (su_Principal s) (grant_risk (su_Defs s) o' r) = Inr g" "\<exists>c. c_cutoff ctx' = Some c \<and> c \<le> g_Cutoff g"
    "Evaluate lib r (g_Segments g) (o_Key o') facts (su_Principal s) (su_At s) = Some d" "Decision_Err d = None"
proof -
  obtain r where r: "find_Resource (su_Defs s) (o_ResourceType o') = Some r"
    using assms by (auto simp: Subject_Check_def grant_def split: option.splits)
  then obtain g where g: "Lookup h now (r_Type r) (su_Principal s) (grant_risk (su_Defs s) o' r) = Inr g"
    using assms by (cases "Lookup h now (r_Type r) (su_Principal s) (grant_risk (su_Defs s) o' r)")
      (auto simp: Subject_Check_def grant_def LookupFor_Lookup)
  have "ctx' = WithCutoff (g_Cutoff g) (if g_Stale g then ctx\<lparr>c_stale := g_Since g\<rparr> else ctx)"
    "Evaluate lib r (g_Segments g) (o_Key o') facts (su_Principal s) (su_At s) = Some d" "Decision_Err d = None"
    using assms r g by (auto simp: Subject_Check_def grant_def LookupFor_Lookup)
  with r g WithCutoff_shortens that show ?thesis by metis
qed

lemma grant_risk_high: "o_RiskClass o' = ''high'' \<Longrightarrow> grant_risk defs o' r = ''high''"
  by (simp add: grant_risk_def split: option.splits)

lemma Decision_Err_None: "Decision_Err d = None \<longleftrightarrow> Visible d = TriTrue \<and> Action d = TriTrue"
  by (cases "Visible d"; cases "Action d") (auto simp: Decision_Err_def)

lemma Evaluate_no_segments: "Evaluate lib r [] op facts who t = Some d \<Longrightarrow> Visible d = TriFalse"
  by (auto simp: Evaluate_def entitled_def split: if_splits)

lemma once_before_cutoff:
  assumes "once srv fn k db = (Inr a, db', hooks, rolled)" "sv_cutoff srv = Some c"
  shows "sv_Boot srv k < c"
  using assms by (auto simp: once_def check_cutoff_def Let_def split: option.splits sum.splits prod.splits if_splits)

lemma entry_of_fitting:
  "entry_of (fitting (Some ds) v) who = (entry_of v who)\<lparr>se_Segments := filter (fits_defs ds) (se_Segments (entry_of v who))\<rparr>"
proof -
  have "map_of (map (\<lambda>(p, e). (p, e\<lparr>se_Segments := filter (fits_defs ds) (se_Segments e)\<rparr>)) es) who =
      map_option (\<lambda>e. e\<lparr>se_Segments := filter (fits_defs ds) (se_Segments e)\<rparr>) (map_of es who)"
    for es :: "(string \<times> SubjectEntry) list"
    by (induction es) auto
  then show ?thesis
    by (cases "map_of (sh_Subjects v) who") (simp_all add: fitting_def entry_of_def no_entry_def)
qed

lemma fitting_disabled: "se_AccountsDisabled (entry_of (fitting defs v) who) = se_AccountsDisabled (entry_of v who)"
  by (cases defs) (simp_all add: entry_of_fitting, simp add: fitting_def)

section \<open>Properties\<close>

text \<open>
  C5. A committed change was permitted by a recent view. Take any history of a holder and a member
  that answers honestly, and a check of a record that allowed an operation (not one of those that
  may use a stale view). Then the operation is visible and allowed under the segments that the
  member's view gave the principal at some moment \<open>u\<close>, less those that do not fit the declarations;
  the view applies to the resource type and does not have the principal's accounts disabled. If a
  transaction of the request commits, the clock reading of its check is less than the
  validity, 29.97 seconds, or 4.995 for an operation of high risk, after \<open>u\<close>, and an answer
  to a request sent at the start of that validity confirmed the shard, fully for a high risk. So
  what the member revokes stops committing within that time.
\<close>

theorem authz_revocation_bound:
  assumes "view_reachable source component defs st" "member_ok source" "vs_clock st \<le> now"
    and "find_Operation (su_Defs subj) op = Some o'" "\<not> o_TighteningOnly o'"
    and "Subject_Check lib (vs_holder st) subj now wall ctx op facts = Some (ctx', d, None)"
    and "sv_cutoff srv = c_cutoff ctx'" "once srv fn k db = (Inr a, db', hooks, rolled)"
  shows "\<exists>r risk n u sent ans.
           find_Resource (su_Defs subj) (o_ResourceType o') = Some r \<and>
           (o_RiskClass o' = ''high'' \<longrightarrow> risk = ''high'') \<and>
           Evaluate lib r (granted (fitting defs (source n u)) (r_Type r) (su_Principal subj)) (o_Key o') facts
             (su_Principal subj) (su_At subj) = Some d \<and>
           Visible d = TriTrue \<and> Action d = TriTrue \<and>
           r_Type r \<in> set (sh_Applicability (source n u)) \<and> \<not> se_AccountsDisabled (entry_of (source n u) (su_Principal subj)) \<and>
           (sent, ans) \<in> set (vs_answers st) \<and> confirms n (risk = ''high'') ans \<and> sent \<le> u \<and> u \<le> now \<and>
           sv_Boot srv k < sent + (if risk = ''high'' then 4995000000 else 29970000000)"
proof -
  obtain r g where r: "find_Resource (su_Defs subj) (o_ResourceType o') = Some r"
    and look: "Lookup (vs_holder st) now (r_Type r) (su_Principal subj) (grant_risk (su_Defs subj) o' r) = Inr g"
    and g: "\<exists>c. c_cutoff ctx' = Some c \<and> c \<le> g_Cutoff g"
    and d: "Evaluate lib r (g_Segments g) (o_Key o') facts (su_Principal subj) (su_At subj) = Some d" "Decision_Err d = None"
    by (rule Subject_Check_allowed [OF assms(6,4,5)])
  let ?risk = "grant_risk (su_Defs subj) o' r"
  have "sv_Boot srv k < g_Cutoff g"
    using g once_before_cutoff [OF assms(8)] assms(7) by force
  moreover have "window ?risk = (if ?risk = ''high'' then 4995000000 else 29970000000)"
    by (simp add: window_def valid_for_def)
  moreover obtain n u ans where u: "g_Cutoff g - window ?risk \<le> u" "u \<le> now"
    and segs: "g_Segments g = granted (fitting defs (source n u)) (r_Type r) (su_Principal subj)"
    and v: "r_Type r \<in> set (sh_Applicability (source n u))"
      "(g_Cutoff g - window ?risk, ans) \<in> set (vs_answers st)" "confirms n (?risk = ''high'') ans"
    using Lookup_rests_on [OF assms(1-3) look] by (auto simp: rests_on_def)
  moreover have "\<not> se_AccountsDisabled (entry_of (source n u) (su_Principal subj))"
    using d Evaluate_no_segments [of lib r] by (auto simp: segs granted_def fitting_disabled Let_def Decision_Err_None)
  ultimately show ?thesis
    using r d by (intro exI [of _ r] exI [of _ ?risk] exI [of _ n] exI [of _ u] exI [of _ "g_Cutoff g - window ?risk"] exI [of _ ans])
      (simp add: Decision_Err_None grant_risk_high)
qed

text \<open>A holder that asked at 1, was answered at 2 with the view of the manager, and a transaction checked at 4.\<close>

definition demo_revision :: Revision where
  "demo_revision = \<lparr>rv_Domain = ''d'', rv_Value = ''1'', rv_Epoch = ''1.1'', rv_Instance = ''i''\<rparr>"

definition demo_source :: member_view where
  "demo_source n u = \<lparr>sh_Shard = n, sh_RecoveryGeneration = demo_revision, sh_SecurityRevisions = [demo_revision],
     sh_Applicability = [''expense''],
     sh_Subjects = [(''me'', \<lparr>se_Segments = [demo_segment], se_AccountsDisabled = False, se_SecurityVersion = 1\<rparr>)],
     sh_Capabilities = [], sh_Digest = ''x''\<rparr>"

definition demo_operation :: Operation where
  "demo_operation = \<lparr>o_Key = ''view'', o_ResourceType = ''expense'', o_Purpose = ''view'', o_RiskClass = ''high'', o_SideEffects = [],
     o_Audit = False, o_StrictAudit = False, o_MinimumPath = [], o_RequiresAppointment = False, o_Delegable = False,
     o_ImpersonationAllowed = False, o_TighteningOnly = False, o_OutputReadOperation = [], o_SelfReviewRule = []\<rparr>"

definition demo_definitions :: Definitions where
  "demo_definitions = \<lparr>ds_Component = ''c'', ds_Resources = [demo_resource], ds_Operations = [demo_operation]\<rparr>"

definition demo_answer :: VerifyAnswer where
  "demo_answer = \<lparr>va_Nonce = ''n'', va_ComputedAt = [], va_Instance = ''i'',
     va_Shards = [\<lparr>sa_Shard = ''s'', sa_Status = ''changed'', sa_View = Some (demo_source ''s'' 2), sa_ReadOnly = False\<rparr>],
     va_RecoveryGeneration = demo_revision\<rparr>"

definition demo_state :: view_state where
  "demo_state =
     (let h = NewHolder ''c'' (Some demo_definitions)
      in \<lparr>vs_holder = snd (Verify_answer (Verify_request ''n'' h) 1 (Inr demo_answer) h), vs_clock = 2, vs_pending = None,
          vs_answers = [(1, demo_answer)]\<rparr>)"

definition demo_subject :: Subject where
  "demo_subject = \<lparr>su_Principal = ''me'', su_Defs = demo_definitions, su_At = 0\<rparr>"

lemma demo_reachable: "view_reachable demo_source ''c'' (Some demo_definitions) demo_state"
proof -
  let ?h = "NewHolder ''c'' (Some demo_definitions)"
  let ?s0 = "\<lparr>vs_holder = ?h, vs_clock = 0, vs_pending = None, vs_answers = []\<rparr>"
  let ?s1 = "?s0\<lparr>vs_pending := Some (Verify_request ''n'' ?h, 1), vs_clock := 1\<rparr>"
  have "view_step demo_source ?s0 ?s1"
    using view_step.request [of ?s0 1 demo_source "''n''"] by simp
  then have 1: "view_reachable demo_source ''c'' (Some demo_definitions) ?s1"
    by (rule view_reachable.step [OF view_reachable.start])
  have "honest demo_source (Verify_request ''n'' ?h) 1 2 (Inr demo_answer)"
    by (simp add: honest_def honest_shard_def demo_answer_def) (auto intro!: exI [of _ 2])
  then have "view_step demo_source ?s1 demo_state"
    using view_step.answer [of ?s1 2 "Verify_request ''n'' ?h" 1 demo_source "Inr demo_answer"] by (simp add: demo_state_def Let_def)
  then show ?thesis
    by (rule view_reachable.step [OF 1])
qed

lemma demo_member: "member_ok demo_source"
  by (simp add: member_ok_def demo_source_def)

lemma demo_parsed: "ParseInt ''1'' = (1, None)"
  by (simp add: ParseInt_def ParseUint_def is_digit_def digit_val_def)

lemma demo_checked: "Check demo_segment demo_resource = None"
  using demo_usable by (simp add: usable_def)

lemma demo_found: "find_Resource demo_definitions ''expense'' = Some demo_resource" "find_Operation demo_definitions ''view'' = Some demo_operation"
  by (simp_all add: find_Resource_def find_Operation_def demo_definitions_def demo_resource_def demo_operation_def)

lemma demo_fitting: "fitting (Some demo_definitions) (demo_source n u) = demo_source n u"
proof -
  have "s_ResourceType demo_segment = ''expense''"
    by (simp add: demo_segment_def)
  then show ?thesis
    by (simp add: fitting_def demo_source_def fits_defs_def demo_found demo_checked)
qed

lemma demo_shards: "ho_shards (vs_holder demo_state) = [(''s'', adopted (demo_source ''s'' 2) 1 1 True False)]"
  by (simp add: demo_state_def Verify_answer_def Verify_request_def NewHolder_def demo_answer_def demo_revision_def demo_parsed
      apply_answer_def foreign_def apply_shard_def demo_fitting Let_def)
     (simp add: demo_source_def demo_revision_def)

lemma demo_lookup:
  "Lookup (vs_holder demo_state) 3 ''expense'' ''me'' ''high'' =
   Inr \<lparr>g_Segments = [demo_segment], g_Stale = False, g_Since = None, g_Cutoff = 4995000001, g_SecurityVersion = 1\<rparr>"
  by (simp add: Lookup_def demo_shards shard_valid_def valid_from_def window_def valid_for_def adopted_def granted_def entry_of_def
      demo_source_def demo_segment_def)

definition demo_ctx :: request_ctx where
  "demo_ctx = \<lparr>c_cutoff = None, c_stale = None\<rparr>"

lemma demo_grant:
  "\<exists>g. grant (vs_holder demo_state) demo_subject 3 0 demo_ctx ''view'' = Some (Inr (WithCutoff 4995000001 demo_ctx, demo_operation, demo_resource, g)) \<and>
       g_Segments g = [demo_segment]"
proof -
  have "grant_risk demo_definitions demo_operation demo_resource = ''high''"
    by (rule grant_risk_high) (simp add: demo_operation_def)
  moreover have "o_ResourceType demo_operation = ''expense''" "\<not> o_TighteningOnly demo_operation" "r_Type demo_resource = ''expense''"
    by (simp_all add: demo_operation_def demo_resource_def)
  ultimately show ?thesis
    by (simp add: grant_def demo_subject_def demo_found LookupFor_Lookup demo_lookup)
qed

lemma demo_check:
  "\<exists>d. Subject_Check demo_libs (vs_holder demo_state) demo_subject 3 0 demo_ctx ''view'' demo_facts =
       Some (WithCutoff 4995000001 demo_ctx, d, None)"
proof -
  have "\<not> Option.is_none (Evaluate demo_libs demo_resource [demo_segment] ''view'' demo_facts ''me'' 0)"
    "map_option Decision_Err (Evaluate demo_libs demo_resource [demo_segment] ''view'' demo_facts ''me'' 0) = Some None"
    by code_simp+
  then obtain d where "Evaluate demo_libs demo_resource [demo_segment] ''view'' demo_facts ''me'' 0 = Some d" "Decision_Err d = None"
    by auto
  moreover have "o_Key demo_operation = ''view''" "su_Principal demo_subject = ''me''" "su_At demo_subject = 0"
    by (simp_all add: demo_operation_def demo_subject_def)
  ultimately show ?thesis
    using demo_grant by (auto simp: Subject_Check_def)
qed

definition demo_commit :: "unit list server" where
  "demo_commit = \<lparr>sv_InTx = False, sv_budget = Free, sv_ctx = None, sv_Acquire = (\<lambda>_. None), sv_BeginTx = (\<lambda>_. None),
     sv_settings = (\<lambda>_. None), sv_others = (\<lambda>_ db. db), sv_cutoff = Some 4995000001, sv_window = (\<lambda>_. None), sv_Boot = (\<lambda>_. 4),
     sv_Commit = (\<lambda>_. None), sv_took_effect = (\<lambda>_. True), sv_PgCode = (\<lambda>_. None), sv_PgDetail = (\<lambda>_. []), sv_unreachable = (\<lambda>_. False)\<rparr>"

lemma demo_committed: "once demo_commit (\<lambda>db. (Inr ((), () # db), [], [])) 1 [] = (Inr (), [()], [], [])"
  unfolding once_def check_cutoff_def by (simp add: demo_commit_def)

theorem authz_revocation_bound_witness:
  "\<exists>r n u sent ans. find_Resource demo_definitions ''expense'' = Some r \<and>
     granted (fitting (Some demo_definitions) (demo_source n u)) (r_Type r) ''me'' \<noteq> [] \<and>
     (sent, ans) \<in> set (vs_answers demo_state) \<and> confirms n True ans \<and> sent \<le> u \<and> u \<le> 3 \<and> 4 < sent + 4995000000"
proof -
  obtain d where d: "Subject_Check demo_libs (vs_holder demo_state) demo_subject 3 0 demo_ctx ''view'' demo_facts =
       Some (WithCutoff 4995000001 demo_ctx, d, None)"
    using demo_check by blast
  have "vs_clock demo_state \<le> 3" "find_Operation (su_Defs demo_subject) ''view'' = Some demo_operation" "\<not> o_TighteningOnly demo_operation"
    "sv_cutoff demo_commit = c_cutoff (WithCutoff 4995000001 demo_ctx)"
    by (simp_all add: demo_state_def Let_def demo_subject_def demo_found demo_operation_def demo_commit_def WithCutoff_def demo_ctx_def)
  from authz_revocation_bound [OF demo_reachable demo_member this(1-3) d this(4) demo_committed]
  obtain r risk n u sent ans where
    r: "find_Resource (su_Defs demo_subject) (o_ResourceType demo_operation) = Some r"
    and h: "o_RiskClass demo_operation = ''high'' \<longrightarrow> risk = ''high''"
    and b: "(sent, ans) \<in> set (vs_answers demo_state)" "confirms n (risk = ''high'') ans" "sent \<le> u" "u \<le> 3"
      "sv_Boot demo_commit 1 < sent + (if risk = ''high'' then 4995000000 else 29970000000)"
    and e: "Evaluate demo_libs r (granted (fitting (Some demo_definitions) (demo_source n u)) (r_Type r) (su_Principal demo_subject))
        (o_Key demo_operation) demo_facts (su_Principal demo_subject) (su_At demo_subject) = Some d" "Visible d = TriTrue"
    by blast
  have f: "o_RiskClass demo_operation = ''high''" "o_ResourceType demo_operation = ''expense''" "su_Defs demo_subject = demo_definitions"
    "su_Principal demo_subject = ''me''" "sv_Boot demo_commit 1 = 4"
    by (simp_all add: demo_operation_def demo_subject_def demo_commit_def)
  have "granted (fitting (Some demo_definitions) (demo_source n u)) (r_Type r) ''me'' \<noteq> []"
    using e f Evaluate_no_segments by force
  with r h b f show ?thesis by auto
qed

section \<open>Segments without a resource type\<close>

lemma entitled_loop_true: "entitled_loop lib op facts who t (TriTrue, fs) segs = Some x \<Longrightarrow> fst x = TriTrue"
  by (induction segs arbitrary: fs) (auto split: if_splits option.splits Tri.splits)

lemma entitled_by:
  "entitled_loop lib op facts who t (res, fs) segs = Some x \<Longrightarrow> s \<in> set segs \<Longrightarrow> s_Operation s = op \<Longrightarrow>
   segment lib s facts who t = Some TriTrue \<Longrightarrow> fst x = TriTrue"
proof (induction segs arbitrary: res fs)
  case (Cons s' segs)
  then show ?case
    by (auto dest: entitled_loop_true split: if_splits option.splits Tri.splits)
qed simp

text \<open>
  C38. A segment without a resource type escapes the check on adoption. The adoption of a view keeps
  segments whose resource type the component does not declare, on the ground that no lookup asks
  for them; but a lookup for any resource type returns the segments with an empty one. So a
  segment that names no resource type and constrains no dimension, which the check refuses for a
  resource with dimensions, is granted for it, and with it every record is visible.
\<close>

theorem authz_unscoped_segment:
  assumes "find_Resource defs [] = None" "dimensions r \<noteq> []"
    and "s \<in> set (se_Segments (entry_of v who))" "\<not> se_AccountsDisabled (entry_of v who)"
    and "s_ResourceType s = []" "s_Atoms s = []" "s_Operation s = r_ViewOperation r" "ActiveAt lib s t"
    and "Evaluate lib r (granted (fitting (Some defs) v) (r_Type r) who) (r_ViewOperation r) facts who t = Some d"
  shows "Check s r \<noteq> None \<and> s \<in> set (granted (fitting (Some defs) v) (r_Type r) who) \<and> Visible d = TriTrue"
proof -
  have "Check s r \<noteq> None"
    using assms(2,6) by (simp add: Check_def)
  moreover have s: "s \<in> set (granted (fitting (Some defs) v) (r_Type r) who)"
    using assms(1,3-5) by (simp add: granted_def entry_of_fitting fits_defs_def Let_def)
  moreover have "segment lib s facts who t = Some TriTrue"
    using assms(6,8) by (simp add: segment_def)
  then have "Visible d = TriTrue"
    using assms(7,9) s entitled_by by (fastforce simp: Evaluate_def entitled_def split: option.splits)
  ultimately show ?thesis by blast
qed

definition demo_unscoped :: Shard where
  "demo_unscoped = (demo_source ''s'' 0)
     \<lparr>sh_Subjects := [(''me'', \<lparr>se_Segments = [demo_segment\<lparr>s_ResourceType := [], s_Atoms := []\<rparr>], se_AccountsDisabled = False,
                              se_SecurityVersion = 1\<rparr>)]\<rparr>"

theorem authz_unscoped_segment_witness:
  "Check (demo_segment\<lparr>s_ResourceType := [], s_Atoms := []\<rparr>) demo_resource \<noteq> None \<and>
   demo_segment\<lparr>s_ResourceType := [], s_Atoms := []\<rparr> \<in> set (granted (fitting (Some demo_definitions) demo_unscoped) ''expense'' ''me'') \<and>
   (\<exists>d. Evaluate demo_libs demo_resource (granted (fitting (Some demo_definitions) demo_unscoped) ''expense'' ''me'') ''view'' [] ''me'' 0 = Some d \<and>
        Visible d = TriTrue)"
proof -
  let ?s = "demo_segment\<lparr>s_ResourceType := [], s_Atoms := []\<rparr>"
  have d: "find_Resource demo_definitions [] = None" "dimensions demo_resource \<noteq> []" "?s \<in> set (se_Segments (entry_of demo_unscoped ''me''))"
    "\<not> se_AccountsDisabled (entry_of demo_unscoped ''me'')" "s_ResourceType ?s = []" "s_Atoms ?s = []"
    "s_Operation ?s = r_ViewOperation demo_resource" "ActiveAt demo_libs ?s 0" "r_Type demo_resource = ''expense''" "r_ViewOperation demo_resource = ''view''"
    by (simp_all add: demo_unscoped_def entry_of_def find_Resource_def demo_definitions_def dimensions_def ActiveAt_def demo_defs)
  have "\<not> Option.is_none (Evaluate demo_libs demo_resource (granted (fitting (Some demo_definitions) demo_unscoped) ''expense'' ''me'') ''view'' [] ''me'' 0)"
    by code_simp
  then obtain x where x: "Evaluate demo_libs demo_resource (granted (fitting (Some demo_definitions) demo_unscoped) ''expense'' ''me'') ''view'' [] ''me'' 0 = Some x"
    by (auto simp: Option.is_none_def)
  then show ?thesis
    using authz_unscoped_segment [OF d(1-8), of "[]" x] d(9,10) by auto
qed

end
