(* ===== verification/Extcmd.thy ===== *)
theory Extcmd
  imports Canon
begin

text \<open>
  The rules of external commands (\<open>extcmd/state.go\<close>, \<open>extcmd/reconcile.go\<close>): the state table \<open>Step\<close>,
  the resend deadline, and the matching of a full recovery's reconciliation. A state is its text, as
  in the sources, because an adapter may answer any text. An absent time is \<open>None\<close>. The reason a row
  of the table gives is a constructor; \<open>reason_text\<close> is its text.
\<close>

section \<open>States, events and capabilities\<close>

abbreviation (input) Prepared :: string where "Prepared \<equiv> ''prepared''"
abbreviation (input) RetryWait :: string where "RetryWait \<equiv> ''retry_wait''"
abbreviation (input) Sending :: string where "Sending \<equiv> ''sending''"
abbreviation (input) StateUnknown :: string where "StateUnknown \<equiv> ''unknown''"
abbreviation (input) Accepted :: string where "Accepted \<equiv> ''accepted''"
abbreviation (input) Manual :: string where "Manual \<equiv> ''manual''"
abbreviation (input) Succeeded :: string where "Succeeded \<equiv> ''succeeded''"
abbreviation (input) Failed :: string where "Failed \<equiv> ''failed''"
abbreviation (input) Rejected :: string where "Rejected \<equiv> ''rejected''"

abbreviation (input) NotReached :: string where "NotReached \<equiv> ''not_reached''"
abbreviation (input) MaybeReached :: string where "MaybeReached \<equiv> ''maybe_reached''"

datatype event =
    Claim
  | BeforeSend
  | LeaseLost
  | SendResult string
  | QueryFound string
  | QueryNotFound
  | QueryDown
  | FinalityPassed
  | Registered string

abbreviation (input) WarnAfter :: duration where "WarnAfter \<equiv> Hour"
abbreviation (input) ManualAfter :: duration where "ManualAfter \<equiv> 24 * Hour"
abbreviation (input) MinMargin :: duration where "MinMargin \<equiv> Hour"

record Capabilities =
  DedupeWindow :: duration
  LastUse :: bool
  CanQuery :: bool
  Expiry :: bool
  MaxProcessing :: duration
  Finality :: duration
  Irrevocable :: bool

record Facts =
  State :: string
  ResendDeadline :: "instant option"
  ExpiresAt :: "instant option"
  FirstReached :: "instant option"
  LastReached :: "instant option"
  UnknownSince :: "instant option"
  AcceptedSince :: "instant option"
  UnrecordedUntil :: "instant option"

definition terminal :: "string \<Rightarrow> bool" where
  "terminal s \<longleftrightarrow> s = Succeeded \<or> s = Failed \<or> s = Rejected"

text \<open>Why a row of the table, or the job, left a command where it is.\<close>

datatype reason =
    TerminalAbsorbs
  | ClaimedPastDeadline
  | ClaimedToSend
  | PastDeadlineNotSent
  | Sent
  | ClaimantGone
  | CertainlyNotProcessed
  | MayBeProcessed
  | AcceptedNotFinal
  | FinalResult
  | RefusedForGood
  | ExternalRecord
  | ExternalRecordNotFinal
  | NoAnswerInTime
  | QueryUnavailable
  | DedupesBeforeDeadline
  | ExpiryPassed
  | ProcessingTimePassed
  | MayStillLand
  | PastFinalityQuery
  | NoQueryPastLimit
  | WaitingForCallback
  | ByPerson
  | NotInTable
  | Requested
  | QueryOnlyNotSent
  | QueryOnlyNotResent reason
  | WaitingForFinal
  | NoIssueRecord
  | RegisteredBecause string
  | ReconciledRecord
  | ReconciledBecause reason
  | OnlyPersonRegisters

fun reason_text :: "reason \<Rightarrow> string" where
  "reason_text TerminalAbsorbs = ''a terminal state absorbs every later result''"
| "reason_text ClaimedPastDeadline = ''claimed past the resend deadline''"
| "reason_text ClaimedToSend = ''claimed: the transition commits before the send''"
| "reason_text PastDeadlineNotSent = ''past the resend deadline before the send: not sent''"
| "reason_text Sent = ''sent''"
| "reason_text ClaimantGone = ''the claimant is gone: whether it sent is not known''"
| "reason_text CertainlyNotProcessed = ''certainly not processed: backoff and send again''"
| "reason_text MayBeProcessed = ''may have been processed: query first''"
| "reason_text AcceptedNotFinal = ''accepted, not final''"
| "reason_text FinalResult = ''final''"
| "reason_text RefusedForGood = ''refused for good''"
| "reason_text ExternalRecord = ''the external record''"
| "reason_text ExternalRecordNotFinal = ''the external record, not final''"
| "reason_text NoAnswerInTime = ''no answer within the manual limit''"
| "reason_text QueryUnavailable = ''the query is unavailable: backoff''"
| "reason_text DedupesBeforeDeadline = ''the external system deduplicates and the deadline has not passed''"
| "reason_text ExpiryPassed = ''the request's expiry has passed''"
| "reason_text ProcessingTimePassed = ''the longest processing time has passed''"
| "reason_text MayStillLand = ''the earlier request may still land''"
| "reason_text PastFinalityQuery = ''past the finality limit: query''"
| "reason_text NoQueryPastLimit = ''no query and past the manual limit''"
| "reason_text WaitingForCallback = ''waiting for the callback or the reconciliation''"
| "reason_text ByPerson = ''registered by a person, with its grounds''"
| "reason_text NotInTable = ''not a transition of the table: unchanged, logged''"
| "reason_text Requested = ''requested''"
| "reason_text QueryOnlyNotSent = ''query-only: not sent''"
| "reason_text (QueryOnlyNotResent why) = ''query-only: not sent again ('' @ reason_text why @ '')''"
| "reason_text WaitingForFinal = ''waiting for the final state''"
| "reason_text NoIssueRecord =
     ''the issue record reached neither the evidence store nor the alert channel: not sent''"
| "reason_text (RegisteredBecause why) = ''registered: '' @ why"
| "reason_text ReconciledRecord = ''reconciled: the external record''"
| "reason_text (ReconciledBecause why) = ''reconciled: '' @ reason_text why"
| "reason_text OnlyPersonRegisters = ''manual: only a person registers it''"

section \<open>The state table\<close>

definition Deadline :: "Facts \<Rightarrow> Capabilities \<Rightarrow> instant option" where
  "Deadline f c =
     (if DedupeWindow c \<le> 0 then None
      else let base = (if LastUse c \<and> LastReached f \<noteq> None then LastReached f else FirstReached f)
           in case base of
                None \<Rightarrow> None
              | Some b \<Rightarrow>
                  (let m = max (DedupeWindow c div 10) MinMargin in Some (b + (DedupeWindow c - m))))"

definition after :: "instant \<Rightarrow> instant option \<Rightarrow> bool" where
  "after now t = (case t of None \<Rightarrow> False | Some d \<Rightarrow> now > d)"

definition latest_send :: "Facts \<Rightarrow> instant option" where
  "latest_send f =
     (case UnrecordedUntil f of
        None \<Rightarrow> LastReached f
      | Some u \<Rightarrow>
          (case LastReached f of None \<Rightarrow> Some u | Some l \<Rightarrow> if u > l then Some u else Some l))"

definition resendable :: "Facts \<Rightarrow> Capabilities \<Rightarrow> instant \<Rightarrow> bool \<times> reason" where
  "resendable f c now =
     (if Deadline f c \<noteq> None \<and> \<not> after now (Deadline f c) then (True, DedupesBeforeDeadline)
      else if after now (ExpiresAt f) then (True, ExpiryPassed)
      else case latest_send f of
             None \<Rightarrow> (False, MayStillLand)
           | Some latest \<Rightarrow>
               if MaxProcessing c > 0 \<and> time_Sub now latest > MaxProcessing c then (True, ProcessingTimePassed)
               else (False, MayStillLand))"

definition longer_than :: "duration \<Rightarrow> instant \<Rightarrow> instant option \<Rightarrow> bool" where
  "longer_than d now since = (case since of None \<Rightarrow> False | Some s \<Rightarrow> time_Sub now s > d)"

definition Step :: "Facts \<Rightarrow> event \<Rightarrow> Capabilities \<Rightarrow> instant \<Rightarrow> string \<times> reason" where
  "Step f e c now =
     (let s = State f; past = after now (ResendDeadline f)
      in if terminal s then (s, TerminalAbsorbs)
         else case e of
           Claim \<Rightarrow>
             if s = Prepared \<or> s = RetryWait
             then (if past then (StateUnknown, ClaimedPastDeadline) else (Sending, ClaimedToSend))
             else (s, NotInTable)
         | BeforeSend \<Rightarrow>
             if s = Sending
             then (if past then (StateUnknown, PastDeadlineNotSent) else (Sending, Sent))
             else (s, NotInTable)
         | LeaseLost \<Rightarrow> if s = Sending then (StateUnknown, ClaimantGone) else (s, NotInTable)
         | SendResult res \<Rightarrow>
             if s = Sending
             then (if res = NotReached then (RetryWait, CertainlyNotProcessed)
                   else if res = MaybeReached then (StateUnknown, MayBeProcessed)
                   else if res = Accepted then (Accepted, AcceptedNotFinal)
                   else if res = Succeeded \<or> res = Failed then (res, FinalResult)
                   else if res = Rejected then (Rejected, RefusedForGood)
                   else (s, NotInTable))
             else (s, NotInTable)
         | QueryFound external \<Rightarrow>
             if s = StateUnknown \<or> s = Accepted
             then (if terminal external \<or> external = Accepted then (external, ExternalRecord)
                   else (s, ExternalRecordNotFinal))
             else (s, NotInTable)
         | QueryDown \<Rightarrow>
             if s = StateUnknown \<or> s = Accepted
             then (if longer_than ManualAfter now (if s = Accepted then AcceptedSince f else UnknownSince f)
                   then (Manual, NoAnswerInTime) else (s, QueryUnavailable))
             else (s, NotInTable)
         | QueryNotFound \<Rightarrow>
             if s = StateUnknown
             then (case resendable f c now of (ok, why) \<Rightarrow> if ok then (Sending, why) else (Manual, why))
             else (s, NotInTable)
         | FinalityPassed \<Rightarrow>
             if s = Accepted
             then (if CanQuery c then (Accepted, PastFinalityQuery)
                   else if longer_than ManualAfter now (AcceptedSince f) then (Manual, NoQueryPastLimit)
                   else (Accepted, WaitingForCallback))
             else (s, NotInTable)
         | Registered res \<Rightarrow> if s = Manual then (res, ByPerson) else (s, NotInTable))"

definition ParamsRecord :: string where
  "ParamsRecord = ''be.external.command_params''"

section \<open>Matching after a full recovery\<close>

abbreviation (input) ConclusionMatched :: string where "ConclusionMatched \<equiv> ''matched''"
abbreviation (input) ConclusionDeadline :: string where "ConclusionDeadline \<equiv> ''deadline''"
abbreviation (input) ConclusionUnknown :: string where "ConclusionUnknown \<equiv> StateUnknown"
abbreviation (input) ConclusionManual :: string where "ConclusionManual \<equiv> Manual"
abbreviation (input) ConclusionExternalOnly :: string where "ConclusionExternalOnly \<equiv> ''external_only''"
abbreviation (input) ConclusionPossiblyExecuted :: string where "ConclusionPossiblyExecuted \<equiv> ''possibly_executed''"

record Open =
  o_Reference :: string
  o_Command :: string
  o_Operation :: string
  o_Facts :: Facts
  o_SendingAt :: "instant option"

record Conclusion =
  c_Reference :: string
  c_Command :: string
  c_Conclusion :: string
  c_State :: string
  c_ResendDeadline :: "instant option"
  c_FirstReached :: "instant option"
  c_Detail :: "reason option"

definition conclusion :: "string \<Rightarrow> string \<Rightarrow> string \<Rightarrow> Conclusion" where
  "conclusion ref command kind =
     \<lparr>c_Reference = ref, c_Command = command, c_Conclusion = kind, c_State = [], c_ResendDeadline = None,
      c_FirstReached = None, c_Detail = None\<rparr>"

definition earliest :: "Open \<Rightarrow> instant \<Rightarrow> instant" where
  "earliest o' t =
     (case FirstReached (o_Facts o') of
        Some f \<Rightarrow> f
      | None \<Rightarrow> (case o_SendingAt o' of Some s \<Rightarrow> s | None \<Rightarrow> t))"

text \<open>The conclusion on one open command.\<close>

definition match_open ::
  "(string \<times> string) list \<Rightarrow> (string \<Rightarrow> Capabilities) \<Rightarrow> instant \<Rightarrow> instant \<Rightarrow> instant \<Rightarrow> Open \<Rightarrow> Conclusion" where
  "match_open external caps t unrecordedUntil now o' =
     (let c = conclusion (o_Reference o') (o_Command o')
      in case map_of external (o_Reference o') of
           Some s \<Rightarrow> (c ConclusionMatched)\<lparr>c_State := if terminal s then s else Accepted\<rparr>
         | None \<Rightarrow>
             if State (o_Facts o') = Manual then (c ConclusionManual)\<lparr>c_Detail := Some OnlyPersonRegisters\<rparr>
             else let f = (o_Facts o')\<lparr>FirstReached := Some (earliest o' t), UnrecordedUntil := Some unrecordedUntil\<rparr>;
                      cp = caps (o_Operation o')
                  in if Deadline f cp \<noteq> None \<and> \<not> after now (Deadline f cp)
                     then (c ConclusionDeadline)\<lparr>c_FirstReached := FirstReached f, c_ResendDeadline := Deadline f cp\<rparr>
                     else case resendable (f\<lparr>ResendDeadline := None\<rparr>) (cp\<lparr>DedupeWindow := 0\<rparr>) now of
                            (ok, why) \<Rightarrow>
                              (c (if ok then ConclusionUnknown else ConclusionManual))\<lparr>c_FirstReached := FirstReached f, c_Detail := Some why\<rparr>)"

definition match_rest :: "string \<Rightarrow> string list \<Rightarrow> string \<Rightarrow> (string \<times> Conclusion) list \<Rightarrow> (string \<times> Conclusion) list" where
  "match_rest kind local' ref out =
     (if map_of out ref = None \<and> ref \<notin> set local' then AList.update ref (conclusion ref [] kind) out else out)"

definition Match ::
  "Open list \<Rightarrow> (string \<times> string) list \<Rightarrow> string list \<Rightarrow> string list \<Rightarrow> (string \<Rightarrow> Capabilities) \<Rightarrow>
   instant \<Rightarrow> instant \<Rightarrow> instant \<Rightarrow> Conclusion list" where
  "Match opened external local' issued caps t unrecordedUntil now =
     (let out1 = fold (\<lambda>o'. AList.update (o_Reference o') (match_open external caps t unrecordedUntil now o')) opened [];
          out2 = fold (match_rest ConclusionExternalOnly local') (map fst external) out1;
          out3 = fold (match_rest ConclusionPossiblyExecuted local') issued out2
      in sort_key c_Reference (map snd out3))"

end
