(* ===== verification/Extcmd_Run.thy ===== *)
theory Extcmd_Run
  imports Extcmd Transactions
begin

text \<open>
  The external commands of a member (\<open>extcmd/commands.go\<close>, \<open>extcmd/reconcileserver.go\<close>): requests,
  the job that sends and queries, registration by a person, and the reconciliation of a full
  recovery. The three tables are association lists; \<open>next_at\<close> of a new command is left to the
  column's default, a parameter. Parameters and outcomes are carried as the JSON values they encode.

  Each transaction of the job is one function; before it, other transactions may have committed
  (\<open>others\<close>). The database's time, the adapter's answers, whether the evidence writer stored an issue
  record, and the rows another transaction holds locked are indexed by the number of transactions
  begun. The calls made to the outside are returned in their order.
\<close>

section \<open>Tables\<close>

type_synonym members = "(string \<times> any_value) list"

record ext_command =
  x_requester :: string
  x_reference :: string
  x_operation :: string
  x_params :: any_value
  x_params_digest :: string
  x_irrevocable :: bool
  x_state :: string
  x_reason :: reason
  x_expires_at :: "instant option"
  x_next_at :: instant
  x_external_id :: "string option"
  x_outcome :: "members option"
  x_resend_deadline :: "instant option"
  x_first_reached :: "instant option"
  x_last_reached :: "instant option"
  x_unknown_since :: "instant option"
  x_accepted_since :: "instant option"
  x_unrecorded_until :: "instant option"
  x_settled_at :: "instant option"

record ext_attempt =
  t_n :: int
  t_kind :: string
  t_started_at :: instant
  t_ended_at :: "instant option"
  t_result :: "string option"
  t_response :: "string option"
  t_reached :: "bool option"

record ext_reconciled =
  k_command :: "string option"
  k_conclusion :: string
  k_state :: "string option"
  k_resend_deadline :: "instant option"
  k_detail :: "reason option"

record ext_db =
  be_external_command :: "(string \<times> ext_command) list"
  be_external_attempt :: "(string \<times> ext_attempt) list"
  be_external_reconciled :: "((string \<times> string) \<times> ext_reconciled) list"

section \<open>The member and the world\<close>

record Command =
  m_ID :: string
  m_Requester :: string
  m_Reference :: string
  m_Operation :: string
  m_Params :: any_value
  m_ExpiresAt :: "instant option"
  m_ExternalID :: string

record Result =
  r_Class :: string
  r_ExternalID :: string
  r_Outcome :: members
  r_Response :: string

record Answer =
  a_Found :: bool
  a_State :: string
  a_ExternalID :: string
  a_Outcome :: members
  a_Response :: string

record Record =
  e_Reference :: string
  e_State :: string
  e_ExternalID :: string
  e_Outcome :: members
  e_Response :: string

record Commands =
  Component :: string
  Adapter :: bool
  Ops :: "(string \<times> Capabilities) list"
  Evidence :: bool
  QueryOnly :: bool

record issue_record =
  i_Category :: string
  i_Requester :: string
  i_Command :: string
  i_Detail :: members

record world =
  Now :: "nat \<Rightarrow> instant"
  Send :: "nat \<Rightarrow> Command \<Rightarrow> string + Result"
  Query :: "nat \<Rightarrow> Command \<Rightarrow> Answer \<times> string option"
  List :: "(nat \<Rightarrow> instant \<Rightarrow> string + Record list) option"
  Intent :: "nat \<Rightarrow> issue_record \<Rightarrow> string option"
  Locked :: "nat \<Rightarrow> string \<Rightarrow> bool"
  NextAt :: "instant \<Rightarrow> instant"

datatype ext_call = Sent_call Command instant | Query_call Command | Issue_call issue_record bool

definition no_Capabilities :: Capabilities where
  "no_Capabilities =
     \<lparr>DedupeWindow = 0, LastUse = False, CanQuery = False, Expiry = False, MaxProcessing = 0, Finality = 0,
      Irrevocable = False\<rparr>"

definition caps_of :: "Commands \<Rightarrow> string \<Rightarrow> Capabilities" where
  "caps_of c op = (case map_of (Ops c) op of Some caps \<Rightarrow> caps | None \<Rightarrow> no_Capabilities)"

abbreviation (input) BackoffStart :: duration where "BackoffStart \<equiv> Minute"
abbreviation (input) BackoffCap :: duration where "BackoffCap \<equiv> Hour"
abbreviation (input) SendLease :: duration where "SendLease \<equiv> 2 * Minute"
abbreviation (input) Batch :: nat where "Batch \<equiv> 50"

definition IssuedCategory :: string where
  "IssuedCategory = ''external_command_issued''"

section \<open>Requests\<close>

fun canon_text :: "canon_error \<Rightarrow> string" where
  "canon_text (Refused what) = ''canon: value not allowed in the canonical encoding: '' @ what"

definition same_reference :: "string \<Rightarrow> string \<Rightarrow> string \<times> ext_command \<Rightarrow> bool" where
  "same_reference requester reference = (\<lambda>(_, x). x_requester x = requester \<and> x_reference x = reference)"

definition requested ::
  "(instant \<Rightarrow> instant) \<Rightarrow> instant \<Rightarrow> Capabilities \<Rightarrow> string \<Rightarrow> Command \<Rightarrow> ext_command" where
  "requested next_at now caps digest cmd =
     \<lparr>x_requester = m_Requester cmd, x_reference = m_Reference cmd, x_operation = m_Operation cmd, x_params = m_Params cmd,
      x_params_digest = digest, x_irrevocable = Irrevocable caps, x_state = Prepared, x_reason = Requested,
      x_expires_at = m_ExpiresAt cmd, x_next_at = next_at now, x_external_id = None, x_outcome = None, x_resend_deadline = None,
      x_first_reached = None, x_last_reached = None, x_unknown_since = None, x_accepted_since = None,
      x_unrecorded_until = None, x_settled_at = None\<rparr>"

definition Request ::
  "Commands \<Rightarrow> (instant \<Rightarrow> instant) \<Rightarrow> instant \<Rightarrow> string \<Rightarrow> string \<Rightarrow> string \<Rightarrow> string \<Rightarrow> any_value \<Rightarrow> instant option \<Rightarrow>
   ext_db \<Rightarrow> go_error + ((Command \<times> string) \<times> ext_db)" where
  "Request c next_at now newID requester reference operation params expiresAt db =
     (if \<not> Adapter c
      then Inl (Proto (New ReasonCapabilityUnsupported ''this member sends no external commands''))
      else case map_of (Ops c) operation of
        None \<Rightarrow> Inl (Proto (New ReasonRequestInvalid (''no such external operation: '' @ operation)))
      | Some caps \<Rightarrow>
          (case Encode params of
             Inl e \<Rightarrow> Inl (Proto (New ReasonRequestInvalid (''the parameters have no canonical form: '' @ canon_text e)))
           | Inr raw \<Rightarrow>
               (let digest = DigestBytes ParamsRecord 1 raw;
                    cmd = \<lparr>m_ID = newID, m_Requester = requester, m_Reference = reference, m_Operation = operation,
                           m_Params = params, m_ExpiresAt = expiresAt, m_ExternalID = []\<rparr>
                in case find (same_reference requester reference) (be_external_command db) of
                     None \<Rightarrow>
                       if map_of (be_external_command db) newID \<noteq> None
                       then Inl (OtherError ''duplicate key'')
                       else Inr ((cmd, Prepared),
                                 db\<lparr>be_external_command := be_external_command db @ [(newID, requested next_at now caps digest cmd)]\<rparr>)
                   | Some (cid, x) \<Rightarrow>
                       if x_params_digest x \<noteq> digest \<or> x_operation x \<noteq> operation
                       then Inl (Proto (New ReasonIdempotencyKeyReused ''this business reference was requested with other parameters''))
                       else Inr ((cmd\<lparr>m_ID := cid\<rparr>, x_state x), db))))"

section \<open>One command\<close>

record row =
  w_cmd :: Command
  w_facts :: Facts
  w_caps :: Capabilities
  w_attempts :: int
  w_now :: instant

datatype ext_error = ErrNotDue | ExtError go_error

text \<open>JSON numbers are read back into floating point values.\<close>

fun unmarshal :: "any_value \<Rightarrow> any_value" where
  "unmarshal (Integer n) = Float (FormatInt n)"
| "unmarshal (Number s) = Float s"
| "unmarshal (Arr vs) = Arr (map unmarshal vs)"
| "unmarshal (Obj kvs) = Obj (map (\<lambda>(k, v). (k, unmarshal v)) kvs)"
| "unmarshal v = v"

definition facts_of :: "ext_command \<Rightarrow> Facts" where
  "facts_of x =
     \<lparr>State = x_state x, ResendDeadline = x_resend_deadline x, ExpiresAt = x_expires_at x, FirstReached = x_first_reached x,
      LastReached = x_last_reached x, UnknownSince = x_unknown_since x, AcceptedSince = x_accepted_since x,
      UnrecordedUntil = x_unrecorded_until x\<rparr>"

definition attempts_of :: "string \<Rightarrow> ext_db \<Rightarrow> ext_attempt list" where
  "attempts_of cid db = map snd (filter (\<lambda>(i, _). i = cid) (be_external_attempt db))"

definition load :: "Commands \<Rightarrow> bool \<Rightarrow> string \<Rightarrow> instant \<Rightarrow> ext_db \<Rightarrow> ext_error + row" where
  "load c locked cid now db =
     (case map_of (be_external_command db) cid of
        None \<Rightarrow> Inl ErrNotDue
      | Some x \<Rightarrow>
          if x_next_at x > now \<or> locked then Inl ErrNotDue
          else Inr
            \<lparr>w_cmd = \<lparr>m_ID = cid, m_Requester = x_requester x, m_Reference = x_reference x, m_Operation = x_operation x,
                      m_Params = unmarshal (x_params x), m_ExpiresAt = x_expires_at x,
                      m_ExternalID = (case x_external_id x of Some e \<Rightarrow> e | None \<Rightarrow> [])\<rparr>,
             w_facts = facts_of x, w_caps = caps_of c (x_operation x), w_attempts = int (length (attempts_of cid db)), w_now = now\<rparr>)"

definition update_command :: "string \<Rightarrow> (ext_command \<Rightarrow> ext_command) \<Rightarrow> ext_db \<Rightarrow> ext_db" where
  "update_command cid f db = db\<lparr>be_external_command := AList.map_entry cid f (be_external_command db)\<rparr>"

definition set_row :: "string \<Rightarrow> reason \<Rightarrow> instant \<Rightarrow> instant \<Rightarrow> ext_command \<Rightarrow> ext_command" where
  "set_row state why next now x =
     x\<lparr>x_state := state, x_reason := why, x_next_at := next,
       x_unknown_since := (if state = StateUnknown then (case x_unknown_since x of None \<Rightarrow> Some now | Some t \<Rightarrow> Some t) else None),
       x_accepted_since := (if state = Accepted then (case x_accepted_since x of None \<Rightarrow> Some now | Some t \<Rightarrow> Some t) else None),
       x_settled_at := (if terminal state then Some now else None)\<rparr>"

text \<open>The transition, with the row in memory in its new state.\<close>

definition set' :: "row \<Rightarrow> string \<Rightarrow> reason \<Rightarrow> instant \<Rightarrow> instant \<Rightarrow> ext_db \<Rightarrow> row \<times> ext_db" where
  "set' r state why next now db =
     (r\<lparr>w_facts := (w_facts r)\<lparr>State := state\<rparr>\<rparr>, update_command (m_ID (w_cmd r)) (set_row state why next now) db)"

fun double_below :: "nat \<Rightarrow> duration \<Rightarrow> duration" where
  "double_below 0 d = d"
| "double_below (Suc n) d = (if d < BackoffCap then double_below n (d * 2) else d)"

definition backoff :: "int \<Rightarrow> duration" where
  "backoff n = min (double_below (nat (n - 1)) BackoffStart) BackoffCap"

definition digestOf :: "string \<Rightarrow> string" where
  "digestOf s = (if s = [] then [] else ''sha256:'' @ hex_of (Sum256 s))"

definition outcomeOf :: "members \<Rightarrow> members option" where
  "outcomeOf m = (if m = [] then None else Some m)"

definition nextAt :: "row \<Rightarrow> string \<Rightarrow> int \<Rightarrow> instant" where
  "nextAt r state n =
     (if state = RetryWait then w_now r + backoff n
      else if state = StateUnknown \<or> state = Sending then w_now r
      else if state = Accepted then
        (if Finality (w_caps r) > 0 then w_now r + Finality (w_caps r) else w_now r + BackoffStart)
      else w_now r + BackoffCap)"

definition queryAgain :: "row \<Rightarrow> string \<Rightarrow> int \<Rightarrow> instant" where
  "queryAgain r state n =
     (if state = StateUnknown \<or> state = Accepted then w_now r + backoff n else nextAt r state n)"

definition mustDigest :: "any_value \<Rightarrow> string" where
  "mustDigest params = (case Digest ParamsRecord 1 params of Inl _ \<Rightarrow> [] | Inr d \<Rightarrow> d)"

definition issue_of :: "Commands \<Rightarrow> row \<Rightarrow> issue_record" where
  "issue_of c r =
     \<lparr>i_Category = IssuedCategory, i_Requester = m_Requester (w_cmd r), i_Command = m_ID (w_cmd r),
      i_Detail = [(''reference'', Str (m_Reference (w_cmd r))), (''operation'', Str (m_Operation (w_cmd r))),
                  (''component'', Str (Component c)), (''params_digest'', Str (mustDigest (m_Params (w_cmd r))))]\<rparr>"

definition issued :: "Commands \<Rightarrow> world \<Rightarrow> nat \<Rightarrow> row \<Rightarrow> bool" where
  "issued c w n r =
     (Evidence c \<and>
      (case Intent w n (issue_of c r) of None \<Rightarrow> False | Some kept \<Rightarrow> kept = ''store'' \<or> kept = ''alert''))"

section \<open>The transactions of the job\<close>

definition ext_tx ::
  "world \<Rightarrow> ext_db interference \<Rightarrow> (instant \<Rightarrow> ext_db \<Rightarrow> ext_error + ('a \<times> ext_db)) \<Rightarrow> nat \<times> ext_db \<Rightarrow>
   (ext_error + 'a) \<times> nat \<times> ext_db" where
  "ext_tx w others f st = BackgroundTx others (f (Now w (fst st))) st"

definition insert_attempt :: "string \<Rightarrow> ext_attempt \<Rightarrow> ext_db \<Rightarrow> ext_db" where
  "insert_attempt cid a db = db\<lparr>be_external_attempt := be_external_attempt db @ [(cid, a)]\<rparr>"

definition update_attempt :: "string \<Rightarrow> int \<Rightarrow> (ext_attempt \<Rightarrow> ext_attempt) \<Rightarrow> ext_db \<Rightarrow> ext_db" where
  "update_attempt cid k f db =
     db\<lparr>be_external_attempt := map (\<lambda>(i, a). if i = cid \<and> t_n a = k then (i, f a) else (i, a)) (be_external_attempt db)\<rparr>"

definition send_check :: "int \<Rightarrow> row \<Rightarrow> instant \<Rightarrow> ext_db \<Rightarrow> ext_error + ((bool \<times> row) \<times> ext_db)" where
  "send_check k r now db =
     (let r1 = r\<lparr>w_now := now\<rparr>
      in case Step (w_facts r1) BeforeSend (w_caps r1) now of
           (next, why) \<Rightarrow>
             if next = StateUnknown
             then (case set' r1 StateUnknown why now now db of (r2, db2) \<Rightarrow> Inr ((False, r2), db2))
             else Inr ((True, r1), insert_attempt (m_ID (w_cmd r1))
                    \<lparr>t_n = k, t_kind = ''send'', t_started_at = now, t_ended_at = None, t_result = None, t_response = None,
                     t_reached = None\<rparr> db))"

definition send_not_issued :: "int \<Rightarrow> row \<Rightarrow> instant \<Rightarrow> ext_db \<Rightarrow> ext_error + (unit \<times> ext_db)" where
  "send_not_issued k r now db =
     (let db1 = update_attempt (m_ID (w_cmd r)) k (\<lambda>a. a\<lparr>t_ended_at := Some now, t_result := Some ''not_sent_no_evidence''\<rparr>) db
      in Inr ((), snd (set' r RetryWait NoIssueRecord (w_now r + backoff k) now db1)))"

definition nonempty_or :: "string \<Rightarrow> string option \<Rightarrow> string option" where
  "nonempty_or s old = (if s = [] then old else Some s)"

definition some_or :: "'a option \<Rightarrow> 'a option \<Rightarrow> 'a option" where
  "some_or x old = (case x of None \<Rightarrow> old | Some _ \<Rightarrow> x)"

definition reached_facts :: "bool \<Rightarrow> instant \<Rightarrow> Capabilities \<Rightarrow> Facts \<Rightarrow> Facts" where
  "reached_facts reached now caps f =
     (let f1 = (if reached
                then f\<lparr>FirstReached := (if FirstReached f = None then Some now else FirstReached f), LastReached := Some now\<rparr>
                else f)
      in f1\<lparr>ResendDeadline := Deadline f1 caps\<rparr>)"

definition send_result :: "int \<Rightarrow> row \<Rightarrow> Result \<Rightarrow> instant \<Rightarrow> ext_db \<Rightarrow> ext_error + (unit \<times> ext_db)" where
  "send_result k r res now db =
     (let reached = (r_Class res \<noteq> NotReached);
          f = reached_facts reached now (w_caps r) (w_facts r);
          r1 = r\<lparr>w_now := now, w_facts := f\<rparr>;
          cid = m_ID (w_cmd r1);
          db1 = update_attempt cid k (\<lambda>a. a\<lparr>t_ended_at := Some now, t_result := Some (r_Class res),
                  t_response := Some (digestOf (r_Response res)), t_reached := Some reached\<rparr>) db;
          db2 = update_command cid (\<lambda>x. x\<lparr>x_first_reached := FirstReached f, x_last_reached := LastReached f,
                  x_resend_deadline := ResendDeadline f, x_external_id := nonempty_or (r_ExternalID res) (x_external_id x),
                  x_outcome := some_or (outcomeOf (r_Outcome res)) (x_outcome x)\<rparr>) db1
      in case Step f (SendResult (r_Class res)) (w_caps r1) now of
           (next, why) \<Rightarrow> Inr ((), snd (set' r1 next why (nextAt r1 next k) now db2)))"

definition send ::
  "Commands \<Rightarrow> world \<Rightarrow> ext_db interference \<Rightarrow> row \<Rightarrow> nat \<times> ext_db \<Rightarrow> (ext_error + unit) \<times> ext_call list \<times> nat \<times> ext_db" where
  "send c w others r st =
     (let k = w_attempts r + 1
      in case ext_tx w others (send_check k r) st of
           (Inl e, st1) \<Rightarrow> (Inl e, [], st1)
         | (Inr (ok, r1), st1) \<Rightarrow>
             if \<not> ok then (Inr (), [], st1)
             else let kept = issued c w (fst st1) r1;
                      asked = (if Irrevocable (w_caps r1) \<and> Evidence c then [Issue_call (issue_of c r1) kept] else [])
                  in if Irrevocable (w_caps r1) \<and> \<not> kept
                     then (case ext_tx w others (send_not_issued k r1) st1 of (res, st2) \<Rightarrow> (res, asked, st2))
                     else let res = (case Send w (fst st1) (w_cmd r1) of
                                       Inl err \<Rightarrow> \<lparr>r_Class = MaybeReached, r_ExternalID = [], r_Outcome = [], r_Response = err\<rparr>
                                     | Inr res \<Rightarrow> res)
                          in (case ext_tx w others (send_result k r1 res) st1 of
                                (res', st2) \<Rightarrow> (res', asked @ [Sent_call (w_cmd r1) (w_now r1)], st2)))"

definition query_event :: "Capabilities \<Rightarrow> Answer \<Rightarrow> string option \<Rightarrow> event \<times> string" where
  "query_event caps ans err =
     (if err \<noteq> None \<or> \<not> CanQuery caps then (QueryDown, ''unavailable'')
      else if a_Found ans then (QueryFound (a_State ans), ''found:'' @ a_State ans)
      else (QueryNotFound, ''not_found''))"

text \<open>The attempt and what the answer says of the external record.\<close>

definition note_answer :: "string \<Rightarrow> int \<Rightarrow> Answer \<Rightarrow> string \<Rightarrow> instant \<Rightarrow> ext_db \<Rightarrow> ext_db" where
  "note_answer cid k ans result now db =
     (let db1 = insert_attempt cid \<lparr>t_n = k, t_kind = ''query'', t_started_at = now, t_ended_at = Some now, t_result = Some result,
                  t_response = Some (digestOf (a_Response ans)), t_reached = None\<rparr> db
      in if a_Found ans
         then update_command cid (\<lambda>x. x\<lparr>x_external_id := nonempty_or (a_ExternalID ans) (x_external_id x),
                x_outcome := some_or (outcomeOf (a_Outcome ans)) (x_outcome x)\<rparr>) db1
         else db1)"

definition query_result ::
  "Commands \<Rightarrow> int \<Rightarrow> row \<Rightarrow> Answer \<Rightarrow> string option \<Rightarrow> instant \<Rightarrow> ext_db \<Rightarrow> ext_error + ((bool \<times> row) \<times> ext_db)" where
  "query_result c k r ans err now db =
     (let r1 = r\<lparr>w_now := now\<rparr>;
          (e, result) = query_event (w_caps r1) ans err;
          db1 = note_answer (m_ID (w_cmd r1)) k ans result now db;
          (next0, why0) = Step (w_facts r1) e (w_caps r1) now;
          (next, why) = (if next0 = Sending \<and> QueryOnly c then (StateUnknown, QueryOnlyNotResent why0) else (next0, why0))
      in if next = Sending
         then (case set' r1 Sending why (now + SendLease) now db1 of (r2, db2) \<Rightarrow> Inr ((True, r2), db2))
         else (case set' r1 next why (queryAgain r1 next k) now db1 of (r2, db2) \<Rightarrow> Inr ((False, r2), db2)))"

definition query ::
  "Commands \<Rightarrow> world \<Rightarrow> ext_db interference \<Rightarrow> row \<Rightarrow> nat \<times> ext_db \<Rightarrow> (ext_error + unit) \<times> ext_call list \<times> nat \<times> ext_db" where
  "query c w others r st =
     (let k = w_attempts r + 1; (ans, err) = Query w (fst st) (w_cmd r); called = [Query_call (w_cmd r)]
      in case ext_tx w others (query_result c k r ans err) st of
           (Inl e, st1) \<Rightarrow> (Inl e, called, st1)
         | (Inr (resend, r1), st1) \<Rightarrow>
             if \<not> resend then (Inr (), called, st1)
             else (case send c w others (r1\<lparr>w_attempts := k\<rparr>) st1 of (res, calls, st2) \<Rightarrow> (res, called @ calls, st2)))"

datatype todo = Nothing | ToSend | ToQuery

text \<open>When an accepted command whose final state is still awaited is looked at again.\<close>

definition final_at :: "Capabilities \<Rightarrow> instant \<Rightarrow> Facts \<Rightarrow> instant option" where
  "final_at caps now f =
     (case AcceptedSince f of
        None \<Rightarrow> None
      | Some since \<Rightarrow>
          if Finality caps > 0 \<and> time_Sub now since < Finality caps then Some (since + Finality caps) else None)"

definition process_tx :: "Commands \<Rightarrow> bool \<Rightarrow> string \<Rightarrow> instant \<Rightarrow> ext_db \<Rightarrow> ext_error + ((row \<times> todo) \<times> ext_db)" where
  "process_tx c locked cid now db =
     (case load c locked cid now db of
        Inl e \<Rightarrow> Inl e
      | Inr r \<Rightarrow>
          (let f = w_facts r; caps = w_caps r;
               to = (\<lambda>what (r', db'). Inr ((r', what), db'))
           in if State f = Prepared \<or> State f = RetryWait then
                (if QueryOnly c then to Nothing (set' r (State f) QueryOnlyNotSent (now + BackoffStart) now db)
                 else case Step f Claim caps now of
                        (next, why) \<Rightarrow>
                          if next = StateUnknown then to Nothing (set' r StateUnknown why now now db)
                          else to ToSend (set' r Sending why (now + SendLease) now db))
              else if State f = Sending then
                (case Step f LeaseLost caps now of (next, why) \<Rightarrow> to Nothing (set' r next why now now db))
              else if State f = StateUnknown then Inr ((r, ToQuery), db)
              else if State f = Accepted then
                (case final_at caps now f of
                   Some at' \<Rightarrow> to Nothing (set' r Accepted WaitingForFinal at' now db)
                 | None \<Rightarrow>
                     (case Step f FinalityPassed caps now of
                        (next, why) \<Rightarrow>
                          if next = Accepted \<and> CanQuery caps then Inr ((r, ToQuery), db)
                          else to Nothing (set' r next why (now + BackoffCap) now db)))
              else Inr ((r, Nothing), db)))"

definition process ::
  "Commands \<Rightarrow> world \<Rightarrow> ext_db interference \<Rightarrow> string \<Rightarrow> nat \<times> ext_db \<Rightarrow> (ext_error + unit) \<times> ext_call list \<times> nat \<times> ext_db" where
  "process c w others cid st =
     (case ext_tx w others (process_tx c (Locked w (fst st) cid) cid) st of
        (Inl e, st1) \<Rightarrow> (if e = ErrNotDue then Inr () else Inl e, [], st1)
      | (Inr (r, what), st1) \<Rightarrow>
          (case what of
             ToSend \<Rightarrow> send c w others r st1
           | ToQuery \<Rightarrow> query c w others r st1
           | Nothing \<Rightarrow> (Inr (), [], st1)))"

definition due :: "instant \<Rightarrow> ext_command \<Rightarrow> bool" where
  "due now x \<longleftrightarrow> x_next_at x \<le> now \<and> x_state x \<in> {Prepared, RetryWait, Sending, StateUnknown, Accepted}"

definition due_ids :: "instant \<Rightarrow> ext_db \<Rightarrow> string list" where
  "due_ids now db =
     take Batch (map fst (sort_key (\<lambda>(i, x). (x_next_at x, i)) (filter (\<lambda>(_, x). due now x) (be_external_command db))))"

fun process_all ::
  "Commands \<Rightarrow> world \<Rightarrow> ext_db interference \<Rightarrow> string list \<Rightarrow> nat \<times> ext_db \<Rightarrow> (ext_error + unit) \<times> ext_call list \<times> nat \<times> ext_db" where
  "process_all c w others [] st = (Inr (), [], st)"
| "process_all c w others (cid # ids) st =
     (case process c w others cid st of
        (Inl e, calls, st1) \<Rightarrow> (Inl e, calls, st1)
      | (Inr _, calls, st1) \<Rightarrow>
          (case process_all c w others ids st1 of (res, calls', st2) \<Rightarrow> (res, calls @ calls', st2)))"

definition Run ::
  "Commands \<Rightarrow> world \<Rightarrow> ext_db interference \<Rightarrow> nat \<times> ext_db \<Rightarrow> (ext_error + int) \<times> ext_call list \<times> nat \<times> ext_db" where
  "Run c w others st =
     (case ext_tx w others (\<lambda>now db. Inr (due_ids now db, db)) st of
        (Inl e, st1) \<Rightarrow> (Inl e, [], st1)
      | (Inr ids, st1) \<Rightarrow>
          (case process_all c w others ids st1 of
             (Inl e, calls, st2) \<Rightarrow> (Inl e, calls, st2)
           | (Inr _, calls, st2) \<Rightarrow> (Inr (int (length ids)), calls, st2)))"

section \<open>Registration\<close>

definition Register :: "string \<Rightarrow> string \<Rightarrow> string \<Rightarrow> instant \<Rightarrow> ext_db \<Rightarrow> go_error + (unit \<times> ext_db)" where
  "Register cid result why now db =
     (if result \<noteq> Succeeded \<and> result \<noteq> Failed \<and> result \<noteq> Rejected \<and> result \<noteq> Sending
      then Inl (Proto (New ReasonRequestInvalid ''a manual command is registered succeeded, failed, rejected or sending''))
      else case map_of (be_external_command db) cid of
        None \<Rightarrow> Inl (OtherError ''no rows in result set'')
      | Some x \<Rightarrow>
          if x_state x \<noteq> Manual
          then Inl (Proto (New ReasonRequestInvalid (''only a manual command is registered (it is '' @ x_state x @ '')'')))
          else Inr ((), update_command cid
                 (set_row (if result = Sending then RetryWait else result) (RegisteredBecause why) now now) db))"

end
