(* ===== verification/Extcmd_Reconcile.thy ===== *)
theory Extcmd_Reconcile
  imports Extcmd_Run
begin

text \<open>
  The external reconciliation of a full recovery (\<open>extcmd/reconcileserver.go\<close>): the open commands are
  read, the external system is asked outside any transaction, and one transaction matches, applies
  and keeps the conclusions. The times of a request are carried parsed; \<open>None\<close> is a text that is no
  RFC 3339 time.
\<close>

record ReconcileRequest =
  q_Recovery :: string
  q_T :: "instant option"
  q_WindowBeforeSeconds :: int
  q_FailedAt :: "instant option option"
  q_Issued :: "string list"

record reconcileRequest =
  p_recovery :: string
  p_t :: instant
  p_before :: duration
  p_failedAt :: "instant option"
  p_issued :: "string list"

definition parseReconcile :: "ReconcileRequest \<Rightarrow> go_error + reconcileRequest" where
  "parseReconcile req =
     (let invalid = (\<lambda>what. Inl (Proto (New ReasonRequestInvalid what)))
      in if q_Recovery req = [] then invalid ''recovery is required''
         else if q_WindowBeforeSeconds req < 0 then invalid ''window_before_seconds is negative''
         else case q_T req of
           None \<Rightarrow> invalid ''t is not an RFC 3339 time''
         | Some t \<Rightarrow>
             (let parsed = \<lparr>p_recovery = q_Recovery req, p_t = t, p_before = wrap64 (q_WindowBeforeSeconds req * Second),
                            p_failedAt = None, p_issued = q_Issued req\<rparr>
              in case q_FailedAt req of
                   None \<Rightarrow> Inr parsed
                 | Some None \<Rightarrow> invalid ''failed_at is not an RFC 3339 time''
                 | Some (Some f) \<Rightarrow> Inr (parsed\<lparr>p_failedAt := Some f\<rparr>)))"

section \<open>Reading\<close>

definition sending_at :: "string \<Rightarrow> ext_db \<Rightarrow> instant option" where
  "sending_at cid db =
     (case map t_started_at (filter (\<lambda>a. t_kind a = ''send'' \<and> t_ended_at a = None) (attempts_of cid db)) of
        [] \<Rightarrow> None
      | t # ts \<Rightarrow> Some (fold min ts t))"

definition open_of :: "ext_db \<Rightarrow> string \<times> ext_command \<Rightarrow> Open" where
  "open_of db = (\<lambda>(cid, x).
     \<lparr>o_Reference = x_reference x, o_Command = cid, o_Operation = x_operation x, o_Facts = facts_of x,
      o_SendingAt = sending_at cid db\<rparr>)"

definition queryOpen :: "ext_db \<Rightarrow> Open list" where
  "queryOpen db =
     sort_key o_Reference (map (open_of db) (filter (\<lambda>(_, x). \<not> terminal (x_state x)) (be_external_command db)))"

definition markLocal :: "string list \<Rightarrow> string list \<Rightarrow> ext_db \<Rightarrow> string list" where
  "markLocal local' refs db =
     local' @ filter (\<lambda>ref. list_ex (\<lambda>(_, x). x_reference x = ref) (be_external_command db)) refs"

definition readOpen :: "string list \<Rightarrow> ext_db \<Rightarrow> Open list \<times> string list" where
  "readOpen issued' db = (queryOpen db, markLocal [] issued' db)"

section \<open>Asking the external system\<close>

definition ask_query ::
  "world \<Rightarrow> nat \<Rightarrow> Command \<Rightarrow> (string \<times> Record) list \<Rightarrow> string + (string \<times> Record) list" where
  "ask_query w n cmd records =
     (case Query w n cmd of
        (ans, Some err) \<Rightarrow> Inl (''the query of '' @ m_Reference cmd @ '': '' @ err)
      | (ans, None) \<Rightarrow>
          if a_Found ans
          then Inr (AList.update (m_Reference cmd)
                 \<lparr>e_Reference = m_Reference cmd, e_State = a_State ans, e_ExternalID = a_ExternalID ans,
                  e_Outcome = a_Outcome ans, e_Response = a_Response ans\<rparr> records)
          else Inr records)"

fun ask_each ::
  "world \<Rightarrow> nat \<Rightarrow> Command list \<Rightarrow> (string \<times> Record) list \<Rightarrow> string + (string \<times> Record) list" where
  "ask_each w n [] records = Inr records"
| "ask_each w n (cmd # cmds) records =
     (case ask_query w n cmd records of Inl e \<Rightarrow> Inl e | Inr records' \<Rightarrow> ask_each w n cmds records')"

definition asked_command :: "Commands \<Rightarrow> string \<Rightarrow> string \<Rightarrow> string \<Rightarrow> Command" where
  "asked_command c cid ref op =
     \<lparr>m_ID = cid, m_Requester = Component c, m_Reference = ref, m_Operation = op, m_Params = Null, m_ExpiresAt = None,
      m_ExternalID = []\<rparr>"

definition anyQuery :: "Commands \<Rightarrow> bool" where
  "anyQuery c = list_ex (\<lambda>(_, caps). CanQuery caps) (Ops c)"

definition ask ::
  "Commands \<Rightarrow> world \<Rightarrow> nat \<Rightarrow> Open list \<Rightarrow> string list \<Rightarrow> reconcileRequest \<Rightarrow> string + (string \<times> Record) list" where
  "ask c w n opened local' r =
     (let from' = p_t r - p_before r;
          lists = (List w \<noteq> None);
          listed = (case List w of
                      None \<Rightarrow> Inr []
                    | Some list \<Rightarrow>
                        (case list n from' of
                           Inl err \<Rightarrow> Inl (''the listing: '' @ err)
                         | Inr recs \<Rightarrow> Inr (fold (\<lambda>rec. AList.update (e_Reference rec) rec) recs [])));
          uncovered = filter (\<lambda>o'. \<not> (lists \<and> \<not> earliest o' (p_t r) < from') \<and> CanQuery (caps_of c (o_Operation o'))) opened;
          cmds = map (\<lambda>o'. asked_command c (o_Command o') (o_Reference o') (o_Operation o')) uncovered
      in case listed of
           Inl e \<Rightarrow> Inl e
         | Inr records \<Rightarrow>
             (case ask_each w n cmds records of
                Inl e \<Rightarrow> Inl e
              | Inr records1 \<Rightarrow>
                  if lists \<or> \<not> anyQuery c then Inr records1
                  else ask_each w n (map (\<lambda>ref. asked_command c [] ref []) (filter (\<lambda>ref. ref \<notin> set local') (p_issued r))) records1))"

section \<open>Applying the conclusions\<close>

definition no_Record :: Record where
  "no_Record = \<lparr>e_Reference = [], e_State = [], e_ExternalID = [], e_Outcome = [], e_Response = []\<rparr>"

definition conclude ::
  "Commands \<Rightarrow> Open \<Rightarrow> Conclusion \<Rightarrow> Record \<Rightarrow> instant \<Rightarrow> instant \<Rightarrow> ext_db \<Rightarrow> string \<times> ext_db" where
  "conclude c o' cl rec until now db =
     (let r = \<lparr>w_cmd = asked_command c (o_Command o') (o_Reference o') (o_Operation o'), w_facts = o_Facts o',
               w_caps = caps_of c (o_Operation o'), w_attempts = 0, w_now = now\<rparr>;
          why = (case c_Detail cl of Some d \<Rightarrow> ReconciledBecause d | None \<Rightarrow> ReconciledRecord)
      in if c_Conclusion cl = ConclusionMatched then
           (c_State cl, snd (set' r (c_State cl) ReconciledRecord (nextAt r (c_State cl) 0) now
              (update_command (o_Command o') (\<lambda>x. x\<lparr>x_external_id := nonempty_or (e_ExternalID rec) (x_external_id x),
                 x_outcome := some_or (outcomeOf (e_Outcome rec)) (x_outcome x)\<rparr>) db)))
         else if c_Conclusion cl = ConclusionManual \<and> State (o_Facts o') = Manual then (Manual, db)
         else let db1 = update_command (o_Command o') (\<lambda>x. x\<lparr>x_first_reached := c_FirstReached cl,
                          x_unrecorded_until := Some until, x_resend_deadline := some_or (c_ResendDeadline cl) (x_resend_deadline x)\<rparr>) db
              in if c_Conclusion cl = ConclusionUnknown \<or> c_Conclusion cl = ConclusionManual
                 then (c_Conclusion cl, snd (set' r (c_Conclusion cl) why now now db1))
                 else (State (o_Facts o'), db1))"

definition keep_conclusion :: "string \<Rightarrow> Conclusion \<Rightarrow> string \<Rightarrow> ext_db \<Rightarrow> ext_db" where
  "keep_conclusion recovery cl state db =
     db\<lparr>be_external_reconciled := AList.update (recovery, c_Reference cl)
          \<lparr>k_command = nonempty_or (c_Command cl) None, k_conclusion = c_Conclusion cl, k_state = nonempty_or state None,
           k_resend_deadline = c_ResendDeadline cl, k_detail = c_Detail cl\<rparr> (be_external_reconciled db)\<rparr>"

definition apply_conclusion ::
  "Commands \<Rightarrow> string \<Rightarrow> (string \<times> Open) list \<Rightarrow> (string \<times> Record) list \<Rightarrow> instant \<Rightarrow> instant \<Rightarrow> Conclusion \<Rightarrow> ext_db \<Rightarrow> ext_db" where
  "apply_conclusion c recovery byRef records until now cl db =
     (case map_of byRef (c_Reference cl) of
        None \<Rightarrow> keep_conclusion recovery cl [] db
      | Some o' \<Rightarrow>
          (case conclude c o' cl (case map_of records (c_Reference cl) of Some rec \<Rightarrow> rec | None \<Rightarrow> no_Record) until now db of
             (state, db') \<Rightarrow> keep_conclusion recovery cl state db'))"

definition applyReconcile ::
  "Commands \<Rightarrow> reconcileRequest \<Rightarrow> Open list \<Rightarrow> (string \<times> Record) list \<Rightarrow> string list \<Rightarrow> instant \<Rightarrow> ext_db \<Rightarrow> ext_db" where
  "applyReconcile c r before records local' now db =
     (let asked = map o_Reference before;
          opened = filter (\<lambda>o'. o_Reference o' \<in> set asked) (queryOpen db);
          byRef = fold (\<lambda>o'. AList.update (o_Reference o') o') opened [];
          states = map (\<lambda>(ref, rec). (ref, e_State rec)) records;
          local1 = markLocal (local' @ asked) (map fst records) db;
          until = (case p_failedAt r of Some f \<Rightarrow> f | None \<Rightarrow> now)
      in fold (apply_conclusion c (p_recovery r) byRef records until now)
           (Match opened states local1 (p_issued r) (caps_of c) (p_t r) until now) db)"

record answer_conclusion =
  n_Reference :: string
  n_Command :: string
  n_Conclusion :: string
  n_State :: string
  n_ResendDeadline :: "instant option"
  n_Detail :: "reason option"

definition reconciled :: "string \<Rightarrow> ext_db \<Rightarrow> answer_conclusion list" where
  "reconciled recovery db =
     map (\<lambda>((_, ref), k).
        \<lparr>n_Reference = ref, n_Command = (case k_command k of Some cid \<Rightarrow> cid | None \<Rightarrow> []), n_Conclusion = k_conclusion k,
         n_State = (case some_or (Option.bind (k_command k) (\<lambda>cid. map_option x_state (map_of (be_external_command db) cid))) (k_state k) of
                      Some s \<Rightarrow> s | None \<Rightarrow> []),
         n_ResendDeadline = k_resend_deadline k, n_Detail = k_detail k\<rparr>)
       (sort_key (\<lambda>((_, ref), _). ref) (filter (\<lambda>((rc, _), _). rc = recovery) (be_external_reconciled db)))"

definition Reconcile ::
  "Commands \<Rightarrow> world \<Rightarrow> ext_db interference \<Rightarrow> ReconcileRequest \<Rightarrow> nat \<times> ext_db \<Rightarrow>
   (go_error + answer_conclusion list) \<times> nat \<times> ext_db" where
  "Reconcile c w others req st =
     (case parseReconcile req of
        Inl e \<Rightarrow> (Inl e, st)
      | Inr r \<Rightarrow>
          (case BackgroundTx others (\<lambda>db. Inr (readOpen (p_issued r) db, db)) st of
             (Inl e, st1) \<Rightarrow> (Inl e, st1)
           | (Inr (opened, local'), st1) \<Rightarrow>
               (case ask c w (fst st1) opened local' r of
                  Inl err \<Rightarrow>
                    (Inl (Proto (New ReasonDependencyUnavailable (''the external system's records: '' @ err))), st1)
                | Inr records \<Rightarrow>
                    BackgroundTx others
                      (\<lambda>db. let db' = applyReconcile c r opened records local' (Now w (fst st1)) db
                            in Inr (reconciled (p_recovery r) db', db')) st1)))"

end
