(* ===== verification/Extcmd_Frame.thy ===== *)
theory Extcmd_Frame
  imports Extcmd_Reconcile
begin

text \<open>
  What the steps of the external commands' job keep: the state table leads to known states only, a
  row's times agree with its state, and a step on one command leaves every other row alone. The
  lemmas on a step are proved once, in the locale \<open>command_frame\<close>, for every property that the single
  writes keep.
\<close>

section \<open>The state table\<close>

lemma terminal_states [simp]:
  "\<not> terminal Prepared" "\<not> terminal RetryWait" "\<not> terminal Sending" "\<not> terminal StateUnknown" "\<not> terminal Accepted"
  "\<not> terminal Manual" "terminal Succeeded" "terminal Failed" "terminal Rejected"
  by (simp_all add: terminal_def)

lemma Step_terminal: "terminal (State f) \<Longrightarrow> fst (Step f e c now) = State f"
  by (simp add: Step_def)

definition state_step :: "Facts \<Rightarrow> event \<times> Capabilities \<times> instant \<Rightarrow> Facts" where
  "state_step f e = (case e of (ev, c, now) \<Rightarrow> f\<lparr>State := fst (Step f ev c now)\<rparr>)"

interpretation ext_final: absorbing_machine state_step "\<lambda>f. terminal (State f)"
  by unfold_locales (simp add: state_step_def Step_terminal split: prod.splits)

definition known_state :: "string \<Rightarrow> bool" where
  "known_state s \<longleftrightarrow> s \<in> {Prepared, RetryWait, Sending, StateUnknown, Accepted, Manual, Succeeded, Failed, Rejected}"

lemma known_states [simp]:
  "known_state Prepared" "known_state RetryWait" "known_state Sending" "known_state StateUnknown" "known_state Accepted"
  "known_state Manual" "terminal s \<Longrightarrow> known_state s"
  by (auto simp: known_state_def terminal_def)

lemma Step_known:
  assumes "known_state (State f)" "\<nexists>res. e = Registered res"
  shows "known_state (fst (Step f e c now))"
proof -
  have "known_state Succeeded" "known_state Failed" "known_state Rejected" by (simp_all add: known_state_def)
  with assms show ?thesis by (cases e) (simp_all add: Step_def Let_def split_def)
qed

section \<open>What a transition writes\<close>

definition row_ok :: "ext_command \<Rightarrow> bool" where
  "row_ok x \<longleftrightarrow> known_state (x_state x) \<and> (x_unknown_since x \<noteq> None \<longleftrightarrow> x_state x = StateUnknown) \<and>
     (x_accepted_since x \<noteq> None \<longleftrightarrow> x_state x = Accepted) \<and> (x_settled_at x \<noteq> None \<longleftrightarrow> terminal (x_state x))"

text \<open>What a command is requested with never changes; no two commands share requester and reference.\<close>

definition fixed_of :: "ext_command \<Rightarrow> (string \<times> string) \<times> string \<times> string" where
  "fixed_of x = ((x_requester x, x_reference x), x_operation x, x_params_digest x)"

definition fixed_rows :: "ext_db \<Rightarrow> string \<Rightarrow> ((string \<times> string) \<times> string \<times> string) option" where
  "fixed_rows db i = map_option fixed_of (map_of (be_external_command db) i)"

definition ext_ok :: "ext_db \<Rightarrow> bool" where
  "ext_ok db \<longleftrightarrow> distinct (map fst (be_external_command db)) \<and>
     (\<forall>cid x. map_of (be_external_command db) cid = Some x \<longrightarrow> row_ok x) \<and>
     (\<forall>i j a b. fixed_rows db i = Some a \<longrightarrow> fixed_rows db j = Some b \<longrightarrow> fst a = fst b \<longrightarrow> i = j)"

lemma set_row_fixed [simp]: "fixed_of (set_row s why t now x) = fixed_of x"
  by (simp add: fixed_of_def set_row_def)

lemma set_row_ok: "known_state s \<Longrightarrow> row_ok (set_row s why next now x)"
  by (auto simp: row_ok_def set_row_def split: option.splits)

lemma update_command_row:
  "map_of (be_external_command (update_command cid f db)) =
    (map_of (be_external_command db))(cid := map_option f (map_of (be_external_command db) cid))"
  by (simp add: update_command_def map_entry_eq)

lemma update_command_keys [simp]:
  "map fst (be_external_command (update_command cid f db)) = map fst (be_external_command db)"
  by (simp add: update_command_def)

lemma update_command_fixed: "(\<And>x. fixed_of (f x) = fixed_of x) \<Longrightarrow> fixed_rows (update_command cid f db) = fixed_rows db"
  by (auto simp: fixed_rows_def update_command_row map_option.compositionality comp_def)

lemma attempts_commands [simp]:
  "be_external_command (insert_attempt cid a db) = be_external_command db"
  "be_external_command (update_attempt cid k f db) = be_external_command db"
  by (simp_all add: insert_attempt_def update_attempt_def)

lemma attempts_fixed [simp]:
  "fixed_rows (insert_attempt cid a db) = fixed_rows db" "fixed_rows (update_attempt cid k f db) = fixed_rows db"
  by (simp_all add: fixed_rows_def fun_eq_iff)

lemma update_command_ok:
  "ext_ok db \<Longrightarrow> (\<And>x. map_of (be_external_command db) cid = Some x \<Longrightarrow> row_ok x \<Longrightarrow> row_ok (f x)) \<Longrightarrow>
   (\<And>x. fixed_of (f x) = fixed_of x) \<Longrightarrow> ext_ok (update_command cid f db)"
  unfolding ext_ok_def by (auto simp add: update_command_row update_command_fixed)

lemma ext_ok_attempts [simp]:
  "ext_ok (insert_attempt cid a db) = ext_ok db" "ext_ok (update_attempt cid k f db) = ext_ok db"
  by (simp_all add: ext_ok_def)

lemma set'_ok: "ext_ok db \<Longrightarrow> known_state s \<Longrightarrow> ext_ok (snd (set' r s why next now db))"
  by (simp add: set'_def update_command_ok set_row_ok)

lemma set'_state [simp]: "State (w_facts (fst (set' r s why next now db))) = s" "w_cmd (fst (set' r s why next now db)) = w_cmd r"
  "w_caps (fst (set' r s why next now db)) = w_caps r" "w_attempts (fst (set' r s why next now db)) = w_attempts r"
  "w_now (fst (set' r s why next now db)) = w_now r" "w_facts (fst (set' r s why next now db)) = (w_facts r)\<lparr>State := s\<rparr>"
  by (simp_all add: set'_def)

text \<open>Two databases that differ in one command at most.\<close>

definition only_at :: "string \<Rightarrow> ext_db \<Rightarrow> ext_db \<Rightarrow> bool" where
  "only_at cid db db' \<longleftrightarrow> map fst (be_external_command db') = map fst (be_external_command db) \<and>
     (\<forall>i. i \<noteq> cid \<longrightarrow> map_of (be_external_command db') i = map_of (be_external_command db) i) \<and> fixed_rows db' = fixed_rows db"

lemma only_at_refl [simp]: "only_at cid db db"
  by (simp add: only_at_def)

lemma only_at_trans: "only_at cid a b \<Longrightarrow> only_at cid b d \<Longrightarrow> only_at cid a d"
  by (simp add: only_at_def)

lemma only_at_attempts [simp]:
  "only_at cid db (insert_attempt i a db') = only_at cid db db'" "only_at cid db (update_attempt i k f db') = only_at cid db db'"
  by (simp_all add: only_at_def)

lemma only_at_update:
  "only_at cid db db' \<Longrightarrow> (\<And>x. fixed_of (f x) = fixed_of x) \<Longrightarrow> only_at cid db (update_command cid f db')"
  by (simp add: only_at_def update_command_row update_command_fixed)

lemma only_at_set': "only_at cid db db' \<Longrightarrow> m_ID (w_cmd r) = cid \<Longrightarrow> only_at cid db (snd (set' r s why next now db'))"
  by (simp add: set'_def only_at_update)

section \<open>One step of the job\<close>

lemma load_Inr:
  assumes "load c l cid now db = Inr r"
  obtains x where "map_of (be_external_command db) cid = Some x" "x_next_at x \<le> now" "\<not> l" "w_facts r = facts_of x"
    "w_caps r = caps_of c (x_operation x)" "w_now r = now" "m_ID (w_cmd r) = cid" "m_Reference (w_cmd r) = x_reference x"
    "m_Params (w_cmd r) = unmarshal (x_params x)" "w_attempts r = int (length (attempts_of cid db))"
  using assms by (auto simp: load_def split: option.splits if_splits)

lemma facts_of_simps [simp]:
  "State (facts_of x) = x_state x" "ResendDeadline (facts_of x) = x_resend_deadline x" "ExpiresAt (facts_of x) = x_expires_at x"
  "UnknownSince (facts_of x) = x_unknown_since x" "AcceptedSince (facts_of x) = x_accepted_since x"
  by (simp_all add: facts_of_def)

lemma process_tx_Inr:
  assumes "process_tx c l cid now db = Inr ((r, what), db')"
  obtains (moved) r0 x s why due_at where "load c l cid now db = Inr r0" "map_of (be_external_command db) cid = Some x"
      "what = Nothing" "(r, db') = set' r0 s why due_at now db" "known_state (x_state x) \<Longrightarrow> known_state s" "\<not> terminal (x_state x)"
    | (claimed) r0 x why where "load c l cid now db = Inr r0" "map_of (be_external_command db) cid = Some x"
      "what = ToSend" "(r, db') = set' r0 Sending why (now + SendLease) now db" "x_state x = Prepared \<or> x_state x = RetryWait"
      "\<not> QueryOnly c"
    | (to_query) x where "load c l cid now db = Inr r" "map_of (be_external_command db) cid = Some x"
      "what = ToQuery" "db' = db" "x_state x = StateUnknown \<or> x_state x = Accepted"
    | (idle) x where "load c l cid now db = Inr r" "map_of (be_external_command db) cid = Some x" "what = Nothing" "db' = db"
proof -
  from assms obtain r0 where r0: "load c l cid now db = Inr r0" by (auto simp: process_tx_def split: sum.splits)
  then obtain x where x: "map_of (be_external_command db) cid = Some x" "w_facts r0 = facts_of x" by (elim load_Inr)
  have known: "known_state (fst (Step (facts_of x) e (w_caps r0) now))" if "known_state (x_state x)" "\<nexists>res. e = Registered res" for e
    using Step_known [of "facts_of x"] that by simp
  note p = assms [unfolded process_tx_def r0 sum.case Let_def x(2)]
  consider "x_state x = Prepared \<or> x_state x = RetryWait" "QueryOnly c" | "x_state x = Prepared \<or> x_state x = RetryWait" "\<not> QueryOnly c"
    | "x_state x = Sending" | "x_state x = StateUnknown" | "x_state x = Accepted"
    | "x_state x \<notin> {Prepared, RetryWait, Sending, StateUnknown, Accepted}" by blast
  then show thesis
  proof cases
    case 1
    with p have w: "what = Nothing" and d: "(r, db') = set' r0 (x_state x) QueryOnlyNotSent (now + BackoffStart) now db"
      by (auto split: prod.splits)
    show thesis by (rule moved [OF r0 x(1) w d]) (use 1 in auto)
  next
    case 2
    obtain s why where s: "Step (facts_of x) Claim (w_caps r0) now = (s, why)" by fastforce
    show thesis
    proof (cases "s = StateUnknown")
      case True
      with 2 p s have w: "what = Nothing" and d: "(r, db') = set' r0 StateUnknown why now now db" by (auto split: prod.splits)
      show thesis by (rule moved [OF r0 x(1) w d]) (use 2 in auto)
    next
      case False
      with 2 p s have "what = ToSend" "(r, db') = set' r0 Sending why (now + SendLease) now db" by (auto split: prod.splits)
      with 2 r0 x show thesis by (intro claimed) auto
    qed
  next
    case 3
    obtain s why where s: "Step (facts_of x) LeaseLost (w_caps r0) now = (s, why)" by fastforce
    with 3 p have w: "what = Nothing" and d: "(r, db') = set' r0 s why now now db" by (auto split: prod.splits)
    show thesis by (rule moved [OF r0 x(1) w d]) (use 3 known [of LeaseLost] s in auto)
  next
    case 4
    with p have "what = ToQuery" "r = r0" "db' = db" by auto
    with 4 r0 x show thesis by (intro to_query) auto
  next
    case 5
    obtain s why where s: "Step (facts_of x) FinalityPassed (w_caps r0) now = (s, why)" by fastforce
    show thesis
    proof (cases "final_at (w_caps r0) now (facts_of x)")
      case (Some t)
      with 5 p have w: "what = Nothing" and d: "(r, db') = set' r0 Accepted WaitingForFinal t now db" by (auto split: prod.splits)
      show thesis by (rule moved [OF r0 x(1) w d]) (use 5 in auto)
    next
      case None
      show thesis
      proof (cases "s = Accepted \<and> CanQuery (w_caps r0)")
        case True
        with None 5 p s have "what = ToQuery" "r = r0" "db' = db" by auto
        with 5 r0 x show thesis by (intro to_query) auto
      next
        case False
        with None 5 p s have w: "what = Nothing" and d: "(r, db') = set' r0 s why (now + BackoffCap) now db" by (auto split: prod.splits)
        show thesis by (rule moved [OF r0 x(1) w d]) (use 5 known [of FinalityPassed] s in auto)
      qed
    qed
  next
    case 6
    with p have "what = Nothing" "r = r0" "db' = db" by auto
    with r0 x show thesis by (intro idle) auto
  qed
qed

lemma query_result_Inr:
  assumes "query_result c k r ans err now db = Inr ((again, r1), db')"
  obtains (resend) e result why where "query_event (w_caps r) ans err = (e, result)" "again" "\<not> QueryOnly c"
      "Step (w_facts r) e (w_caps r) now = (Sending, why)"
      "(r1, db') = set' (r\<lparr>w_now := now\<rparr>) Sending why (now + SendLease) now (note_answer (m_ID (w_cmd r)) k ans result now db)"
    | (stay) e result s why t where "query_event (w_caps r) ans err = (e, result)" "\<not> again"
      "s = fst (Step (w_facts r) e (w_caps r) now) \<and> s \<noteq> Sending \<or> s = StateUnknown \<and> QueryOnly c"
      "known_state (State (w_facts r)) \<Longrightarrow> known_state s"
      "(r1, db') = set' (r\<lparr>w_now := now\<rparr>) s why t now (note_answer (m_ID (w_cmd r)) k ans result now db)"
proof -
  obtain e result where e: "query_event (w_caps r) ans err = (e, result)" by fastforce
  obtain s why where s: "Step (w_facts r) e (w_caps r) now = (s, why)" by fastforce
  have "\<nexists>res. e = Registered res" using e by (auto simp: query_event_def split: if_splits)
  with Step_known [of "w_facts r" e "w_caps r" now] s have known: "known_state (State (w_facts r)) \<Longrightarrow> known_state s" by simp
  note q = assms [unfolded query_result_def Let_def, simplified, unfolded e, simplified, unfolded s, simplified]
  consider "s = Sending" "\<not> QueryOnly c" | "s = Sending" "QueryOnly c" | "s \<noteq> Sending" by blast
  then show thesis
  proof cases
    case 1
    with q show thesis using e s by (intro resend) (auto split: prod.splits)
  next
    case 2
    with q have d: "(r1, db') = set' (r\<lparr>w_now := now\<rparr>) StateUnknown (QueryOnlyNotResent why) (queryAgain (r\<lparr>w_now := now\<rparr>) StateUnknown k) now
        (note_answer (m_ID (w_cmd r)) k ans result now db)" "\<not> again" by (auto split: prod.splits)
    show thesis by (rule stay [OF e d(2) _ _ d(1)]) (use 2 in simp_all)
  next
    case 3
    with q have d: "(r1, db') = set' (r\<lparr>w_now := now\<rparr>) s why (queryAgain (r\<lparr>w_now := now\<rparr>) s k) now
        (note_answer (m_ID (w_cmd r)) k ans result now db)" "\<not> again" by (auto split: prod.splits)
    show thesis by (rule stay [OF e d(2) _ _ d(1)]) (use 3 s known in simp_all)
  qed
qed

text \<open>
  What every write on one command keeps: a property of the database that survives new attempts and
  every update of this command's row that keeps the row consistent.
\<close>

locale command_frame =
  fixes P :: "ext_db \<Rightarrow> bool" and cid :: string
  assumes insert_P: "P db \<Longrightarrow> P (insert_attempt i a db)"
    and update_P: "P db \<Longrightarrow> P (update_attempt i k g db)"
    and touched: "P db \<Longrightarrow> (\<And>x. row_ok x \<Longrightarrow> row_ok (f x)) \<Longrightarrow> (\<And>x. fixed_of (f x) = fixed_of x) \<Longrightarrow> P (update_command cid f db)"
    and row_P: "P db \<Longrightarrow> map_of (be_external_command db) cid = Some x \<Longrightarrow> row_ok x"
begin

lemma touched_at: "P db \<Longrightarrow> i = cid \<Longrightarrow> (\<And>x. row_ok x \<Longrightarrow> row_ok (f x)) \<Longrightarrow> (\<And>x. fixed_of (f x) = fixed_of x) \<Longrightarrow> P (update_command i f db)"
  by (simp add: touched)

lemma set'_P: "P db \<Longrightarrow> m_ID (w_cmd r) = cid \<Longrightarrow> known_state s \<Longrightarrow> P (snd (set' r s why t now db))"
  by (simp add: set'_def touched set_row_ok)

lemma moved_P: "(r1, db') = set' r s why t now db \<Longrightarrow> P db \<Longrightarrow> m_ID (w_cmd r) = cid \<Longrightarrow> known_state s \<Longrightarrow> P db'"
  using set'_P [of db r s why t now] by (simp add: prod_eq_iff)

lemma tx_P:
  assumes "ext_tx w others f (n, db) = (res, n', db')" "\<And>n d. P d \<Longrightarrow> P (others n d)" "P db"
    and "\<And>now d a d'. P d \<Longrightarrow> f now d = Inr (a, d') \<Longrightarrow> P d'"
  shows "P db'"
proof -
  have "P (others n db)" by (intro assms)
  then show ?thesis using assms(1) by (auto simp: ext_tx_def BackgroundTx_def Let_def split: sum.splits dest: assms(4))
qed

lemma send_check_P:
  assumes "send_check k r now db = Inr ((ok, r1), db')" "P db" "m_ID (w_cmd r) = cid"
  shows "P db'"
  using assms by (auto simp: send_check_def Let_def insert_P split: prod.splits if_splits elim!: moved_P [OF sym])

lemma send_not_issued_P:
  assumes "send_not_issued k r now db = Inr (u, db')" "P db" "m_ID (w_cmd r) = cid"
  shows "P db'"
  using assms by (auto simp: send_not_issued_def Let_def update_P set'_P)

lemma send_result_P:
  assumes "send_result k r res now db = Inr (u, db')" "P db" "m_ID (w_cmd r) = cid" "known_state (State (w_facts r))"
  shows "P db'"
proof -
  let ?f = "reached_facts (r_Class res \<noteq> NotReached) now (w_caps r) (w_facts r)"
  obtain s why where s: "Step ?f (SendResult (r_Class res)) (w_caps r) now = (s, why)" by fastforce
  have "State ?f = State (w_facts r)" by (simp add: reached_facts_def Let_def)
  with assms(4) Step_known [of ?f "SendResult (r_Class res)" "w_caps r" now] s have "known_state s" by simp
  moreover have "\<And>x y z u v w. row_ok x \<Longrightarrow> row_ok (x\<lparr>x_first_reached := y, x_last_reached := z, x_resend_deadline := u,
      x_external_id := v, x_outcome := w\<rparr>)" by (simp add: row_ok_def)
  ultimately show ?thesis using assms(1-3) by (auto simp: send_result_def Let_def s fixed_of_def intro!: set'_P touched_at update_P)
qed

lemma query_result_P:
  assumes "query_result c k r ans err now db = Inr ((again, r1), db')" "P db" "m_ID (w_cmd r) = cid" "known_state (State (w_facts r))"
  shows "P db'"
proof -
  have row: "\<And>x v w. row_ok x \<Longrightarrow> row_ok (x\<lparr>x_external_id := v, x_outcome := w\<rparr>)" by (simp add: row_ok_def)
  then have n: "P (note_answer (m_ID (w_cmd r)) k ans result now db)" for result
    using assms(2,3) by (auto simp: note_answer_def Let_def fixed_of_def intro!: touched_at insert_P)
  from assms(1) show ?thesis
  proof (cases rule: query_result_Inr)
    case (resend e result why)
    show ?thesis by (rule moved_P [OF resend(5) n]) (use assms(3) in simp_all)
  next
    case (stay e result s why t)
    show ?thesis by (rule moved_P [OF stay(5) n]) (use assms(3,4) stay(4) in simp_all)
  qed
qed

lemma send_P:
  assumes "send c w others r (n, db) = (res, calls, n', db')" "\<And>n d. P d \<Longrightarrow> P (others n d)" "P db"
    and "m_ID (w_cmd r) = cid" "known_state (State (w_facts r))"
  shows "P db'"
proof -
  let ?k = "w_attempts r + 1"
  obtain c1 n1 db1 where t1: "ext_tx w others (send_check ?k r) (n, db) = (c1, n1, db1)" by (metis prod_cases3)
  have "P db1" by (rule tx_P [OF t1 assms(2,3)]) (use assms(4) in \<open>auto elim: send_check_P\<close>)
  show ?thesis
  proof (cases "\<exists>r1. c1 = Inr (True, r1)")
    case False
    then have "db' = db1" using assms(1) t1 by (auto simp: send_def Let_def split: sum.splits prod.splits)
    with \<open>P db1\<close> show ?thesis by simp
  next
    case True
    then obtain r1 where r1: "c1 = Inr (True, r1)" by blast
    have same: "w_cmd r1 = w_cmd r" "w_facts r1 = w_facts r"
      using t1 r1 by (auto simp: ext_tx_def BackgroundTx_def Let_def send_check_def set'_def split: sum.splits prod.splits if_splits)
    obtain u st2 where t2: "(\<exists>r'. ext_tx w others (send_not_issued ?k r1) (n1, db1) = (u, st2)) \<or>
        (\<exists>r'. ext_tx w others (send_result ?k r1 r') (n1, db1) = (u, st2))" and st2: "st2 = (n', db')"
      using assms(1) t1 r1 by (auto simp: send_def Let_def split: sum.splits prod.splits if_splits)
    from t2 show ?thesis
    proof
      assume "\<exists>r'. ext_tx w others (send_not_issued ?k r1) (n1, db1) = (u, st2)"
      then have t: "ext_tx w others (send_not_issued ?k r1) (n1, db1) = (u, n', db')" using st2 by simp
      show ?thesis by (rule tx_P [OF t assms(2) \<open>P db1\<close>]) (use assms(4) same in \<open>auto elim: send_not_issued_P\<close>)
    next
      assume "\<exists>r'. ext_tx w others (send_result ?k r1 r') (n1, db1) = (u, st2)"
      then obtain r' where t: "ext_tx w others (send_result ?k r1 r') (n1, db1) = (u, n', db')" using st2 by blast
      show ?thesis by (rule tx_P [OF t assms(2) \<open>P db1\<close>]) (use assms(4,5) same in \<open>auto elim: send_result_P\<close>)
    qed
  qed
qed

lemma query_P:
  assumes "query c w others r (n, db) = (res, calls, n', db')" "\<And>n d. P d \<Longrightarrow> P (others n d)" "P db"
    and "m_ID (w_cmd r) = cid" "known_state (State (w_facts r))"
  shows "P db'"
proof -
  let ?k = "w_attempts r + 1"
  obtain ans err where q: "Query w n (w_cmd r) = (ans, err)" by fastforce
  obtain c1 n1 db1 where t1: "ext_tx w others (query_result c ?k r ans err) (n, db) = (c1, n1, db1)" by (metis prod_cases3)
  have "P db1" by (rule tx_P [OF t1 assms(2,3)]) (use assms(4,5) in \<open>auto elim: query_result_P\<close>)
  show ?thesis
  proof (cases "\<exists>r1. c1 = Inr (True, r1)")
    case False
    then have "db' = db1" using assms(1) t1 q by (auto simp: query_def Let_def split: sum.splits prod.splits)
    with \<open>P db1\<close> show ?thesis by simp
  next
    case True
    then obtain r1 where r1: "c1 = Inr (True, r1)" by blast
    then obtain now d d' where "query_result c ?k r ans err now d = Inr ((True, r1), d')"
      using t1 by (auto simp: ext_tx_def BackgroundTx_def Let_def split: sum.splits)
    then have "w_cmd r1 = w_cmd r" "State (w_facts r1) = Sending"
      by (auto elim!: query_result_Inr simp: set'_def)
    moreover from r1 t1 q assms(1) obtain res2 calls2 where "send c w others (r1\<lparr>w_attempts := ?k\<rparr>) (n1, db1) = (res2, calls2, n', db')"
      by (auto simp: query_def Let_def split: prod.splits)
    ultimately show ?thesis using \<open>P db1\<close> assms(2,4) by (elim send_P) auto
  qed
qed

lemma process_P:
  assumes "process c w others cid (n, db) = (res, calls, n', db')" "\<And>n d. P d \<Longrightarrow> P (others n d)" "P db"
  shows "P db'"
proof -
  have step: "P d'" if "process_tx c l cid now d = Inr ((r, what), d')" "P d" for l now d r what d'
    using that(1)
  proof (cases rule: process_tx_Inr)
    case (moved r0 x s why t)
    with that(2) row_P [OF that(2)] show ?thesis
      by (elim load_Inr) (auto simp: row_ok_def intro: moved_P)
  next
    case (claimed r0 x why)
    with that(2) show ?thesis by (elim load_Inr) (auto intro: moved_P)
  qed (use that(2) in auto)
  obtain c1 n1 db1 where t1: "ext_tx w others (process_tx c (Locked w n cid) cid) (n, db) = (c1, n1, db1)" by (metis prod_cases3)
  have "P db1" by (rule tx_P [OF t1 assms(2,3)]) (use step in auto)
  have row: "m_ID (w_cmd r) = cid \<and> known_state (State (w_facts r))" if "c1 = Inr (r, what)" "what \<noteq> Nothing" for r what
  proof -
    from that t1 obtain now d' where p: "process_tx c (Locked w n cid) cid now (others n db) = Inr ((r, what), d')"
      by (auto simp: ext_tx_def BackgroundTx_def Let_def split: sum.splits)
    then show ?thesis using that(2) row_P [OF assms(2) [OF assms(3)]]
      by (cases rule: process_tx_Inr) (auto elim!: load_Inr simp: set'_def row_ok_def)
  qed
  show ?thesis
  proof (cases "\<exists>r what. c1 = Inr (r, what) \<and> what \<noteq> Nothing")
    case False
    then have "db' = db1" using assms(1) t1 by (auto simp: process_def split: sum.splits todo.splits)
    with \<open>P db1\<close> show ?thesis by simp
  next
    case True
    then obtain r what where c1: "c1 = Inr (r, what)" "what \<noteq> Nothing" by blast
    with assms(1) t1 have "what = ToSend \<and> send c w others r (n1, db1) = (res, calls, n', db') \<or>
        what = ToQuery \<and> query c w others r (n1, db1) = (res, calls, n', db')"
      by (auto simp: process_def split: todo.splits)
    with row [OF c1] \<open>P db1\<close> assms(2) show ?thesis by (auto elim: send_P query_P)
  qed
qed

end

end
