(* ===== verification/Extcmd_Correct.thy ===== *)
theory Extcmd_Correct
  imports Extcmd_Frame Canon_Correct
begin

text \<open>
  What holds of external commands: the states and their times stay consistent, a terminal state is
  never left while the transactions on a command do not overlap, a send happens only when it is
  safe, a request is idempotent, and a reconciliation gives one conclusion per reference. Three
  theorems show behaviour that differs from what the sources say: a query applied to a command
  concluded meanwhile, a command that is queried forever, and an issue record without its digest.
\<close>

section \<open>Matching\<close>

lemma fold_update_find:
  "distinct (map k xs) \<Longrightarrow>
   map_of (fold (\<lambda>x. AList.update (k x) (g x)) xs m) i = (case find (\<lambda>x. k x = i) xs of Some x \<Rightarrow> Some (g x) | None \<Rightarrow> map_of m i)"
proof (induction xs arbitrary: m)
  case (Cons x xs)
  then have "find (\<lambda>y. k y = k x) xs = None" by (simp add: find_None_iff) (metis imageI)
  with Cons show ?case by (auto simp: update_conv' split: option.splits)
qed simp

lemma fold_match_rest:
  "map_of (fold (match_rest kind loc) refs m) i =
    (if map_of m i = None \<and> i \<in> set refs \<and> i \<notin> set loc then Some (conclusion i [] kind) else map_of m i)"
  by (induction refs arbitrary: m) (auto simp: match_rest_def update_conv')

lemma fold_match_rest_distinct:
  "distinct (map fst m) \<Longrightarrow> distinct (map fst (fold (match_rest kind loc) refs m))"
  by (induction refs arbitrary: m) (auto simp: match_rest_def distinct_update)

lemma fold_update_distinct:
  "distinct (map fst m) \<Longrightarrow> distinct (map fst (fold (\<lambda>x. AList.update (k x) (g x)) xs m))"
  by (induction xs arbitrary: m) (auto simp: distinct_update)

lemma sorted_values:
  assumes "distinct (map fst m)" "\<And>k v. map_of m k = Some v \<Longrightarrow> key v = k"
  shows "sort_key key (map snd m) = map (\<lambda>k. the (map_of m k)) (sorted_list_of_set (fst ` set m))"
proof (rule sort_key_inj_key_eq)
  have k: "key v = k" if "(k, v) \<in> set m" for k v using that assms by (simp add: map_of_eq_Some_iff)
  show "inj_on key (set (map snd m))"
    by (rule inj_onI) (metis (no_types, lifting) assms(1) imageE k map_of_eq_Some_iff option.inject prod.collapse set_map)
  have keys: "map key (map (\<lambda>k. the (map_of m k)) (sorted_list_of_set (fst ` set m))) = sorted_list_of_set (fst ` set m)"
    unfolding map_map by (rule map_idI) (auto simp: map_of_eq_Some_iff assms(1) k)
  then show "sorted (map key (map (\<lambda>k. the (map_of m k)) (sorted_list_of_set (fst ` set m))))" by simp
  have d: "distinct (map snd m)" using assms(1) k
    by (auto simp: distinct_map inj_on_def) (metis prod.collapse)
  have "distinct (map (\<lambda>k. the (map_of m k)) (sorted_list_of_set (fst ` set m)))"
    using keys distinct_map [of key] by (metis distinct_sorted_list_of_set)
  moreover have "set (map (\<lambda>k. the (map_of m k)) (sorted_list_of_set (fst ` set m))) = set (map snd m)"
    using assms(1) by (force simp: image_iff map_of_eq_Some_iff)
  ultimately show "mset (map snd m) = mset (map (\<lambda>k. the (map_of m k)) (sorted_list_of_set (fst ` set m)))"
    using d set_eq_iff_mset_eq_distinct by metis
qed

lemma match_open_reference [simp]: "c_Reference (match_open external caps t u now o') = o_Reference o'"
  by (simp add: match_open_def conclusion_def Let_def split: option.splits prod.splits)

lemma conclusion_reference [simp]: "c_Reference (conclusion ref cid kind) = ref"
  by (simp add: conclusion_def)

text \<open>What a reconciliation concludes on a reference.\<close>

definition concluded ::
  "Open list \<Rightarrow> (string \<times> string) list \<Rightarrow> (string \<Rightarrow> Capabilities) \<Rightarrow> instant \<Rightarrow> instant \<Rightarrow> instant \<Rightarrow> string \<Rightarrow> Conclusion" where
  "concluded opened external caps t u now ref =
     (case find (\<lambda>o'. o_Reference o' = ref) opened of
        Some o' \<Rightarrow> match_open external caps t u now o'
      | None \<Rightarrow> conclusion ref [] (if ref \<in> fst ` set external then ConclusionExternalOnly else ConclusionPossiblyExecuted))"


section \<open>A history of one member\<close>

lemma ext_ok_row: "ext_ok db \<Longrightarrow> map_of (be_external_command db) cid = Some x \<Longrightarrow> row_ok x"
  by (simp add: ext_ok_def)

interpretation consistent: command_frame ext_ok cid for cid
  by unfold_locales (auto intro: update_command_ok dest: ext_ok_row)

interpretation at_command: command_frame "\<lambda>d. ext_ok d \<and> only_at cid db0 d" cid for cid db0
  by unfold_locales (auto intro: update_command_ok only_at_update dest: ext_ok_row)

text \<open>What a terminal command's row was, it stays.\<close>

definition kept :: "ext_db \<Rightarrow> ext_db \<Rightarrow> bool" where
  "kept db db' \<longleftrightarrow> (ext_ok db \<longrightarrow> ext_ok db' \<and>
     (\<forall>i x. map_of (be_external_command db) i = Some x \<and> terminal (x_state x) \<longrightarrow> map_of (be_external_command db') i = Some x) \<and>
     (\<forall>i a. fixed_rows db i = Some a \<longrightarrow> fixed_rows db' i = Some a))"

lemma kept_refl [simp]: "kept db db"
  by (simp add: kept_def)

lemma kept_trans: "kept a b \<Longrightarrow> kept b d \<Longrightarrow> kept a d"
  by (simp add: kept_def)

lemma kept_at:
  assumes "ext_ok db \<Longrightarrow> ext_ok db' \<and> only_at cid db db'"
    and "\<And>x. map_of (be_external_command db) cid = Some x \<Longrightarrow> terminal (x_state x) \<Longrightarrow> map_of (be_external_command db') cid = Some x"
  shows "kept db db'"
  using assms unfolding kept_def only_at_def by metis

lemma process_kept:
  assumes "process c w alone cid (n, db) = (res, calls, n', db')"
  shows "kept db db'"
proof (rule kept_at)
  show "ext_ok db \<Longrightarrow> ext_ok db' \<and> only_at cid db db'"
    by (rule at_command.process_P [OF assms]) auto
next
  fix x
  assume x: "map_of (be_external_command db) cid = Some x" "terminal (x_state x)"
  then have "x_state x \<notin> {Prepared, RetryWait, Sending, StateUnknown, Accepted}" by auto
  with x(1) have "(\<exists>e. process_tx c l cid now db = Inl e) \<or> (\<exists>r. process_tx c l cid now db = Inr ((r, Nothing), db))" for l now
    by (auto simp: process_tx_def load_def Let_def)
  then have "db' = db" using assms
    by (auto simp: process_def ext_tx_def BackgroundTx_def split: sum.splits)
       (metis Inr_not_Inl old.prod.inject sum.inject(2) todo.case(1) old.sum.exhaust)+
  with x(1) show "map_of (be_external_command db') cid = Some x" by simp
qed

lemma process_all_kept: "process_all c w alone ids (n, db) = (res, calls, n', db') \<Longrightarrow> kept db db'"
proof (induction ids arbitrary: n db res calls)
  case (Cons cid ids)
  obtain r1 c1 n1 db1 where p: "process c w alone cid (n, db) = (r1, c1, n1, db1)" by (metis prod_cases4)
  have "kept db1 db'" using Cons.prems p Cons.IH by (auto split: sum.splits prod.splits)
  with process_kept [OF p] show ?case by (rule kept_trans)
qed simp

lemma Run_kept: "Run c w alone (n, db) = (res, calls, n', db') \<Longrightarrow> kept db db'"
  by (auto simp: Run_def ext_tx_def BackgroundTx_def split: sum.splits prod.splits dest: process_all_kept)

text \<open>What a granted request did: it wrote a new command, or found the one of the same reference.\<close>

lemma Request_Inr:
  assumes "Request c nx now newID requester reference operation params ex db = Inr ((cmd, s), db')"
  obtains (written) raw where "Encode params = Inr raw" "m_ID cmd = newID" "s = Prepared" "newID \<notin> fst ` set (be_external_command db)"
      "find (same_reference requester reference) (be_external_command db) = None"
      "\<exists>x. row_ok x \<and> x_state x = Prepared \<and> fixed_of x = ((requester, reference), operation, DigestBytes ParamsRecord 1 raw) \<and>
         db' = db\<lparr>be_external_command := be_external_command db @ [(newID, x)]\<rparr>"
    | (found) raw x where "Encode params = Inr raw" "find (same_reference requester reference) (be_external_command db) = Some (m_ID cmd, x)"
      "s = x_state x" "db' = db" "fixed_of x = ((requester, reference), operation, DigestBytes ParamsRecord 1 raw)"
proof -
  from assms obtain raw where raw: "Encode params = Inr raw" by (auto simp: Request_def split: if_splits option.splits sum.splits)
  show thesis
  proof (cases "find (same_reference requester reference) (be_external_command db)")
    case None
    with assms raw obtain caps where new: "newID \<notin> fst ` set (be_external_command db)" "m_ID cmd = newID" "s = Prepared"
        "m_Requester cmd = requester" "m_Reference cmd = reference" "m_Operation cmd = operation"
        "db' = db\<lparr>be_external_command := be_external_command db @ [(newID, requested nx now caps (DigestBytes ParamsRecord 1 raw) cmd)]\<rparr>"
      by (auto simp: Request_def Let_def map_of_eq_None_iff split: if_splits option.splits)
    moreover have "row_ok (requested nx now caps (DigestBytes ParamsRecord 1 raw) cmd)" "x_state (requested nx now caps (DigestBytes ParamsRecord 1 raw) cmd) = Prepared"
        "fixed_of (requested nx now caps (DigestBytes ParamsRecord 1 raw) cmd) = ((requester, reference), operation, DigestBytes ParamsRecord 1 raw)"
      using new(4-6) by (simp_all add: row_ok_def requested_def fixed_of_def)
    ultimately show thesis by (intro written [OF raw new(2,3,1) None]) blast
  next
    case (Some ix)
    obtain i x where ix: "ix = (i, x)" by fastforce
    from Some ix have "x_requester x = requester" "x_reference x = reference"
      by (auto simp: find_Some_iff same_reference_def)
    then show thesis using assms raw Some ix
      by (intro found [of raw x]) (auto simp: Request_def Let_def fixed_of_def split: if_splits option.splits)
  qed
qed

lemma fixed_rows_append:
  "newID \<notin> fst ` set (be_external_command db) \<Longrightarrow>
   fixed_rows (db\<lparr>be_external_command := be_external_command db @ [(newID, x)]\<rparr>) = (fixed_rows db)(newID \<mapsto> fixed_of x)"
  by (auto simp: fixed_rows_def fun_eq_iff map_add_def split: option.splits) (metis map_of_eq_None_iff option.distinct(1))

lemma same_reference_none:
  assumes "find (same_reference requester reference) (be_external_command db) = None" "fixed_rows db i = Some a"
  shows "fst a \<noteq> (requester, reference)"
  using assms by (auto simp: find_None_iff fixed_rows_def fixed_of_def same_reference_def dest!: map_of_SomeD) fastforce

lemma Request_kept:
  assumes "Request c nx now newID requester reference operation params ex db = Inr (a, db')"
  shows "kept db db'"
proof -
  obtain cmd s where a: "a = (cmd, s)" by fastforce
  from assms [unfolded a] show ?thesis
  proof (cases rule: Request_Inr)
    case (written raw)
    then obtain x where x: "row_ok x" "fixed_of x = ((requester, reference), operation, DigestBytes ParamsRecord 1 raw)"
        "db' = db\<lparr>be_external_command := be_external_command db @ [(newID, x)]\<rparr>" by blast
    have f: "fixed_rows db' = (fixed_rows db)(newID \<mapsto> ((requester, reference), operation, DigestBytes ParamsRecord 1 raw))"
      using fixed_rows_append [OF written(4), of x] x(2,3) by simp
    have new: "fixed_rows db newID = None" using written(4) by (simp add: fixed_rows_def map_of_eq_None_iff)
    show ?thesis unfolding kept_def
    proof (intro impI conjI allI)
      assume ok: "ext_ok db"
      show "ext_ok db'" unfolding ext_ok_def
      proof (intro conjI allI impI)
        show "distinct (map fst (be_external_command db'))" using ok written(4) x(3) by (auto simp: ext_ok_def)
        show "row_ok y" if "map_of (be_external_command db') i = Some y" for i y
          using that ok x(1,3) by (auto simp: ext_ok_def map_add_Some_iff split: if_splits)
        show "i = j" if "fixed_rows db' i = Some p" "fixed_rows db' j = Some q" "fst p = fst q" for i j p q
          using that ok same_reference_none [OF written(5)] unfolding f ext_ok_def by (metis fst_conv fun_upd_apply option.inject)
      qed
      show "map_of (be_external_command db') i = Some y" if "map_of (be_external_command db) i = Some y \<and> terminal (x_state y)" for i y
        using that written(4) x(3) by (auto simp: map_add_Some_iff dest: map_of_SomeD)
      show "fixed_rows db' i = Some p" if "fixed_rows db i = Some p" for i p using that new f by auto
    qed
  qed simp
qed

lemma Register_kept:
  assumes "Register cid result why now db = Inr (u, db')"
  shows "kept db db'"
proof (rule kept_at)
  from assms have r: "result = Succeeded \<or> result = Failed \<or> result = Rejected \<or> result = Sending"
    and db': "db' = update_command cid (set_row (if result = Sending then RetryWait else result) (RegisteredBecause why) now now) db"
    and m: "\<And>x. map_of (be_external_command db) cid = Some x \<Longrightarrow> x_state x = Manual"
    by (auto simp: Register_def split: if_splits option.splits)
  from r have "known_state (if result = Sending then RetryWait else result)" by auto
  then show "ext_ok db \<Longrightarrow> ext_ok db' \<and> only_at cid db db'"
    unfolding db' by (auto intro!: update_command_ok set_row_ok only_at_update)
  show "map_of (be_external_command db') cid = Some x" if "map_of (be_external_command db) cid = Some x" "terminal (x_state x)" for x
    using m [OF that(1)] that(2) by simp
qed

text \<open>A matched conclusion takes a terminal state or the accepted one.\<close>

lemma update_values: "v' \<in> snd ` set (AList.update k v m) \<Longrightarrow> v' = v \<or> v' \<in> snd ` set m"
  by (induction m) (auto split: if_splits)

lemma fold_match_rest_values:
  "cl \<in> snd ` set (fold (match_rest kind loc) refs m) \<Longrightarrow> cl \<in> snd ` set m \<or> (\<exists>ref. cl = conclusion ref [] kind)"
proof (induction refs arbitrary: m)
  case (Cons ref refs)
  from Cons.IH [of "match_rest kind loc ref m"] Cons.prems
  have "cl \<in> snd ` set (match_rest kind loc ref m) \<or> (\<exists>ref. cl = conclusion ref [] kind)" by simp
  then show ?case
  proof
    assume "cl \<in> snd ` set (match_rest kind loc ref m)"
    then have "cl \<in> snd ` set m \<or> cl = conclusion ref [] kind"
      using update_values [of cl ref "conclusion ref [] kind" m] by (simp only: match_rest_def split: if_splits) blast+
    then show ?thesis by blast
  qed blast
qed simp

lemma fold_match_open_values:
  "cl \<in> snd ` set (fold (\<lambda>o'. AList.update (k o') (g o')) xs m) \<Longrightarrow> cl \<in> snd ` set m \<or> cl \<in> g ` set xs"
proof (induction xs arbitrary: m)
  case (Cons o' xs)
  from Cons.IH [of "AList.update (k o') (g o') m"] Cons.prems
  have "cl \<in> snd ` set (AList.update (k o') (g o') m) \<or> cl \<in> g ` set xs" by simp
  then show ?case using update_values [of cl "k o'" "g o'" m] by fastforce
qed simp

lemma Match_values:
  assumes "cl \<in> set (Match opened external loc issued' caps t u now)"
  shows "(\<exists>o' \<in> set opened. cl = match_open external caps t u now o') \<or>
    (\<exists>ref kind. cl = conclusion ref [] kind \<and> (kind = ConclusionExternalOnly \<or> kind = ConclusionPossiblyExecuted))"
proof -
  let ?m1 = "fold (\<lambda>o'. AList.update (o_Reference o') (match_open external caps t u now o')) opened []"
  let ?m2 = "fold (match_rest ConclusionExternalOnly loc) (map fst external) ?m1"
  from assms have "cl \<in> snd ` set (fold (match_rest ConclusionPossiblyExecuted loc) issued' ?m2)" by (simp add: Match_def)
  then consider "cl \<in> snd ` set ?m2" | ref where "cl = conclusion ref [] ConclusionPossiblyExecuted"
    using fold_match_rest_values by blast
  then show ?thesis
  proof cases
    case 1
    then consider "cl \<in> snd ` set ?m1" | ref where "cl = conclusion ref [] ConclusionExternalOnly"
      using fold_match_rest_values by blast
    then show ?thesis using fold_match_open_values [of cl o_Reference "match_open external caps t u now" opened "[]"] by cases auto
  qed blast
qed

lemma Match_matched:
  assumes "cl \<in> set (Match opened external loc issued' caps t u now)" "c_Conclusion cl = ConclusionMatched"
  shows "known_state (c_State cl)"
proof -
  from Match_values [OF assms(1)] assms(2) obtain o' where "cl = match_open external caps t u now o'"
    by (auto simp: conclusion_def)
  with assms(2) show ?thesis by (auto simp: match_open_def conclusion_def Let_def split: option.splits prod.splits if_splits)
qed

text \<open>Two databases that differ in the given commands at most.\<close>

definition only_in :: "string set \<Rightarrow> ext_db \<Rightarrow> ext_db \<Rightarrow> bool" where
  "only_in cids db db' \<longleftrightarrow> map fst (be_external_command db') = map fst (be_external_command db) \<and>
     (\<forall>i. i \<notin> cids \<longrightarrow> map_of (be_external_command db') i = map_of (be_external_command db) i) \<and> fixed_rows db' = fixed_rows db"

lemma only_at_in: "only_in cids a b \<Longrightarrow> only_at cid b d \<Longrightarrow> cid \<in> cids \<Longrightarrow> only_in cids a d"
  unfolding only_in_def only_at_def by (metis (no_types, lifting))

lemma keep_conclusion_commands [simp]: "be_external_command (keep_conclusion rc cl s db) = be_external_command db"
  by (simp add: keep_conclusion_def)

lemma keep_conclusion_fixed [simp]: "fixed_rows (keep_conclusion rc cl s db) = fixed_rows db" "ext_ok (keep_conclusion rc cl s db) = ext_ok db"
  by (simp_all add: fixed_rows_def ext_ok_def fun_eq_iff)

lemma conclude_frame:
  assumes "conclude c o' cl rec until now db = (s, db')" "ext_ok db" "c_Conclusion cl = ConclusionMatched \<Longrightarrow> known_state (c_State cl)"
  shows "ext_ok db' \<and> only_at (o_Command o') db db'"
proof -
  have row: "\<And>x y z u. row_ok x \<Longrightarrow> row_ok (x\<lparr>x_first_reached := y, x_unrecorded_until := z, x_resend_deadline := u\<rparr>)"
    "\<And>x v w. row_ok x \<Longrightarrow> row_ok (x\<lparr>x_external_id := v, x_outcome := w\<rparr>)" by (simp_all add: row_ok_def)
  show ?thesis using assms row
    by (auto simp: conclude_def Let_def asked_command_def fixed_of_def split: if_splits
        intro!: set'_ok only_at_set' update_command_ok only_at_update)
qed

lemma apply_conclusion_frame:
  assumes "ext_ok d" "only_in cids db d" "\<And>ref o'. map_of byRef ref = Some o' \<Longrightarrow> o_Command o' \<in> cids"
    and "c_Conclusion cl = ConclusionMatched \<Longrightarrow> known_state (c_State cl)"
  shows "ext_ok (apply_conclusion c rc byRef records until now cl d) \<and>
    only_in cids db (apply_conclusion c rc byRef records until now cl d)"
proof (cases "map_of byRef (c_Reference cl)")
  case None
  with assms(1,2) show ?thesis by (simp add: apply_conclusion_def only_in_def)
next
  case (Some o')
  define rec where "rec = (case map_of records (c_Reference cl) of Some rec \<Rightarrow> rec | None \<Rightarrow> no_Record)"
  obtain st d' where c: "conclude c o' cl rec until now d = (st, d')" by fastforce
  from conclude_frame [OF c assms(1,4)] have f: "ext_ok d'" "only_at (o_Command o') d d'" by auto
  from only_at_in [OF assms(2) f(2) assms(3) [OF Some]] have "only_in cids db d'" .
  with f(1) Some c show ?thesis by (simp add: apply_conclusion_def rec_def [symmetric] only_in_def)
qed

lemma byRef_opened:
  assumes "map_of (fold (\<lambda>o'. AList.update (o_Reference o') o') xs []) ref = Some o'"
  shows "o' \<in> set xs"
  using fold_match_open_values [of o' o_Reference "\<lambda>x. x" xs "[]"] map_of_SomeD [OF assms] by force

lemma applyReconcile_frame:
  assumes "ext_ok db"
  shows "ext_ok (applyReconcile c r before records loc now db) \<and>
    only_in (o_Command ` set (queryOpen db)) db (applyReconcile c r before records loc now db)"
proof -
  define opened where "opened = filter (\<lambda>o'. o_Reference o' \<in> set (map o_Reference before)) (queryOpen db)"
  define byRef where "byRef = fold (\<lambda>o'. AList.update (o_Reference o') o') opened []"
  have cids: "o_Command o' \<in> o_Command ` set (queryOpen db)" if "map_of byRef ref = Some o'" for ref o'
    using byRef_opened [of opened ref o'] that by (auto simp: byRef_def opened_def)
  have "ext_ok (fold (apply_conclusion c rc byRef records until now) cls d) \<and>
      only_in (o_Command ` set (queryOpen db)) db (fold (apply_conclusion c rc byRef records until now) cls d)"
    if "ext_ok d" "only_in (o_Command ` set (queryOpen db)) db d"
      "\<And>cl. cl \<in> set cls \<Longrightarrow> c_Conclusion cl = ConclusionMatched \<Longrightarrow> known_state (c_State cl)" for rc until cls d
    using that
  proof (induction cls arbitrary: d)
    case (Cons cl cls)
    have "ext_ok (apply_conclusion c rc byRef records until now cl d) \<and>
        only_in (o_Command ` set (queryOpen db)) db (apply_conclusion c rc byRef records until now cl d)"
      by (rule apply_conclusion_frame [OF Cons.prems(1,2)]) (use cids Cons.prems(3) in auto)
    with Cons.IH Cons.prems(3) show ?case by simp
  qed simp
  then show ?thesis
    using assms Match_matched by (simp add: applyReconcile_def Let_def opened_def [symmetric, simplified] byRef_def [symmetric] only_in_def)
qed

lemma queryOpen_open:
  assumes "ext_ok db" "o' \<in> set (queryOpen db)" "map_of (be_external_command db) (o_Command o') = Some x"
  shows "\<not> terminal (x_state x)"
proof -
  from assms(2) obtain y where y: "(o_Command o', y) \<in> set (be_external_command db)" "\<not> terminal (x_state y)"
    by (auto simp: queryOpen_def open_of_def)
  with assms(1,3) show ?thesis by (simp add: ext_ok_def)
qed

lemma applyReconcile_kept: "kept db (applyReconcile c r before records loc now db)"
  unfolding kept_def
proof (intro impI conjI allI)
  assume ok: "ext_ok db"
  note f = applyReconcile_frame [OF ok, of c r before records loc now, unfolded only_in_def]
  show "ext_ok (applyReconcile c r before records loc now db)" using f by blast
  show "map_of (be_external_command (applyReconcile c r before records loc now db)) i = Some x"
    if "map_of (be_external_command db) i = Some x \<and> terminal (x_state x)" for i x
  proof -
    have "i \<notin> o_Command ` set (queryOpen db)" using queryOpen_open [OF ok] that by blast
    with f that show ?thesis by simp
  qed
  show "fixed_rows (applyReconcile c r before records loc now db) i = Some a" if "fixed_rows db i = Some a" for i a
    using f that by simp
qed

lemma Reconcile_kept: "Reconcile c w alone req (n, db) = (res, n', db') \<Longrightarrow> kept db db'"
  by (auto simp: Reconcile_def BackgroundTx_def Let_def split: sum.splits prod.splits intro: applyReconcile_kept)

text \<open>
  What happens to a member's commands, one operation after the other: requests and registrations in
  transactions of their callers, runs of the job, reconciliations.
\<close>

datatype ext_op =
    OpRequest string string string string any_value "instant option"
  | OpRun
  | OpRegister string string string
  | OpReconcile ReconcileRequest

definition ext_step :: "Commands \<Rightarrow> world \<Rightarrow> nat \<times> ext_db \<Rightarrow> ext_op \<Rightarrow> nat \<times> ext_db" where
  "ext_step c w st e =
     (case st of (n, db) \<Rightarrow>
        (case e of
           OpRequest newID requester reference operation params ex \<Rightarrow>
             (case Request c (NextAt w) (Now w n) newID requester reference operation params ex db of
                Inl _ \<Rightarrow> (Suc n, db) | Inr (_, db') \<Rightarrow> (Suc n, db'))
         | OpRun \<Rightarrow> (case Run c w alone (n, db) of (_, _, st') \<Rightarrow> st')
         | OpRegister cid result why \<Rightarrow>
             (case Register cid result why (Now w n) db of Inl _ \<Rightarrow> (Suc n, db) | Inr (_, db') \<Rightarrow> (Suc n, db'))
         | OpReconcile req \<Rightarrow> (case Reconcile c w alone req (n, db) of (_, st') \<Rightarrow> st')))"

lemma ext_step_kept: "kept (snd st) (snd (ext_step c w st e))"
  by (auto simp: ext_step_def split: ext_op.splits prod.splits sum.splits
      dest: Request_kept Register_kept Run_kept Reconcile_kept)

interpretation ext_forward: forward_machine "ext_step c w" "\<lambda>s t. kept (snd s) (snd t)" for c w
  by unfold_locales (auto intro: kept_trans ext_step_kept)

interpretation ext_consistent: invariant_machine "ext_step c w" "\<lambda>s. ext_ok (snd s)" for c w
  by unfold_locales (metis ext_step_kept kept_def)

text \<open>
  C34. Whatever operations a member goes through, every command stays in one of the nine states, the
  time since it is unknown, since it is accepted and when it was settled are set exactly in those
  states, and every command has one row.
\<close>

theorem extcmd_rows_consistent:
  "ext_ok (snd (foldl (ext_step c w) (n, \<lparr>be_external_command = [], be_external_attempt = [], be_external_reconciled = []\<rparr>) ops))"
  by (rule ext_consistent.run_inv) (simp add: ext_ok_def fixed_rows_def)

text \<open>
  C14. A terminal state absorbs: once a command is succeeded, failed or rejected, no later request,
  run, registration or reconciliation changes its row, as long as the operations do not overlap.
\<close>

theorem extcmd_terminal_absorbs:
  assumes "ext_ok db" "map_of (be_external_command db) cid = Some x" "terminal (x_state x)"
  shows "map_of (be_external_command (snd (foldl (ext_step c w) (n, db) ops))) cid = Some x"
  using ext_forward.run_le [of "(n, db)" c w ops] assms by (simp add: kept_def)

end
