(* ===== verification/Extcmd_Safety.thy ===== *)
theory Extcmd_Safety
  imports Extcmd_Correct
begin

text \<open>
  When the job of the external commands sends. The calls a step makes are characterized branch by
  branch; what it read of the command may be out of date by then, because other transactions
  commit between its own.
\<close>

section \<open>Backoff\<close>

lemma double_below_min: "0 < d \<Longrightarrow> min (double_below n d) BackoffCap = min BackoffCap (d * 2 ^ n)"
proof (induction n arbitrary: d)
  case (Suc n)
  show ?case
  proof (cases "d < BackoffCap")
    case True
    with Suc show ?thesis by (simp add: mult.assoc)
  next
    case False
    have "(1 :: int) \<le> 2 ^ Suc n" by (rule one_le_power) simp
    with Suc.prems have "d * 1 \<le> d * 2 ^ Suc n" by (intro mult_left_mono) auto
    with False have "BackoffCap \<le> d * 2 ^ Suc n" by linarith
    with False show ?thesis by simp
  qed
qed (simp add: min.commute)

interpretation ext_backoff: capped_doubling backoff BackoffStart BackoffCap
  by unfold_locales (simp_all add: backoff_def double_below_min)

section \<open>When a command is sent\<close>

lemma ext_tx_Inr:
  "ext_tx w others f (n, db) = (Inr a, n', db') \<longleftrightarrow> n' = Suc n \<and> f (Now w n) (others n db) = Inr (a, db')"
  by (auto simp: ext_tx_def BackgroundTx_def Let_def split: sum.splits)

lemma ext_tx_Inl:
  "ext_tx w others f (n, db) = (Inl e, n', db') \<longleftrightarrow> n' = Suc n \<and> db' = others n db \<and> f (Now w n) (others n db) = Inl e"
  by (auto simp: ext_tx_def BackgroundTx_def Let_def split: sum.splits)

lemma send_check_Inr:
  assumes "send_check k r now db = Inr ((ok, r1), db')" "State (w_facts r) = Sending"
  shows "ok \<longleftrightarrow> \<not> after now (ResendDeadline (w_facts r))"
    and "ok \<Longrightarrow> r1 = r\<lparr>w_now := now\<rparr>"
    and "\<not> ok \<Longrightarrow> db' = update_command (m_ID (w_cmd r)) (set_row StateUnknown PastDeadlineNotSent now now) db"
  using assms by (auto simp: send_check_def Step_def Let_def set'_def split: if_splits)

fun is_send :: "ext_call \<Rightarrow> bool" where
  "is_send (Sent_call cmd t) = True"
| "is_send call = False"

lemma send_calls:
  assumes "send c w others r (n, db) = (res, calls, st')" "State (w_facts r) = Sending"
  shows "filter is_send calls =
      (if \<not> after (Now w n) (ResendDeadline (w_facts r)) \<and> (Irrevocable (w_caps r) \<longrightarrow> issued c w (Suc n) (r\<lparr>w_now := Now w n\<rparr>))
       then [Sent_call (w_cmd r) (Now w n)] else [])"
    and "filter is_send calls \<noteq> [] \<Longrightarrow> Irrevocable (w_caps r) \<Longrightarrow> Issue_call (issue_of c r) True \<in> set calls"
proof -
  let ?k = "w_attempts r + 1"
  obtain c1 n1 db1 where t: "ext_tx w others (send_check ?k r) (n, db) = (c1, n1, db1)" by (metis prod_cases3)
  have "\<exists>ok r1. c1 = Inr (ok, r1)"
    using t by (cases c1) (auto simp: ext_tx_Inl send_check_def Let_def split: prod.splits if_splits)
  then obtain ok r1 where c1: "c1 = Inr (ok, r1)" by blast
  from t c1 have chk: "send_check ?k r (Now w n) (others n db) = Inr ((ok, r1), db1)" "n1 = Suc n" by (auto simp: ext_tx_Inr)
  note ok = send_check_Inr [OF chk(1) assms(2)]
  have same: "issue_of c (r\<lparr>w_now := Now w n\<rparr>) = issue_of c r" by (simp add: issue_of_def)
  have kept: "issued c w m r' \<Longrightarrow> Evidence c" for m r' by (simp add: issued_def)
  show "filter is_send calls =
      (if \<not> after (Now w n) (ResendDeadline (w_facts r)) \<and> (Irrevocable (w_caps r) \<longrightarrow> issued c w (Suc n) (r\<lparr>w_now := Now w n\<rparr>))
       then [Sent_call (w_cmd r) (Now w n)] else [])"
    using assms(1) t c1 ok chk(2) by (cases ok) (auto simp: send_def Let_def split: prod.splits if_splits)
  show "filter is_send calls \<noteq> [] \<Longrightarrow> Irrevocable (w_caps r) \<Longrightarrow> Issue_call (issue_of c r) True \<in> set calls"
    using assms(1) t c1 ok chk(2) kept same by (cases ok) (auto simp: send_def Let_def split: prod.splits if_splits)
qed

lemma Step_resend:
  assumes "Step f e c now = (Sending, why)" "query_event c ans err = (e, result)" "State f \<noteq> Sending"
  shows "State f = StateUnknown \<and> CanQuery c \<and> err = None \<and> \<not> a_Found ans \<and> fst (resendable f c now)"
  using assms by (auto simp: Step_def query_event_def Let_def terminal_def split: if_splits prod.splits)

lemma query_calls:
  assumes "query c w others r (n, db) = (res, calls, st')" "Query w n (w_cmd r) = (ans, err)" "filter is_send calls \<noteq> []"
    and "State (w_facts r) \<noteq> Sending"
  shows "State (w_facts r) = StateUnknown \<and> CanQuery (w_caps r) \<and> err = None \<and> \<not> a_Found ans \<and>
      fst (resendable (w_facts r) (w_caps r) (Now w n)) \<and> \<not> QueryOnly c \<and>
      \<not> after (Now w (Suc n)) (ResendDeadline (w_facts r)) \<and> filter is_send calls = [Sent_call (w_cmd r) (Now w (Suc n))] \<and>
      (Irrevocable (w_caps r) \<longrightarrow> Issue_call (issue_of c r) True \<in> set calls)"
proof -
  let ?k = "w_attempts r + 1"
  obtain c1 n1 db1 where t: "ext_tx w others (query_result c ?k r ans err) (n, db) = (c1, n1, db1)" by (metis prod_cases3)
  from assms t obtain r1 where c1: "c1 = Inr (True, r1)"
    by (auto simp: query_def Let_def split: sum.splits if_splits)
  with t have q: "query_result c ?k r ans err (Now w n) (others n db) = Inr ((True, r1), db1)" "n1 = Suc n" by (auto simp: ext_tx_Inr)
  from q(1) obtain e result why where e: "query_event (w_caps r) ans err = (e, result)" "\<not> QueryOnly c"
      "Step (w_facts r) e (w_caps r) (Now w n) = (Sending, why)" and r1: "r1 = r\<lparr>w_now := Now w n, w_facts := (w_facts r)\<lparr>State := Sending\<rparr>\<rparr>"
    by (auto elim!: query_result_Inr simp: set'_def)
  obtain calls2 where s: "send c w others (r1\<lparr>w_attempts := ?k\<rparr>) (n1, db1) = (res, calls2, st')" and calls: "calls = Query_call (w_cmd r) # calls2"
    using assms(1,2) t c1 by (auto simp: query_def Let_def split: prod.splits)
  have "issue_of c (r1\<lparr>w_attempts := ?k\<rparr>) = issue_of c r" by (simp add: issue_of_def r1)
  moreover have "filter is_send calls = filter is_send calls2" by (simp add: calls)
  ultimately show ?thesis using Step_resend [OF e(3,1) assms(4)] e(2) send_calls [OF s] assms(3) q(2) r1 calls by (auto split: if_splits)
qed


section \<open>Requests\<close>

lemma find_by_reference:
  assumes "ext_ok db" "fixed_rows db i = Some ((requester, reference), rest)"
  shows "\<exists>x. find (same_reference requester reference) (be_external_command db) = Some (i, x) \<and>
    map_of (be_external_command db) i = Some x \<and> fixed_of x = ((requester, reference), rest)"
proof -
  from assms(2) obtain x where x: "map_of (be_external_command db) i = Some x" "fixed_of x = ((requester, reference), rest)"
    by (auto simp: fixed_rows_def)
  have "find (same_reference requester reference) (be_external_command db) \<noteq> None"
    using map_of_SomeD [OF x(1)] x(2) by (auto simp: find_None_iff same_reference_def fixed_of_def)
  then obtain j y where f: "find (same_reference requester reference) (be_external_command db) = Some (j, y)" by fastforce
  then have "(j, y) \<in> set (be_external_command db)" and ref: "fst (fixed_of y) = (requester, reference)"
    by (auto simp: find_Some_iff same_reference_def fixed_of_def) (metis nth_mem)
  then have y: "map_of (be_external_command db) j = Some y" using assms(1) by (simp add: ext_ok_def)
  then have fy: "fixed_rows db j = Some (fixed_of y)" by (simp add: fixed_rows_def)
  have "\<forall>i j a b. fixed_rows db i = Some a \<longrightarrow> fixed_rows db j = Some b \<longrightarrow> fst a = fst b \<longrightarrow> i = j"
    using assms(1) unfolding ext_ok_def by (elim conjE)
  with fy assms(2) ref have "j = i" by (metis fst_conv)
  with f x y show ?thesis by auto
qed

text \<open>
  C15. A request is idempotent by requester and reference: after a granted request and whatever
  happened to the member's commands since, a request of the same requester and reference writes
  nothing; it is answered with the same command and its present state when the operation and the
  digest of the parameters are those of the first, and with the error that the key was reused when
  they are not.
\<close>

theorem extcmd_request_once:
  assumes "ext_ok db" "Request c nx now newID requester reference operation params ex db = Inr ((cmd, s), db1)"
    and "Encode params = Inr raw" "Encode params' = Inr raw'" "map_of (Ops c) operation' = Some caps'"
    and "db2 = snd (foldl (ext_step c w) (n, db1) ops)"
  shows "Request c nx' now' newID' requester reference operation' params' ex' db2 =
    (if operation' = operation \<and> DigestBytes ParamsRecord 1 raw' = DigestBytes ParamsRecord 1 raw
     then Inr ((\<lparr>m_ID = m_ID cmd, m_Requester = requester, m_Reference = reference, m_Operation = operation', m_Params = params',
                 m_ExpiresAt = ex', m_ExternalID = []\<rparr>,
               x_state (the (map_of (be_external_command db2) (m_ID cmd)))), db2)
     else Inl (Proto (New ReasonIdempotencyKeyReused ''this business reference was requested with other parameters'')))"
proof -
  have "kept db db1" using assms(2) by (rule Request_kept)
  with assms(1) have ok1: "ext_ok db1" by (simp add: kept_def)
  from assms(2) have f1: "fixed_rows db1 (m_ID cmd) = Some ((requester, reference), operation, DigestBytes ParamsRecord 1 raw)"
  proof (cases rule: Request_Inr)
    case (written raw0)
    then show ?thesis using assms(3) fixed_rows_append [OF written(4)] by auto
  next
    case (found raw0 x)
    from found(2) have "(m_ID cmd, x) \<in> set (be_external_command db)" by (auto simp: find_Some_iff)
    with assms(1) have "map_of (be_external_command db) (m_ID cmd) = Some x" by (simp add: ext_ok_def)
    with found assms(3) show ?thesis by (simp add: fixed_rows_def)
  qed
  have "kept db1 db2" using ext_forward.run_le [of "(n, db1)" c w ops] assms(6) by simp
  with ok1 f1 have "ext_ok db2" "fixed_rows db2 (m_ID cmd) = Some ((requester, reference), operation, DigestBytes ParamsRecord 1 raw)"
    by (auto simp: kept_def)
  from find_by_reference [OF this] obtain x where x:
      "find (same_reference requester reference) (be_external_command db2) = Some (m_ID cmd, x)"
      "map_of (be_external_command db2) (m_ID cmd) = Some x"
      "fixed_of x = ((requester, reference), operation, DigestBytes ParamsRecord 1 raw)" by blast
  have "Adapter c" using assms(2) by (auto simp: Request_def split: if_splits)
  with x assms(4,5) show ?thesis by (auto simp: Request_def Let_def fixed_of_def)
qed

section \<open>Queries\<close>

lemma load_due:
  assumes "map_of (be_external_command db) cid = Some x" "x_next_at x \<le> now"
  obtains r where "load c False cid now db = Inr r" "w_facts r = facts_of x" "w_caps r = caps_of c (x_operation x)" "m_ID (w_cmd r) = cid"
  using assms by (simp add: load_def)

lemma process_unknown:
  assumes "map_of (be_external_command (others n db)) cid = Some x" "x_state x = StateUnknown" "x_next_at x \<le> Now w n" "\<not> Locked w n cid"
  obtains r where "process c w others cid (n, db) = query c w others r (Suc n, others n db)" "w_facts r = facts_of x"
    "w_caps r = caps_of c (x_operation x)" "m_ID (w_cmd r) = cid"
proof -
  from load_due [OF assms(1,3), of c] obtain r where r: "load c False cid (Now w n) (others n db) = Inr r" "w_facts r = facts_of x"
      "w_caps r = caps_of c (x_operation x)" "m_ID (w_cmd r) = cid" by blast
  have "process_tx c False cid (Now w n) (others n db) = Inr ((r, ToQuery), others n db)"
    using r assms(2) by (simp add: process_tx_def Let_def)
  with assms(4) have "process c w others cid (n, db) = query c w others r (Suc n, others n db)"
    by (simp add: process_def ext_tx_def BackgroundTx_def)
  with r show thesis by (intro that)
qed

lemma Step_not_found:
  "State f = StateUnknown \<Longrightarrow>
   Step f QueryNotFound c now = (if fst (resendable f c now) then Sending else Manual, snd (resendable f c now))"
  by (simp add: Step_def Let_def split_def)

lemma note_answer_not_found: "\<not> a_Found ans \<Longrightarrow> be_external_command (note_answer cid k ans result now db) = be_external_command db"
  by (simp add: note_answer_def Let_def)

text \<open>
  C36. A query's answer is applied to what was read before the query: when the external system had no
  record of an unknown command and the earlier request may still land, the command is manual
  afterwards whatever other transactions made of it in the meantime, even when a reconciliation has
  concluded that it succeeded.
\<close>

theorem extcmd_query_overwrites:
  assumes "map_of (be_external_command (others n db)) cid = Some x" "x_state x = StateUnknown" "x_next_at x \<le> Now w n" "\<not> Locked w n cid"
    and "\<And>cmd. Query w (Suc n) cmd = (ans, None)" "\<not> a_Found ans" "CanQuery (caps_of c (x_operation x))"
    and "\<not> fst (resendable (facts_of x) (caps_of c (x_operation x)) (Now w (Suc n)))"
    and "map_of (be_external_command (others (Suc n) (others n db))) cid = Some x'"
    and "process c w others cid (n, db) = (res, calls, n', db')"
  shows "\<exists>y. map_of (be_external_command db') cid = Some y \<and> x_state y = Manual"
proof -
  obtain r where r: "process c w others cid (n, db) = query c w others r (Suc n, others n db)" "w_facts r = facts_of x"
      "w_caps r = caps_of c (x_operation x)" "m_ID (w_cmd r) = cid" using process_unknown [of others n db cid x w c, OF assms(1-4)] by blast
  let ?now = "Now w (Suc n)" and ?k = "w_attempts r + 1"
  let ?db2 = "note_answer cid ?k ans ''not_found'' ?now (others (Suc n) (others n db))"
  have e: "query_event (w_caps r) ans None = (QueryNotFound, ''not_found'')" using assms(6,7) r(3) by (simp add: query_event_def)
  obtain why where s: "Step (w_facts r) QueryNotFound (w_caps r) ?now = (Manual, why)"
    using assms(2,8) r(2,3) by (simp add: Step_not_found)
  have "query_result c ?k r ans None ?now (others (Suc n) (others n db)) =
      Inr ((False, fst (set' (r\<lparr>w_now := ?now\<rparr>) Manual why (queryAgain (r\<lparr>w_now := ?now\<rparr>) Manual ?k) ?now ?db2)),
           snd (set' (r\<lparr>w_now := ?now\<rparr>) Manual why (queryAgain (r\<lparr>w_now := ?now\<rparr>) Manual ?k) ?now ?db2))"
    using e s r(4) by (simp add: query_result_def Let_def split: prod.splits)
  then have "db' = snd (set' (r\<lparr>w_now := ?now\<rparr>) Manual why (queryAgain (r\<lparr>w_now := ?now\<rparr>) Manual ?k) ?now ?db2)"
    using assms(5,10) r(1) by (simp add: query_def Let_def ext_tx_def BackgroundTx_def)
  then show ?thesis using r(4) assms(6,9) by (simp add: set'_def update_command_row note_answer_not_found set_row_def)
qed

text \<open>One round of a command that may be sent again by its expiry but is past its resend deadline.\<close>

lemma process_past_deadline:
  assumes "map_of (be_external_command db) cid = Some x" "x_state x = StateUnknown" "x_next_at x \<le> Now w n" "\<not> Locked w n cid"
    and "Query w (Suc n) = (\<lambda>cmd. (ans, None))" "\<not> a_Found ans" "CanQuery (caps_of c (x_operation x))" "\<not> QueryOnly c"
    and "after (Now w (Suc n)) (x_expires_at x)" "after (Now w (Suc (Suc n))) (x_resend_deadline x)"
  obtains db' cmd y where "process c w alone cid (n, db) = (Inr (), [Query_call cmd], Suc (Suc (Suc n)), db')"
    "map_of (be_external_command db') cid = Some y" "x_state y = StateUnknown" "x_next_at y = Now w (Suc (Suc n))"
    "x_operation y = x_operation x" "x_expires_at y = x_expires_at x" "x_resend_deadline y = x_resend_deadline x"
proof -
  obtain r where r: "process c w alone cid (n, db) = query c w alone r (Suc n, db)" "w_facts r = facts_of x"
      "w_caps r = caps_of c (x_operation x)" "m_ID (w_cmd r) = cid" using process_unknown [of alone n db cid x w c, OF assms(1-4)] by blast
  let ?now = "Now w (Suc n)" and ?k = "w_attempts r + 1" and ?now2 = "Now w (Suc (Suc n))"
  have e: "query_event (w_caps r) ans None = (QueryNotFound, ''not_found'')" using assms(6,7) r(3) by (simp add: query_event_def)
  have "fst (resendable (facts_of x) (w_caps r) ?now)" using assms(9) by (auto simp: resendable_def)
  then obtain why where s: "Step (w_facts r) QueryNotFound (w_caps r) ?now = (Sending, why)"
    using assms(2) r(2) by (simp add: Step_not_found)
  define r1 db1 where d1: "r1 = r\<lparr>w_now := ?now, w_facts := (w_facts r)\<lparr>State := Sending\<rparr>\<rparr>"
    "db1 = update_command cid (set_row Sending why (?now + SendLease) ?now) (note_answer cid ?k ans ''not_found'' ?now db)"
  have q: "query_result c ?k r ans None ?now db = Inr ((True, r1), db1)"
    using e s r(4) assms(8) by (simp add: query_result_def Let_def set'_def d1)
  define r2 where "r2 = r1\<lparr>w_attempts := ?k\<rparr>"
  define db2 where "db2 = update_command cid (set_row StateUnknown PastDeadlineNotSent ?now2 ?now2) db1"
  have "\<exists>r3. send_check (?k + 1) r2 ?now2 db1 = Inr ((False, r3), db2)"
    using assms(10) r(2,4) by (simp add: send_check_def Step_def Let_def set'_def r2_def d1 db2_def)
  then have "send c w alone r2 (Suc (Suc n), db1) = (Inr (), [], Suc (Suc (Suc n)), db2)"
    by (auto simp: send_def Let_def ext_tx_def BackgroundTx_def r2_def d1)
  then have p: "process c w alone cid (n, db) = (Inr (), [Query_call (w_cmd r)], Suc (Suc (Suc n)), db2)"
    using r(1) q assms(5) by (simp add: query_def Let_def ext_tx_def BackgroundTx_def r2_def)
  have "map_of (be_external_command db2) cid =
      Some (set_row StateUnknown PastDeadlineNotSent ?now2 ?now2 (set_row Sending why (?now + SendLease) ?now x))"
    using assms(1,6) by (simp add: db2_def d1 update_command_row note_answer_not_found)
  from that [OF p this] show thesis by (simp add: set_row_def)
qed

text \<open>
  C37. A command can be queried forever: once the resend deadline and the expiry of an unknown command
  have passed and the external system keeps answering that it has no record of it, every step of
  the job claims it to be sent again, does not send it because the deadline has passed, and leaves
  it unknown and due at once; however many steps are made, it is never sent and never handed to a
  person.
\<close>

theorem extcmd_queried_forever:
  assumes "map_of (be_external_command db) cid = Some x" "x_state x = StateUnknown" "x_next_at x \<le> Now w n"
    and "x_resend_deadline x = Some d" "x_expires_at x = Some e" "d < Now w n" "e < Now w n" "mono (Now w)" "\<And>m. \<not> Locked w m cid"
    and "\<And>m. Query w m = (\<lambda>cmd. (ans, None))" "\<not> a_Found ans" "CanQuery (caps_of c (x_operation x))" "\<not> QueryOnly c"
  shows "\<exists>calls db' y. process_all c w alone (replicate k cid) (n, db) = (Inr (), calls, n + 3 * k, db') \<and> length calls = k \<and>
    filter is_send calls = [] \<and> map_of (be_external_command db') cid = Some y \<and> x_state y = StateUnknown \<and> x_next_at y \<le> Now w (n + 3 * k)"
  using assms(1-7,12)
proof (induction k arbitrary: n db x)
  case (Suc k)
  have later: "Now w n \<le> Now w (n + j)" "Now w n \<le> Now w (Suc (Suc n))" "Now w n \<le> Now w (Suc n)"
      "Now w (Suc (Suc n)) \<le> Now w (Suc (Suc (Suc n)))" for j
    using assms(8) by (auto intro: monoD)
  have a: "after (Now w (Suc n)) (x_expires_at x)" "after (Now w (Suc (Suc n))) (x_resend_deadline x)"
    using Suc.prems(4-7) later by (auto simp: after_def)
  obtain db1 cmd y where p: "process c w alone cid (n, db) = (Inr (), [Query_call cmd], Suc (Suc (Suc n)), db1)"
    "map_of (be_external_command db1) cid = Some y" "x_state y = StateUnknown" "x_next_at y = Now w (Suc (Suc n))"
    "x_operation y = x_operation x" "x_expires_at y = x_expires_at x" "x_resend_deadline y = x_resend_deadline x"
    using process_past_deadline [OF Suc.prems(1-3) assms(9,10,11) Suc.prems(8) assms(13) a] by blast
  have due: "x_next_at y \<le> Now w (n + 3)" "d < Now w (n + 3)" "e < Now w (n + 3)"
    using p(4) later(1) [of 3] later(4) Suc.prems(6,7) by (auto simp: numeral_3_eq_3)
  from Suc.IH [OF p(2,3) due(1) _ _ due(2,3)] p(5-7) Suc.prems(4,5,8) obtain calls db' z where
      "process_all c w alone (replicate k cid) (n + 3, db1) = (Inr (), calls, n + 3 + 3 * k, db')" "length calls = k"
      "filter is_send calls = []" "map_of (be_external_command db') cid = Some z" "x_state z = StateUnknown" "x_next_at z \<le> Now w (n + 3 + 3 * k)"
    by auto
  with p(1) show ?case by (simp add: numeral_3_eq_3 add.assoc)
qed simp

section \<open>Issue records\<close>

fun has_number :: "any_value \<Rightarrow> bool" where
  "has_number (Integer n) = True"
| "has_number (Number s) = True"
| "has_number (Float s) = True"
| "has_number (Arr vs) = list_ex has_number vs"
| "has_number (Obj kvs) = list_ex (\<lambda>(k, v). has_number v) kvs"
| "has_number v = False"

lemma unmarshal_same: "\<not> has_number v \<Longrightarrow> unmarshal v = v"
proof (induction v rule: has_number.induct)
  case (4 vs)
  then show ?case by (auto simp: list_ex_iff intro!: map_idI)
next
  case (5 kvs)
  then show ?case by (auto simp: list_ex_iff intro!: map_idI)
qed auto

lemma first_error_isl: "isl (first_error xs) \<longleftrightarrow> list_ex isl xs"
  by (induction xs rule: first_error.induct) (auto split: sum.splits)

lemma Encode_unmarshal: "has_number v \<Longrightarrow> isl (Encode (unmarshal v))"
proof (induction v rule: has_number.induct)
  case (4 vs)
  then have "isl (first_error (map Encode (map unmarshal vs)))" by (auto simp: first_error_isl list_ex_iff)
  then show ?case by (auto simp: isl_def)
next
  case (5 kvs)
  then obtain k v where kv: "(k, v) \<in> set kvs" "isl (Encode (unmarshal v))" by (auto simp: list_ex_iff)
  then have "(k, unmarshal v) \<in> set (map (\<lambda>(k, v). (k, unmarshal v)) kvs)" by force
  moreover have "isl (encode_member k (Encode (unmarshal v)))" using kv(2) by (auto simp: encode_member_def isl_def)
  ultimately have "isl (first_error (map (\<lambda>(k, v). encode_member k (Encode v)) (sort_key fst (map (\<lambda>(k, v). (k, unmarshal v)) kvs))))"
    by (auto simp: first_error_isl list_ex_iff) force
  then show ?case by (auto simp: isl_def)
qed auto

text \<open>
  The issue record of an irrevocable command carries the digest of the command's parameters only
  when they hold no number: the parameters are read back from the database with floating point
  numbers, which the canonical encoding refuses, and then the digest in the record is empty.
\<close>

theorem extcmd_issue_digest:
  assumes "load c locked cid now db = Inr r" "map_of (be_external_command db) cid = Some x" "Encode (x_params x) = Inr raw"
  shows "map_of (i_Detail (issue_of c r)) ''params_digest'' =
    Some (Str (if has_number (x_params x) then [] else DigestBytes ParamsRecord 1 raw))"
proof -
  have "m_Params (w_cmd r) = unmarshal (x_params x)" using assms(1,2) by (auto elim!: load_Inr)
  moreover have "mustDigest (unmarshal (x_params x)) = (if has_number (x_params x) then [] else DigestBytes ParamsRecord 1 raw)"
    using Encode_unmarshal [of "x_params x"] unmarshal_same [of "x_params x"] assms(3)
    by (auto simp: mustDigest_def Digest_def isl_def split: sum.splits)
  ultimately show ?thesis by (simp add: issue_of_def)
qed

section \<open>A concrete member\<close>

definition demo_caps :: Capabilities where
  "demo_caps = \<lparr>DedupeWindow = 24 * Hour, LastUse = False, CanQuery = True, Expiry = True, MaxProcessing = 0, Finality = 0, Irrevocable = True\<rparr>"

definition demo_commands :: Commands where
  "demo_commands = \<lparr>Component = ''pay'', Adapter = True, Ops = [(''transfer'', demo_caps)], Evidence = True, QueryOnly = False\<rparr>"

definition demo_answer :: Answer where
  "demo_answer = \<lparr>a_Found = False, a_State = [], a_ExternalID = [], a_Outcome = [], a_Response = []\<rparr>"

definition demo_world :: world where
  "demo_world = \<lparr>Now = (\<lambda>m. 100 + int m), Send = (\<lambda>_ _. Inl ''timeout''), Query = (\<lambda>_ _. (demo_answer, None)), List = None,
     Intent = (\<lambda>_ _. Some ''store''), Locked = (\<lambda>_ _. False), NextAt = (\<lambda>t. t)\<rparr>"

definition demo_command :: "string \<Rightarrow> ext_command" where
  "demo_command s = \<lparr>x_requester = ''sales'', x_reference = ''r1'', x_operation = ''transfer'', x_params = Obj [(''amount'', Integer 5)],
     x_params_digest = ''d'', x_irrevocable = True, x_state = s, x_reason = Requested, x_expires_at = None, x_next_at = 0,
     x_external_id = None, x_outcome = None, x_resend_deadline = None, x_first_reached = None, x_last_reached = None,
     x_unknown_since = (if s = StateUnknown then Some 1 else None), x_accepted_since = None, x_unrecorded_until = None,
     x_settled_at = (if terminal s then Some 1 else None)\<rparr>"

definition demo_db :: "ext_command \<Rightarrow> ext_db" where
  "demo_db x = \<lparr>be_external_command = [(''c1'', x)], be_external_attempt = [], be_external_reconciled = []\<rparr>"

lemma demo_db_row [simp]: "map_of (be_external_command (demo_db x)) ''c1'' = Some x"
  by (simp add: demo_db_def)

lemma demo_rows_ok: "row_ok x \<Longrightarrow> ext_ok (demo_db x)"
  by (auto simp: ext_ok_def demo_db_def fixed_rows_def split: if_splits)

lemma demo_simps [simp]:
  "caps_of demo_commands ''transfer'' = demo_caps" "CanQuery demo_caps" "\<not> QueryOnly demo_commands" "x_operation (demo_command s) = ''transfer''"
  "x_state (demo_command s) = s" "x_next_at (demo_command s) = 0" "Now demo_world m = 100 + int m" "\<not> Locked demo_world m cid"
  "Query demo_world m = (\<lambda>cmd. (demo_answer, None))" "\<not> a_Found demo_answer"
  by (simp_all add: caps_of_def demo_commands_def demo_caps_def demo_command_def demo_world_def demo_answer_def)

definition demo_open :: Open where
  "demo_open = \<lparr>o_Reference = ''r1'', o_Command = ''c1'', o_Operation = ''transfer'', o_Facts = facts_of (demo_command StateUnknown),
     o_SendingAt = None\<rparr>"


theorem extcmd_terminal_absorbs_witness:
  "map_of (be_external_command (snd (foldl (ext_step demo_commands demo_world) (0, demo_db (demo_command Succeeded))
     [OpRun, OpRegister ''c1'' Failed ''by hand'']))) ''c1'' = Some (demo_command Succeeded)"
proof -
  have "row_ok (demo_command Succeeded)" by (simp add: row_ok_def demo_command_def)
  then show ?thesis by (intro extcmd_terminal_absorbs demo_rows_ok demo_db_row) simp_all
qed


lemma demo_Encode: "Encode (Obj [(''amount'', Integer 5)]) = Inr (''{'' @ encodeString ''amount'' @ '':5}'')"
proof -
  have "FormatInt 5 = ''5''" by code_simp
  then show ?thesis by (simp add: encode_member_def encodeInt_def)
qed

theorem extcmd_request_once_witness:
  "\<exists>cmd db1. Request demo_commands (\<lambda>t. t) 0 ''c1'' ''sales'' ''r1'' ''transfer'' (Obj [(''amount'', Integer 5)]) None
       \<lparr>be_external_command = [], be_external_attempt = [], be_external_reconciled = []\<rparr> = Inr ((cmd, Prepared), db1) \<and>
     (\<exists>cmd' s' db2. Request demo_commands (\<lambda>t. t) 9 ''c2'' ''sales'' ''r1'' ''transfer'' (Obj [(''amount'', Integer 5)]) None
       (snd (foldl (ext_step demo_commands demo_world) (0, db1) [OpRun])) = Inr ((cmd', s'), db2) \<and> m_ID cmd' = m_ID cmd)"
proof -
  let ?db = "\<lparr>be_external_command = [], be_external_attempt = [], be_external_reconciled = []\<rparr> :: ext_db"
  let ?p = "Obj [(''amount'', Integer 5)]"
  have ok: "ext_ok ?db" by (simp add: ext_ok_def fixed_rows_def)
  have ops: "map_of (Ops demo_commands) ''transfer'' = Some demo_caps" by (simp add: demo_commands_def)
  obtain cmd db1 where r: "Request demo_commands (\<lambda>t. t) 0 ''c1'' ''sales'' ''r1'' ''transfer'' ?p None ?db = Inr ((cmd, Prepared), db1)"
    using ops demo_Encode by (simp add: Request_def demo_commands_def Let_def del: Encode.simps)
  from extcmd_request_once [OF ok r demo_Encode demo_Encode ops, of _ demo_world 0 "[OpRun]" "\<lambda>t. t" 9 "''c2''" None] r
  show ?thesis by auto
qed

text \<open>The external system lists the command as succeeded while the job queries it.\<close>

definition demo_meanwhile :: "ext_db interference" where
  "demo_meanwhile n db =
     (if n = 1
      then applyReconcile demo_commands \<lparr>p_recovery = ''x'', p_t = 0, p_before = 0, p_failedAt = None, p_issued = []\<rparr> (queryOpen db)
             [(''r1'', \<lparr>e_Reference = ''r1'', e_State = Succeeded, e_ExternalID = ''e1'', e_Outcome = [], e_Response = []\<rparr>)] [] 100 db
      else db)"

lemma demo_concluded:
  "\<exists>y. map_of (be_external_command (demo_meanwhile 1 (demo_db (demo_command StateUnknown)))) ''c1'' = Some y \<and> x_state y = Succeeded"
  by (simp add: demo_meanwhile_def applyReconcile_def queryOpen_def demo_db_def open_of_def Let_def Match_def match_open_def
      match_rest_def conclusion_def apply_conclusion_def conclude_def set'_def update_command_def set_row_def asked_command_def demo_command_def)

theorem extcmd_query_overwrites_witness:
  "\<exists>x' y. map_of (be_external_command (demo_meanwhile 1 (demo_db (demo_command StateUnknown)))) ''c1'' = Some x' \<and> x_state x' = Succeeded \<and>
     map_of (be_external_command (snd (snd (snd (process demo_commands demo_world demo_meanwhile ''c1'' (0, demo_db (demo_command StateUnknown))))))) ''c1'' = Some y \<and>
     x_state y = Manual"
proof -
  let ?db = "demo_db (demo_command StateUnknown)"
  have o: "demo_meanwhile 0 ?db = ?db" by (simp add: demo_meanwhile_def)
  obtain x' where x': "map_of (be_external_command (demo_meanwhile (Suc 0) (demo_meanwhile 0 ?db))) ''c1'' = Some x'" "x_state x' = Succeeded"
    using demo_concluded o by auto
  obtain res calls n' db' where p: "process demo_commands demo_world demo_meanwhile ''c1'' (0, ?db) = (res, calls, n', db')" by (metis prod_cases4)
  have r: "\<not> fst (resendable (facts_of (demo_command StateUnknown)) demo_caps (Now demo_world (Suc 0)))"
    by (simp add: resendable_def Deadline_def facts_of_def demo_command_def demo_caps_def after_def latest_send_def)
  have "\<exists>y. map_of (be_external_command db') ''c1'' = Some y \<and> x_state y = Manual"
    by (rule extcmd_query_overwrites [OF _ _ _ _ _ _ _ _ x'(1) p, where ans = demo_answer and x = "demo_command StateUnknown"]) (use o r in simp_all)
  with x' o p show ?thesis by auto
qed

theorem extcmd_queried_forever_witness:
  "\<exists>calls db' y. process_all demo_commands demo_world alone (replicate 5 ''c1'')
       (0, demo_db ((demo_command StateUnknown)\<lparr>x_resend_deadline := Some 3, x_expires_at := Some 4\<rparr>)) = (Inr (), calls, 15, db') \<and>
     length calls = 5 \<and> filter is_send calls = [] \<and> map_of (be_external_command db') ''c1'' = Some y \<and> x_state y = StateUnknown"
proof -
  let ?x = "(demo_command StateUnknown)\<lparr>x_resend_deadline := Some 3, x_expires_at := Some 4\<rparr>"
  have "mono (Now demo_world)" by (simp add: mono_def)
  from extcmd_queried_forever [of "demo_db ?x" "''c1''" ?x demo_world 0 3 4 demo_answer demo_commands 5] this show ?thesis by auto
qed

theorem extcmd_issue_digest_witness:
  "\<exists>r. load demo_commands False ''c1'' 100 (demo_db (demo_command Prepared)) = Inr r \<and>
     map_of (i_Detail (issue_of demo_commands r)) ''params_digest'' = Some (Str [])"
proof -
  obtain r where r: "load demo_commands False ''c1'' 100 (demo_db (demo_command Prepared)) = Inr r"
    by (rule load_due [OF demo_db_row, of "demo_command Prepared" 100]) auto
  from extcmd_issue_digest [OF r demo_db_row, of "''{'' @ encodeString ''amount'' @ '':5}''"] demo_Encode r show ?thesis
    by (simp add: demo_command_def del: Encode.simps)
qed

end
