(* ===== verification/Money.thy ===== *)
theory Money
  imports Complex_Main SDK_Prelude "HOL-Library.Multiset"
begin

text \<open>
  Allocation of an amount by weights (\<open>money/money.go\<close>): \<open>Allocate\<close> and \<open>largestRemainder\<close>, with exact rational
  arithmetic as in the code. A decimal of the decimal library is its sign, coefficient and exponent;
  its text, which the code reads back as a fraction, is its value. Parsing, formatting and rounding
  are calls of that library and are left out. The texts of errors are left out.
\<close>

section \<open>Decimals\<close>

record Decimal =
  dc_Negative :: bool
  dc_Coeff :: nat
  dc_Exponent :: int

definition ten_to :: "int \<Rightarrow> rat" where
  "ten_to e = (if 0 \<le> e then 10 ^ nat e else 1 / 10 ^ nat (- e))"

definition rat_of_decimal :: "Decimal \<Rightarrow> rat" where
  "rat_of_decimal d = (if dc_Negative d then -1 else 1) * of_nat (dc_Coeff d) * ten_to (dc_Exponent d)"

text \<open>\<open>apd.NewWithBigInt\<close>.\<close>

definition NewWithBigInt :: "int \<Rightarrow> int \<Rightarrow> Decimal" where
  "NewWithBigInt p e = \<lparr>dc_Negative = (p < 0), dc_Coeff = nat \<bar>p\<bar>, dc_Exponent = e\<rparr>"

text \<open>\<open>big.Int.Exp\<close> without a modulus: a power that is not positive gives one.\<close>

definition big_Exp :: "int \<Rightarrow> int \<Rightarrow> int" where
  "big_Exp x y = (if y \<le> 0 then 1 else x ^ nat y)"

section \<open>The largest remainders\<close>

text \<open>
  The order of the parts: each index moves left past the smaller remainders. The sorted part is kept
  from right to left.
\<close>

fun sift :: "(nat \<Rightarrow> rat) \<Rightarrow> nat \<Rightarrow> nat list \<Rightarrow> nat list" where
  "sift rems i [] = [i]"
| "sift rems i (j # js) = (if rems i > rems j then j # sift rems i js else i # j # js)"

definition remainder_order :: "(nat \<Rightarrow> rat) \<Rightarrow> nat \<Rightarrow> nat list" where
  "remainder_order rems n = rev (fold (sift rems) [0..<n] [])"

text \<open>The units that are left go to the first parts of the order, one each.\<close>

fun give_left :: "nat list \<Rightarrow> nat \<Rightarrow> int list \<Rightarrow> int list" where
  "give_left order 0 parts = parts"
| "give_left [] (Suc left) parts = parts"
| "give_left (i # order) (Suc left) parts = give_left order left (parts[i := parts ! i + 1])"

definition share_of :: "int \<Rightarrow> rat list \<Rightarrow> rat \<Rightarrow> nat \<Rightarrow> rat" where
  "share_of n ws wsum i = of_int n * (ws ! i) / wsum"

definition rem_of :: "int \<Rightarrow> rat list \<Rightarrow> rat \<Rightarrow> nat \<Rightarrow> rat" where
  "rem_of n ws wsum i = share_of n ws wsum i - of_int \<lfloor>share_of n ws wsum i\<rfloor>"

definition largestRemainder :: "int \<Rightarrow> rat list \<Rightarrow> rat \<Rightarrow> int list" where
  "largestRemainder n ws wsum =
     (let base = map (\<lambda>i. \<lfloor>share_of n ws wsum i\<rfloor>) [0..<length ws]
      in give_left (remainder_order (rem_of n ws wsum) (length ws)) (nat (n - sum_list base)) base)"

datatype allocate_error = TooManyPlaces | BadWeight | ZeroWeights

definition Allocate :: "Decimal \<Rightarrow> Decimal list \<Rightarrow> int \<Rightarrow> allocate_error + Decimal list" where
  "Allocate whole weights scale =
     (let t = rat_of_decimal whole; units = \<bar>t\<bar> * of_int (big_Exp 10 scale); ws = map rat_of_decimal weights
      in if of_int \<lfloor>units\<rfloor> \<noteq> units then Inl TooManyPlaces
         else if \<exists>w\<in>set ws. w < 0 then Inl BadWeight
         else if sum_list ws = 0 then Inl ZeroWeights
         else Inr (map (\<lambda>p. NewWithBigInt (if t < 0 then - p else p) (- scale)) (largestRemainder \<lfloor>units\<rfloor> ws (sum_list ws))))"

section \<open>The order of the remainders\<close>

lemma mset_sift [simp]: "mset (sift rems i js) = add_mset i (mset js)"
  by (induction js) auto

lemma set_sift [simp]: "set (sift rems i js) = insert i (set js)"
  by (induction js) auto

lemma mset_sift_fold: "mset (fold (sift rems) xs js) = mset xs + mset js"
  by (induction xs arbitrary: js) auto

text \<open>Larger remainders come first, equal ones in the order of the parts.\<close>

definition precedes :: "(nat \<Rightarrow> rat) \<Rightarrow> nat \<Rightarrow> nat \<Rightarrow> bool" where
  "precedes rems i j \<longleftrightarrow> rems j < rems i \<or> rems j = rems i \<and> i < j"

lemma sift_sorted:
  assumes "sorted_wrt (\<lambda>i j. precedes rems j i) js" "\<forall>j\<in>set js. j < i"
  shows "sorted_wrt (\<lambda>i j. precedes rems j i) (sift rems i js)"
  using assms
proof (induction js)
  case (Cons j js)
  show ?case
  proof (cases "rems i > rems j")
    case True
    then show ?thesis
      using Cons by (auto simp: precedes_def)
  next
    case False
    have "precedes rems x i" if "x \<in> set (j # js)" for x
    proof -
      have "rems j \<le> rems x"
        using that Cons.prems(1) by (auto simp: precedes_def)
      then show ?thesis
        using False that Cons.prems(2) by (auto simp: precedes_def)
    qed
    with False Cons.prems(1) show ?thesis by simp
  qed
qed simp

lemma sift_fold_sorted:
  assumes "sorted_wrt (\<lambda>i j. precedes rems j i) js" "\<forall>j\<in>set js. j < m"
  shows "sorted_wrt (\<lambda>i j. precedes rems j i) (fold (sift rems) [m..<n] js)"
  using assms
proof (induction "n - m" arbitrary: m js)
  case (Suc k)
  then have "m < n" by simp
  with Suc \<open>m < n\<close> show ?case
    using Suc.hyps(1) [of "Suc m" "sift rems m js"] by (simp add: sift_sorted upt_conv_Cons less_Suc_eq)
qed simp

lemma remainder_order_mset: "mset (remainder_order rems n) = mset [0..<n]"
  by (simp only: remainder_order_def mset_rev mset_sift_fold mset.simps(1) add_0_right)

lemma remainder_order_props:
  "distinct (remainder_order rems n)" "set (remainder_order rems n) = {..<n}" "length (remainder_order rems n) = n"
  "sorted_wrt (precedes rems) (remainder_order rems n)"
proof -
  show "distinct (remainder_order rems n)"
    unfolding mset_eq_imp_distinct_iff [OF remainder_order_mset] by (rule distinct_upt)
  show "set (remainder_order rems n) = {..<n}"
    unfolding mset_eq_setD [OF remainder_order_mset] by (simp only: set_upt atLeast0LessThan)
  show "length (remainder_order rems n) = n"
    unfolding mset_eq_length [OF remainder_order_mset] by (simp only: length_upt diff_zero)
  show "sorted_wrt (precedes rems) (remainder_order rems n)"
    using sift_fold_sorted [of rems "[]" 0 n] by (simp add: remainder_order_def sorted_wrt_rev)
qed

section \<open>The parts\<close>

lemma sum_list_add_at: "k < length xs \<Longrightarrow> sum_list (xs[k := xs ! k + (a::int)]) = sum_list xs + a"
proof (induction xs arbitrary: k)
  case (Cons x xs)
  then show ?case by (cases k) auto
qed simp

lemma give_left_nth:
  assumes "distinct order" "set order \<subseteq> {..<length parts}" "left \<le> length order"
  shows "length (give_left order left parts) = length parts \<and>
    (\<forall>i < length parts. give_left order left parts ! i = parts ! i + (if i \<in> set (take left order) then 1 else 0)) \<and>
    sum_list (give_left order left parts) = sum_list parts + int left"
  using assms
proof (induction order left parts rule: give_left.induct)
  case (3 k order left parts)
  then have k: "k < length parts" "k \<notin> set order" by auto
  then have "k \<notin> set (take left order)" by (auto dest: in_set_takeD)
  moreover have "sum_list (parts[k := parts ! k + 1]) = sum_list parts + 1"
    by (rule sum_list_add_at [OF k(1)])
  ultimately show ?case
    using 3 k by (auto simp: nth_list_update)
qed auto

lemma sum_list_upt: "sum_list (map f [0..<k]) = (\<Sum>i<k. f i)"
  by (simp add: sum_set_upt_conv_sum_list_nat [symmetric] atLeast0LessThan)

text \<open>The shares add up to the amount, so the remainders add up to the units that are left.\<close>

lemma shares_sum:
  assumes "0 < sum_list ws"
  shows "(\<Sum>i<length ws. share_of n ws (sum_list ws) i) = of_int n"
proof -
  have "sum_list ws = (\<Sum>i<length ws. ws ! i)"
    by (simp add: sum_list_sum_nth atLeast0LessThan)
  moreover have "(\<Sum>i<length ws. share_of n ws (sum_list ws) i) = of_int n * (\<Sum>i<length ws. ws ! i) / sum_list ws"
    by (simp add: share_of_def sum_distrib_left sum_divide_distrib)
  ultimately show ?thesis using assms by simp
qed

lemma rem_range: "0 \<le> rem_of n ws wsum i" "rem_of n ws wsum i < 1"
  unfolding rem_of_def by linarith+

lemma left_sum:
  assumes "0 < sum_list ws"
  shows "of_int (n - sum_list (map (\<lambda>i. \<lfloor>share_of n ws (sum_list ws) i\<rfloor>) [0..<length ws])) = (\<Sum>i<length ws. rem_of n ws (sum_list ws) i)"
proof -
  have "(\<Sum>i<length ws. rem_of n ws (sum_list ws) i) =
      (\<Sum>i<length ws. share_of n ws (sum_list ws) i) - (\<Sum>i<length ws. of_int \<lfloor>share_of n ws (sum_list ws) i\<rfloor>)"
    by (simp add: rem_of_def sum_subtractf)
  then show ?thesis
    by (simp add: shares_sum [OF assms] sum_list_upt)
qed

text \<open>There are fewer units left than parts with a remainder, unless there is none.\<close>

lemma left_bound:
  fixes rem :: "nat \<Rightarrow> rat"
  assumes "of_int left = (\<Sum>i<k. rem i)" "\<And>i. 0 \<le> rem i" "\<And>i. rem i < 1"
  shows "0 \<le> left" "left \<le> int (card {i. i < k \<and> rem i > 0})"
proof -
  have "(0::rat) \<le> of_int left"
    unfolding assms(1) by (rule sum_nonneg) (rule assms(2))
  then show "0 \<le> left" by simp
  have "(\<Sum>i<k. rem i) \<le> (\<Sum>i<k. if rem i > 0 then 1 else 0)"
    using assms(2,3) by (intro sum_mono) (auto simp: less_imp_le not_less)
  also have "\<dots> = of_nat (card {i. i < k \<and> rem i > 0})"
    by (simp add: sum.If_cases Int_def)
  finally have "(of_int left :: rat) \<le> of_int (int (card {i. i < k \<and> rem i > 0}))"
    unfolding assms(1) [symmetric] by simp
  then show "left \<le> int (card {i. i < k \<and> rem i > 0})"
    unfolding of_int_le_iff .
qed

lemma order_split:
  assumes "a \<in> set (take left (remainder_order rem k))" "b \<in> set (drop left (remainder_order rem k))"
  shows "precedes rem a b"
proof -
  have "sorted_wrt (precedes rem) (take left (remainder_order rem k) @ drop left (remainder_order rem k))"
    unfolding append_take_drop_id by (rule remainder_order_props(4))
  with assms show ?thesis unfolding sorted_wrt_append by blast
qed

lemma take_positive:
  assumes "left \<le> card {i. i < k \<and> rem i > 0}" "\<And>i. (0::rat) \<le> rem i" "i \<in> set (take left (remainder_order rem k))"
  shows "0 < rem i"
proof (rule ccontr)
  let ?order = "remainder_order rem k"
  note order = remainder_order_props [of rem k]
  assume "\<not> 0 < rem i"
  then have i: "rem i = 0" using assms(2) [of i] by simp
  have "{j. j < k \<and> rem j > 0} \<subseteq> set (take left ?order) - {i}"
  proof
    fix j
    assume j: "j \<in> {j. j < k \<and> rem j > 0}"
    then have "j \<in> set (take left ?order) \<union> set (drop left ?order)"
      unfolding set_append [symmetric] append_take_drop_id order(2) by simp
    moreover have "j \<notin> set (drop left ?order)"
      using order_split [OF assms(3), of j] i j by (auto simp: precedes_def)
    ultimately show "j \<in> set (take left ?order) - {i}"
      using i j by auto
  qed
  then have "card {j. j < k \<and> rem j > 0} \<le> card (set (take left ?order) - {i})"
    by (intro card_mono) auto
  also have "\<dots> < card (set (take left ?order))"
    using assms(3) by (intro card_Diff1_less) auto
  also have "\<dots> \<le> left"
    by (rule order_trans [OF card_length]) simp
  finally show False using assms(1) by simp
qed

lemma largestRemainder_fair:
  fixes n :: int
  assumes "0 < sum_list ws"
  defines "share \<equiv> share_of n ws (sum_list ws)" and "rem \<equiv> rem_of n ws (sum_list ws)" and "qs \<equiv> largestRemainder n ws (sum_list ws)"
  shows "length qs = length ws" "sum_list qs = n"
    and "i < length ws \<Longrightarrow> (qs ! i = \<lfloor>share i\<rfloor> \<or> qs ! i = \<lfloor>share i\<rfloor> + 1) \<and> (rem i = 0 \<longrightarrow> qs ! i = \<lfloor>share i\<rfloor>)"
    and "i < length ws \<Longrightarrow> j < length ws \<Longrightarrow> qs ! i = \<lfloor>share i\<rfloor> + 1 \<Longrightarrow> qs ! j = \<lfloor>share j\<rfloor> \<Longrightarrow> precedes rem i j"
proof -
  define base where "base = map (\<lambda>i. \<lfloor>share i\<rfloor>) [0..<length ws]"
  define left where "left = n - sum_list base"
  define order where "order = remainder_order rem (length ws)"
  note props = remainder_order_props [of rem "length ws", folded order_def]
  have "of_int left = (\<Sum>i<length ws. rem i)"
    unfolding left_def base_def share_def rem_def by (rule left_sum [OF assms(1)])
  then have left: "0 \<le> left" "left \<le> int (card {i. i < length ws \<and> rem i > 0})"
    by (rule left_bound; simp add: rem_def rem_range)+
  have "card {i. i < length ws \<and> rem i > 0} \<le> card {..<length ws}"
    by (intro card_mono) auto
  then have "nat left \<le> length order"
    using left props(3) by simp
  then have give: "length qs = length ws" "\<forall>i < length ws. qs ! i = base ! i + (if i \<in> set (take (nat left) order) then 1 else 0)"
      "sum_list qs = sum_list base + int (nat left)"
  proof -
    have "qs = give_left order (nat left) base"
      unfolding qs_def largestRemainder_def Let_def order_def left_def base_def rem_def share_def ..
    moreover have "length base = length ws"
      by (simp add: base_def)
    ultimately show "length qs = length ws" "\<forall>i < length ws. qs ! i = base ! i + (if i \<in> set (take (nat left) order) then 1 else 0)"
      "sum_list qs = sum_list base + int (nat left)"
      using give_left_nth [of order base "nat left"] props \<open>nat left \<le> length order\<close> by simp_all
  qed
  show "length qs = length ws" by (rule give(1))
  show "sum_list qs = n"
    using give(3) left(1) by (simp add: left_def)
  have q: "qs ! i = \<lfloor>share i\<rfloor> + (if i \<in> set (take (nat left) order) then 1 else 0)" if "i < length ws" for i
    using give(2) that by (simp add: base_def)
  have pos: "0 < rem i" if "i \<in> set (take (nat left) order)" for i
    using take_positive [of "nat left" "length ws" rem i] that left rem_range by (simp add: order_def rem_def)
  show "(qs ! i = \<lfloor>share i\<rfloor> \<or> qs ! i = \<lfloor>share i\<rfloor> + 1) \<and> (rem i = 0 \<longrightarrow> qs ! i = \<lfloor>share i\<rfloor>)" if "i < length ws" for i
    using q [OF that] pos [of i] by auto
  show "precedes rem i j" if "i < length ws" "j < length ws" "qs ! i = \<lfloor>share i\<rfloor> + 1" "qs ! j = \<lfloor>share j\<rfloor>" for i j
  proof -
    have "i \<in> set (take (nat left) order)" "j \<notin> set (take (nat left) order)"
      using q [OF that(1)] q [OF that(2)] that(3,4) by (auto split: if_splits)
    moreover have "j \<in> set (take (nat left) order) \<union> set (drop (nat left) order)"
      unfolding set_append [symmetric] append_take_drop_id using props(2) that(2) by simp
    ultimately show ?thesis
      using order_split [of i "nat left" rem "length ws" j] by (simp add: order_def)
  qed
qed

section \<open>Allocation\<close>

lemma rat_of_NewWithBigInt: "rat_of_decimal (NewWithBigInt p e) = of_int p * ten_to e"
proof -
  have "(of_nat (nat \<bar>p\<bar>) :: rat) = of_int \<bar>p\<bar>"
    by simp
  then show ?thesis
    by (simp add: rat_of_decimal_def NewWithBigInt_def abs_if)
qed

lemma sum_list_parts:
  "sum_list (map (\<lambda>p. rat_of_decimal (NewWithBigInt (if neg then - p else p) e)) qs) = (if neg then - 1 else 1) * of_int (sum_list qs) * ten_to e"
  by (induction qs) (simp_all add: rat_of_NewWithBigInt algebra_simps)

lemma minor_units:
  "of_int (big_Exp 10 scale) * ten_to (- scale) = (if 0 \<le> scale then 1 else 10 ^ nat (- scale))"
  by (auto simp: big_Exp_def ten_to_def)

text \<open>
  C40. An allocation is exact and fair. Every part is a whole number of minor units; the parts
  add up to the total; each is its exact share rounded down or one unit more, and exactly the share when
  that is a whole number, so a part without weight gets nothing; and a part that got the extra
  unit has a larger remainder than one that did not, or an equal one and comes earlier. With a
  negative scale the parts add up to too much: the total times the power of ten of its magnitude.
\<close>

theorem money_allocate_exact:
  assumes "Allocate whole weights scale = Inr parts"
  shows "\<exists>units qs. of_int units = \<bar>rat_of_decimal whole\<bar> * of_int (big_Exp 10 scale) \<and> length qs = length weights \<and>
    parts = map (\<lambda>q. NewWithBigInt (if rat_of_decimal whole < 0 then - q else q) (- scale)) qs \<and>
    sum_list (map rat_of_decimal parts) = (if 0 \<le> scale then rat_of_decimal whole else rat_of_decimal whole * 10 ^ nat (- scale)) \<and>
    (let ws = map rat_of_decimal weights; share = share_of units ws (sum_list ws); rem = rem_of units ws (sum_list ws)
     in (\<forall>i < length ws. (qs ! i = \<lfloor>share i\<rfloor> \<or> qs ! i = \<lfloor>share i\<rfloor> + 1) \<and> (rem i = 0 \<longrightarrow> qs ! i = \<lfloor>share i\<rfloor>)) \<and>
        (\<forall>i < length ws. \<forall>j < length ws. qs ! i = \<lfloor>share i\<rfloor> + 1 \<and> qs ! j = \<lfloor>share j\<rfloor> \<longrightarrow> rem j < rem i \<or> rem j = rem i \<and> i < j))"
proof -
  let ?t = "rat_of_decimal whole" and ?ws = "map rat_of_decimal weights"
  define units where "units = \<lfloor>\<bar>?t\<bar> * of_int (big_Exp 10 scale)\<rfloor>"
  define qs where "qs = largestRemainder units ?ws (sum_list ?ws)"
  have units: "of_int units = \<bar>?t\<bar> * of_int (big_Exp 10 scale)" and ws: "\<forall>w\<in>set ?ws. 0 \<le> w" "sum_list ?ws \<noteq> 0"
    and parts: "parts = map (\<lambda>q. NewWithBigInt (if ?t < 0 then - q else q) (- scale)) qs"
    using assms unfolding Allocate_def Let_def units_def qs_def by (auto simp: not_less split: if_splits)
  have "0 \<le> sum_list ?ws"
    using ws(1) by (intro sum_list_nonneg) blast
  with ws(2) have pos: "0 < sum_list ?ws"
    by simp
  note fair = largestRemainder_fair [OF pos, where n = units, folded qs_def]
  have "sum_list (map rat_of_decimal parts) = (if ?t < 0 then - 1 else 1) * of_int units * ten_to (- scale)"
    using sum_list_parts [of "?t < 0" "- scale" qs] fair(2) by (simp add: parts comp_def)
  also have "\<dots> = ?t * (of_int (big_Exp 10 scale) * ten_to (- scale))"
    unfolding units by (simp add: abs_if)
  finally have "sum_list (map rat_of_decimal parts) = (if 0 \<le> scale then ?t else ?t * 10 ^ nat (- scale))"
    unfolding minor_units by simp
  then show ?thesis
    using units parts fair unfolding Let_def precedes_def by (intro exI [of _ units] exI [of _ qs]) simp
qed

theorem money_allocate_exact_witness:
  "\<exists>parts. Allocate \<lparr>dc_Negative = True, dc_Coeff = 1, dc_Exponent = 0\<rparr>
     [\<lparr>dc_Negative = False, dc_Coeff = 1, dc_Exponent = 0\<rparr>, \<lparr>dc_Negative = False, dc_Coeff = 1, dc_Exponent = 0\<rparr>] 1 = Inr parts \<and>
     sum_list (map rat_of_decimal parts) = - 1"
proof -
  let ?whole = "\<lparr>dc_Negative = True, dc_Coeff = 1, dc_Exponent = 0\<rparr>" and ?w = "\<lparr>dc_Negative = False, dc_Coeff = 1, dc_Exponent = 0\<rparr>"
  obtain parts where "Allocate ?whole [?w, ?w] 1 = Inr parts"
    by (simp add: Allocate_def Let_def rat_of_decimal_def ten_to_def big_Exp_def)
  moreover from money_allocate_exact [OF this] have "sum_list (map rat_of_decimal parts) = rat_of_decimal ?whole"
    by auto
  ultimately show ?thesis
    by (auto simp: rat_of_decimal_def ten_to_def)
qed

end
