(* ===== verification/Batches.thy ===== *)
theory Batches
  imports SDK_Prelude
begin

text \<open>
  Deleting in batches (\<open>db/batch.go\<close>). A statement deletes at most \<open>Batch\<close> rows of a table with a primary
  key, among those its condition selects (which includes that nobody holds the row, because the
  statements skip locked rows); it is run until a batch deletes fewer. The condition may change from
  batch to batch with the clock and the locks. Run alone with a fixed condition, exactly the rows it
  selects are gone.
\<close>

abbreviation (input) delete_batch :: nat where "delete_batch \<equiv> 1000"

text \<open>One batch: how many rows it deletes, and the rows left.\<close>

definition delete_some :: "('k \<times> 'r \<Rightarrow> bool) \<Rightarrow> ('k \<times> 'r) list \<Rightarrow> nat \<times> ('k \<times> 'r) list" where
  "delete_some selected rows =
     (let gone = take delete_batch (map fst (filter selected rows))
      in (length gone, filter (\<lambda>(k, _). k \<notin> set gone) rows))"

lemma delete_some_shrinks:
  assumes "delete_some selected rows = (n, rows')" "0 < n"
  shows "length rows' < length rows"
proof -
  define gone where "gone = take delete_batch (map fst (filter selected rows))"
  have r: "rows' = filter (\<lambda>(k, _). k \<notin> set gone) rows" "n = length gone"
    using assms(1) by (auto simp: delete_some_def gone_def Let_def)
  then obtain k where k: "k \<in> set gone"
    using assms(2) by (cases gone) auto
  then obtain x where "(k, x) \<in> set rows"
    by (auto simp: gone_def dest!: in_set_takeD)
  then show ?thesis
    using k unfolding r(1) by (intro length_filter_less) auto
qed

text \<open>Batch after batch; the answer is how many rows were deleted.\<close>

function DeleteInBatches :: "(nat \<Rightarrow> 'k \<times> 'r \<Rightarrow> bool) \<Rightarrow> nat \<Rightarrow> nat \<Rightarrow> ('k \<times> 'r) list \<Rightarrow> nat \<times> ('k \<times> 'r) list" where
  "DeleteInBatches selected k deleted rows =
     (case delete_some (selected k) rows of
        (n, rows') \<Rightarrow> if n < delete_batch then (deleted + n, rows') else DeleteInBatches selected (Suc k) (deleted + n) rows')"
  by pat_completeness auto
termination
  by (relation "measure (\<lambda>(_, _, _, rows). length rows)") (auto dest!: delete_some_shrinks [OF sym])

declare DeleteInBatches.simps [simp del]

section \<open>What a batch leaves\<close>

lemma map_of_filter_keys: "map_of (filter (\<lambda>(i, _). i \<notin> A) xs) k = (if k \<in> A then None else map_of xs k)"
  by (induction xs) auto

text \<open>A row that is not selected stays; nothing new appears, and the order is kept.\<close>

lemma delete_some_rows:
  assumes "delete_some selected rows = (n, rows')" "distinct (map fst rows)"
  shows "distinct (map fst rows')"
    and "map_of rows' k = Some x \<Longrightarrow> map_of rows k = Some x"
    and "map_of rows k = Some x \<Longrightarrow> \<not> selected (k, x) \<Longrightarrow> map_of rows' k = Some x"
proof -
  define gone where "gone = take delete_batch (map fst (filter selected rows))"
  have r: "rows' = filter (\<lambda>(k, _). k \<notin> set gone) rows"
    using assms(1) by (auto simp: delete_some_def gone_def Let_def)
  have row: "map_of rows' k = (if k \<in> set gone then None else map_of rows k)"
    unfolding r by (rule map_of_filter_keys)
  show "distinct (map fst rows')"
    unfolding r using assms(2) by (rule distinct_map_filter)
  show "map_of rows' k = Some x \<Longrightarrow> map_of rows k = Some x"
    by (simp add: row split: if_splits)
  show "map_of rows' k = Some x" if x: "map_of rows k = Some x" "\<not> selected (k, x)"
  proof -
    have "k \<notin> set gone"
    proof
      assume "k \<in> set gone"
      then obtain y where "(k, y) \<in> set rows" "selected (k, y)"
        by (auto simp: gone_def dest!: in_set_takeD)
      with x assms(2) show False by (auto dest: map_of_is_SomeI)
    qed
    with x show ?thesis by (simp add: row)
  qed
qed

lemma filter_not_keys:
  assumes "distinct (map fst rows)"
  shows "filter (\<lambda>(k, _). k \<notin> fst ` set (filter P rows)) rows = filter (\<lambda>r. \<not> P r) rows"
proof (rule filter_cong [OF refl])
  fix r
  assume "r \<in> set rows"
  with assms show "(case r of (k, _) \<Rightarrow> k \<notin> fst ` set (filter P rows)) = (\<not> P r)"
    by (cases r) (auto simp: image_iff dest: eq_key_imp_eq_value)
qed

lemma filter_not_taken: "distinct xs \<Longrightarrow> filter (\<lambda>r. r \<notin> set (take m xs)) xs = drop m xs"
proof (induction xs arbitrary: m)
  case (Cons x xs)
  show ?case
  proof (cases m)
    case 0
    then show ?thesis by simp
  next
    case (Suc n)
    have "filter (\<lambda>r. r \<noteq> x \<and> r \<notin> set (take n xs)) xs = filter (\<lambda>r. r \<notin> set (take n xs)) xs"
      using Cons.prems by (intro filter_cong) auto
    with Cons Suc show ?thesis by simp
  qed
qed simp

text \<open>A batch that is not full deletes all it selects; a full one leaves the rest of them for the next.\<close>

lemma delete_some_last:
  assumes "delete_some selected rows = (n, rows')" "distinct (map fst rows)" "n < delete_batch"
  shows "n = length (filter selected rows) \<and> rows' = filter (\<lambda>r. \<not> selected r) rows"
proof -
  have "length (filter selected rows) < delete_batch"
    using assms(1,3) by (auto simp: delete_some_def Let_def)
  then show ?thesis
    using assms(1) filter_not_keys [OF assms(2), of selected] by (auto simp: delete_some_def Let_def)
qed

lemma delete_some_count:
  assumes "delete_some selected rows = (n, rows')" "distinct (map fst rows)"
  shows "length (filter selected rows) = n + length (filter selected rows')"
    and "filter (\<lambda>r. \<not> selected r) rows' = filter (\<lambda>r. \<not> selected r) rows"
proof -
  define gone where "gone = take delete_batch (filter selected rows)"
  have r: "rows' = filter (\<lambda>(k, _). k \<notin> fst ` set gone) rows" "n = length gone"
    using assms(1) by (auto simp: delete_some_def gone_def Let_def take_map)
  have sub: "set gone \<subseteq> set (filter selected rows)"
    unfolding gone_def by (rule set_take_subset)
  have key: "k \<notin> fst ` set gone \<longleftrightarrow> (k, x) \<notin> set gone" if "(k, x) \<in> set rows" for k x
    using sub that assms(2) by (auto simp: image_iff dest: eq_key_imp_eq_value)
  then have eq: "rows' = filter (\<lambda>r. r \<notin> set gone) rows"
    unfolding r by (intro filter_cong) auto
  show "filter (\<lambda>r. \<not> selected r) rows' = filter (\<lambda>r. \<not> selected r) rows"
    unfolding eq filter_filter using sub by (intro filter_cong) auto
  have d: "distinct rows"
    using assms(2) distinct_map by blast
  have "filter selected rows' = filter (\<lambda>r. r \<notin> set gone) (filter selected rows)"
    unfolding eq filter_filter by (intro filter_cong) auto
  also have "\<dots> = drop delete_batch (filter selected rows)"
    unfolding gone_def using d by (intro filter_not_taken) simp
  finally show "length (filter selected rows) = n + length (filter selected rows')"
    by (simp add: r(2) gone_def)
qed

lemma DeleteInBatches_all:
  assumes "distinct (map fst rows)"
  shows "DeleteInBatches (\<lambda>_. selected) k deleted rows =
    (deleted + length (filter selected rows), filter (\<lambda>r. \<not> selected r) rows)"
  using assms
proof (induction "\<lambda>_::nat. selected" k deleted rows rule: DeleteInBatches.induct)
  case (1 k deleted rows)
  obtain n rows' where d: "delete_some selected rows = (n, rows')"
    by force
  show ?case
  proof (cases "n < delete_batch")
    case True
    then show ?thesis
      using delete_some_last [OF d 1(2) True] by (simp add: DeleteInBatches.simps [of _ k] d)
  next
    case False
    then have "DeleteInBatches (\<lambda>_. selected) (Suc k) (deleted + n) rows' =
        (deleted + n + length (filter selected rows'), filter (\<lambda>r. \<not> selected r) rows')"
      using 1(1) [OF d [symmetric]] delete_some_rows(1) [OF d 1(2)] by simp
    then show ?thesis
      using delete_some_count [OF d 1(2)] False by (simp add: DeleteInBatches.simps [of _ k] d)
  qed
qed

end
