(* ===== verification/Idem.thy ===== *)
theory Idem
  imports Transactions Canon Batches
begin

text \<open>
  Idempotency keys (\<open>idem/idem.go\<close>, \<open>idem/cleanup.go\<close>): \<open>Do\<close> claims a key, runs the command and stores its
  outcome in one transaction. The transaction is \<open>Transactions.run\<close>, retries included; the clock of
  the database is part of the state because every attempt reads its own. What the server answers to
  the claim, whether a row is removed between the claim and the read, and how it writes JSON back are
  parameters, by instant; Unicode normalization is a parameter. The outcome beside an error is left out.
\<close>

abbreviation (input) Retention :: duration where "Retention \<equiv> 24 * Hour"

record Request =
  rq_Principal :: string
  rq_Key :: string
  rq_Operation :: string
  rq_Target :: string
  rq_Body :: string

definition ValidKey :: "string \<Rightarrow> bool" where
  "ValidKey k \<longleftrightarrow> 1 \<le> length k \<and> length k \<le> 255 \<and> list_all (\<lambda>c. 0x21 \<le> (of_char c :: nat) \<and> of_char c \<le> (0x7e :: nat)) k"

definition request_value :: "(string \<Rightarrow> string) \<Rightarrow> Request \<Rightarrow> any_value" where
  "request_value Text r =
     Obj [(''principal'', Str (Text (rq_Principal r))), (''operation'', Str (Text (rq_Operation r))),
          (''target'', Str (Text (rq_Target r))), (''body_sha256'', Str (hex_of (Sum256 (rq_Body r))))]"

definition Fingerprint :: "(string \<Rightarrow> string) \<Rightarrow> Request \<Rightarrow> canon_error + string" where
  "Fingerprint Text r = Digest ''be.idempotency.request'' 1 (request_value Text r)"

definition keyError :: "string \<Rightarrow> go_error" where
  "keyError key =
     (let reason = (if key \<noteq> [] then ''must be 1-255 visible ASCII characters'' else ''is missing'')
      in Proto (WithViolations [\<lparr>v_Field = ''Idempotency-Key'', v_Reason = ''INVALID'', v_Description = reason\<rparr>]
           (New ReasonRequestInvalid (''the Idempotency-Key header '' @ reason))))"

text \<open>The request of a command: what the surface gives (subject or caller, body or its error) are arguments.\<close>

definition FromHTTP :: "string \<Rightarrow> string option \<Rightarrow> string \<Rightarrow> go_error + string \<Rightarrow> string \<Rightarrow> string \<Rightarrow> go_error + Request" where
  "FromHTTP key subject operation body meth uri =
     (if \<not> ValidKey key then Inl (keyError key)
      else case subject of
        None \<Rightarrow> Inl (Proto (Wrap (Some (OtherError ''idempotency keys need an authenticated route'')) (New ReasonInternal [])))
      | Some p \<Rightarrow>
          (case body of
             Inl e \<Rightarrow> Inl e
           | Inr b \<Rightarrow> Inr \<lparr>rq_Principal = p, rq_Key = key, rq_Operation = operation, rq_Target = meth @ '' '' @ uri, rq_Body = b\<rparr>))"

definition FromGRPC :: "string list \<Rightarrow> string option \<Rightarrow> string \<Rightarrow> string \<Rightarrow> go_error + string \<Rightarrow> go_error + Request" where
  "FromGRPC keys caller meth operation message =
     (let key = (case keys of [] \<Rightarrow> [] | k # _ \<Rightarrow> k)
      in if \<not> ValidKey key then Inl (keyError key)
         else case caller of
           None \<Rightarrow> Inl (Proto (Wrap (Some (OtherError ''idempotency keys need a system-surface call'')) (New ReasonInternal [])))
         | Some c \<Rightarrow>
             if meth = [] then Inl (Proto (Wrap (Some (OtherError ''idempotency keys need a system-surface call'')) (New ReasonInternal [])))
             else case message of
               Inl e \<Rightarrow> Inl e
             | Inr b \<Rightarrow> Inr \<lparr>rq_Principal = c, rq_Key = key, rq_Operation = operation, rq_Target = meth, rq_Body = b\<rparr>)"

record Outcome =
  oc_Status :: int
  oc_Result :: "string option"

section \<open>The table\<close>

record idem_row =
  ir_fingerprint :: string
  ir_operation :: string
  ir_status :: int
  ir_result :: "string option"
  ir_created_at :: instant
  ir_expires_at :: instant

record 'c idem_db =
  be_idempotency :: "((string \<times> string) \<times> idem_row) list"
  idem_now :: instant
  idem_component :: 'c

record idem_env =
  ie_insert :: "instant \<Rightarrow> go_error option"
  ie_removed :: "instant \<Rightarrow> bool"
  ie_jsonb :: "string \<Rightarrow> go_error + string"
  ie_PgCode :: "go_error \<Rightarrow> string option"
  ie_Text :: "string \<Rightarrow> string"

abbreviation (input) key_of :: "Request \<Rightarrow> string \<times> string" where "key_of r \<equiv> (rq_Principal r, rq_Key r)"

text \<open>The claim: whether the key was free or its record expired, and the table with the claim.\<close>

definition claim_key :: "Request \<Rightarrow> string \<Rightarrow> 'c idem_db \<Rightarrow> bool \<times> 'c idem_db" where
  "claim_key r fp db =
     (let row = \<lparr>ir_fingerprint = fp, ir_operation = rq_Operation r, ir_status = 0, ir_result = None, ir_created_at = idem_now db,
                 ir_expires_at = idem_now db + Retention\<rparr>
      in case map_of (be_idempotency db) (key_of r) of
           Some x \<Rightarrow> if ir_expires_at x \<le> idem_now db then (True, db\<lparr>be_idempotency := AList.update (key_of r) row (be_idempotency db)\<rparr>)
                     else (False, db)
         | None \<Rightarrow> (True, db\<lparr>be_idempotency := AList.update (key_of r) row (be_idempotency db)\<rparr>))"

definition stored :: "idem_env \<Rightarrow> Request \<Rightarrow> string \<Rightarrow> 'c idem_db \<Rightarrow> go_error + Outcome" where
  "stored env r fp db =
     (case (if ie_removed env (idem_now db) then None else map_of (be_idempotency db) (key_of r)) of
        None \<Rightarrow> Inl (Proto (New ReasonIdempotencyInProgress ''the key's earlier use is being removed; retry''))
      | Some x \<Rightarrow>
          if ir_fingerprint x \<noteq> fp
          then Inl (Proto (New ReasonIdempotencyKeyReused ''this idempotency key was used for a different request''))
          else Inr \<lparr>oc_Status = ir_status x, oc_Result = ir_result x\<rparr>)"

text \<open>Storing the outcome of the command.\<close>

definition store_outcome :: "idem_env \<Rightarrow> Request \<Rightarrow> Outcome \<Rightarrow> 'c idem_db \<Rightarrow> go_error + 'c idem_db" where
  "store_outcome env r out db =
     (case (case oc_Result out of None \<Rightarrow> Inr None | Some t \<Rightarrow> (case ie_jsonb env t of Inl e \<Rightarrow> Inl e | Inr u \<Rightarrow> Inr (Some u))) of
        Inl e \<Rightarrow> Inl e
      | Inr result \<Rightarrow>
          Inr (db\<lparr>be_idempotency := AList.map_entry (key_of r) (\<lambda>x. x\<lparr>ir_status := oc_Status out, ir_result := result\<rparr>) (be_idempotency db)\<rparr>))"

definition do_body ::
  "idem_env \<Rightarrow> Request \<Rightarrow> string \<Rightarrow> (Outcome, 'c, 'h, 'r) body \<Rightarrow> (Outcome \<times> bool, 'c idem_db, 'h, 'r) body" where
  "do_body env r fp fn db =
     (case ie_insert env (idem_now db) of
        Some e \<Rightarrow>
          (Inl (if ie_PgCode env e = Some ''55P03''
                then Proto (New ReasonIdempotencyInProgress ''the first request with this key has not finished'') else e), [], [])
      | None \<Rightarrow>
          (case claim_key r fp db of
             (False, db1) \<Rightarrow> (case stored env r fp db1 of Inl e \<Rightarrow> (Inl e, [], []) | Inr out \<Rightarrow> (Inr ((out, True), db1), [], []))
           | (True, db1) \<Rightarrow>
               (case fn (idem_component db1) of
                  (Inl e, after, rolled) \<Rightarrow> (Inl e, after, rolled)
                | (Inr (out, c), after, rolled) \<Rightarrow>
                    (let out' = (if oc_Status out = 0 then out\<lparr>oc_Status := 200\<rparr> else out)
                     in case store_outcome env r out' (db1\<lparr>idem_component := c\<rparr>) of
                          Inl e \<Rightarrow> (Inl e, after, rolled)
                        | Inr db2 \<Rightarrow> (Inr ((out', False), db2), after, rolled)))))"

definition Do ::
  "idem_env \<Rightarrow> 'c idem_db server \<Rightarrow> Request \<Rightarrow> (Outcome, 'c, 'h, 'r) body \<Rightarrow> 'c idem_db
     \<Rightarrow> (go_error + Outcome \<times> bool) \<times> 'c idem_db \<times> 'h list \<times> 'r list" where
  "Do env s r fn db =
     (case Fingerprint (ie_Text env) r of
        Inl (Refused m) \<Rightarrow> (Inl (OtherError m), db, [], [])
      | Inr fp \<Rightarrow> Transactions.run s True (do_body env r fp fn) db)"

text \<open>One batch of the cleanup, and the cleanup alone.\<close>

definition cleanup_batch :: "(string \<times> string \<Rightarrow> bool) \<Rightarrow> 'c idem_db \<Rightarrow> nat \<times> 'c idem_db" where
  "cleanup_batch locked db =
     (case delete_some (\<lambda>(k, x). ir_expires_at x < idem_now db \<and> \<not> locked k) (be_idempotency db) of
        (n, rows) \<Rightarrow> (n, db\<lparr>be_idempotency := rows\<rparr>))"

definition Cleanup :: "(nat \<Rightarrow> string \<times> string \<Rightarrow> bool) \<Rightarrow> (nat \<Rightarrow> instant) \<Rightarrow> 'c idem_db \<Rightarrow> nat \<times> 'c idem_db" where
  "Cleanup locked clock db =
     (case DeleteInBatches (\<lambda>n (k, x). ir_expires_at x < clock n \<and> \<not> locked n k) 0 0 (be_idempotency db) of
        (n, rows) \<Rightarrow> (n, db\<lparr>be_idempotency := rows\<rparr>))"

end
