(* ===== verification/Idem_Correct.thy ===== *)
theory Idem_Correct
  imports Idem
begin

text \<open>
  A command runs once per key. Other requests, the cleanup, the component's own transactions and the
  passing of time are a step relation on the tables; the record of a key stays as it was stored until
  it expires, and a repeated request answers from it whatever the server does.
\<close>

section \<open>The record of a key\<close>

text \<open>Every request has a fingerprint: it holds text only.\<close>

lemma first_error_none: "\<forall>x\<in>set xs. \<exists>y. x = Inr y \<Longrightarrow> \<exists>ys. first_error xs = Inr ys"
  by (induction xs rule: first_error.induct) auto

lemma Fingerprint_total: "\<exists>fp. Fingerprint Text r = Inr fp"
proof -
  obtain kvs where kvs: "request_value Text r = Obj kvs" "\<forall>(k, v)\<in>set kvs. \<exists>t. v = Str t"
    by (simp add: request_value_def)
  have "\<forall>x\<in>set (map (\<lambda>(k, v). encode_member k (Encode v)) (sort_key fst kvs)). \<exists>y. x = Inr y"
    using kvs(2) by (auto simp: encode_member_def)
  from first_error_none [OF this] show ?thesis
    by (auto simp: Fingerprint_def Digest_def kvs(1))
qed

text \<open>What others do to the tables before an instant; their hooks do not matter.\<close>

inductive idem_step :: "instant \<Rightarrow> 'c idem_db \<Rightarrow> 'c idem_db \<Rightarrow> bool" for until where
  command: "do_body env r fp fn db = (Inr (res, db'), after :: unit list, rolled :: unit list) \<Longrightarrow> idem_step until db db'"
| cleanup: "cleanup_batch locked db = (n, db') \<Longrightarrow> idem_step until db db'"
| component: "idem_step until db (db\<lparr>idem_component := c\<rparr>)"
| time: "idem_now db \<le> t \<Longrightarrow> t < until \<Longrightarrow> idem_step until db (db\<lparr>idem_now := t\<rparr>)"

definition idem_ok :: "'c idem_db \<Rightarrow> bool" where
  "idem_ok db \<longleftrightarrow> distinct (map fst (be_idempotency db))"

definition kept_row :: "instant \<Rightarrow> string \<times> string \<Rightarrow> idem_row \<Rightarrow> 'c idem_db \<Rightarrow> bool" where
  "kept_row until k x db \<longleftrightarrow>
     idem_ok db \<and> idem_now db < until \<and> until \<le> ir_expires_at x \<and> map_of (be_idempotency db) k = Some x"

lemma store_outcome_Inr:
  assumes "store_outcome env r out db = Inr db'"
  obtains result where "be_idempotency db' = AList.map_entry (key_of r) (\<lambda>x. x\<lparr>ir_status := oc_Status out, ir_result := result\<rparr>) (be_idempotency db)"
    "idem_now db' = idem_now db" "idem_component db' = idem_component db"
    "oc_Result out = None \<and> result = None \<or> (\<exists>t u. oc_Result out = Some t \<and> ie_jsonb env t = Inr u \<and> result = Some u)"
  using assms by (auto simp: store_outcome_def split: option.splits sum.splits)

text \<open>A command that commits either runs on a claimed key and stores its outcome, or changes nothing.\<close>

lemma do_body_Inr:
  assumes "do_body env r fp fn db = (Inr ((out, replayed), db'), after, rolled)"
  obtains "replayed" "db' = db" "stored env r fp db = Inr out" "after = []"
  | result row where "\<not> replayed" "row = \<lparr>ir_fingerprint = fp, ir_operation = rq_Operation r, ir_status = oc_Status out, ir_result = result,
       ir_created_at = idem_now db, ir_expires_at = idem_now db + Retention\<rparr>"
     "be_idempotency db' = AList.update (key_of r) row (be_idempotency db)" "idem_now db' = idem_now db"
     "oc_Result out = None \<and> result = None \<or> (\<exists>t u. oc_Result out = Some t \<and> ie_jsonb env t = Inr u \<and> result = Some u)"
     "\<And>x. map_of (be_idempotency db) (key_of r) = Some x \<Longrightarrow> ir_expires_at x \<le> idem_now db"
proof (cases "claim_key r fp db")
  case (Pair free db1)
  show ?thesis
  proof (cases free)
    case False
    then show ?thesis
      using assms Pair that(1) by (auto simp: do_body_def claim_key_def Let_def split: option.splits sum.splits if_splits)
  next
    case True
    let ?claimed = "\<lparr>ir_fingerprint = fp, ir_operation = rq_Operation r, ir_status = 0, ir_result = None, ir_created_at = idem_now db,
       ir_expires_at = idem_now db + Retention\<rparr>"
    have db1: "db1 = db\<lparr>be_idempotency := AList.update (key_of r) ?claimed (be_idempotency db)\<rparr>"
      and exp: "\<And>x. map_of (be_idempotency db) (key_of r) = Some x \<Longrightarrow> ir_expires_at x \<le> idem_now db"
      using Pair True by (auto simp: claim_key_def Let_def split: option.splits if_splits)
    obtain c where "store_outcome env r out (db1\<lparr>idem_component := c\<rparr>) = Inr db'" "\<not> replayed"
      using assms Pair True by (auto simp: do_body_def Let_def split: option.splits sum.splits if_splits prod.splits)
    then show ?thesis
    proof (elim store_outcome_Inr)
      fix result
      assume res: "be_idempotency db' = AList.map_entry (key_of r) (\<lambda>x. x\<lparr>ir_status := oc_Status out, ir_result := result\<rparr>) (be_idempotency (db1\<lparr>idem_component := c\<rparr>))"
        "idem_now db' = idem_now (db1\<lparr>idem_component := c\<rparr>)"
        "oc_Result out = None \<and> result = None \<or> (\<exists>t u. oc_Result out = Some t \<and> ie_jsonb env t = Inr u \<and> result = Some u)" "\<not> replayed"
      have "AList.map_entry k f (AList.update k v xs) = AList.update k (f v) xs" for k f v and xs :: "((string \<times> string) \<times> idem_row) list"
        by (induction xs) auto
      then show ?thesis
        using res exp db1 by (intro that(2) [of "?claimed\<lparr>ir_status := oc_Status out, ir_result := result\<rparr>" result]) auto
    qed
  qed
qed

lemma idem_step_keeps:
  assumes "idem_step until db db'" "kept_row until k x db"
  shows "kept_row until k x db'"
  using assms(1)
proof cases
  case (command env r fp fn res after rolled)
  obtain out replayed where res: "res = (out, replayed)" by force
  from command [unfolded res] show ?thesis
  proof (cases rule: do_body_Inr)
    case 1
    with assms(2) show ?thesis by simp
  next
    case (2 result row)
    then have "key_of r \<noteq> k"
      using assms(2) by (auto simp: kept_row_def)
    with 2 assms(2) show ?thesis
      by (simp add: kept_row_def idem_ok_def update_conv' distinct_update)
  qed
next
  case (cleanup locked n)
  let ?sel = "\<lambda>(k, x). ir_expires_at x < idem_now db \<and> \<not> locked k"
  obtain rows where del: "delete_some ?sel (be_idempotency db) = (n, rows)" and db': "db' = db\<lparr>be_idempotency := rows\<rparr>"
    using cleanup by (auto simp: cleanup_batch_def split: prod.splits)
  have d: "distinct (map fst (be_idempotency db))"
    using assms(2) by (simp add: kept_row_def idem_ok_def)
  have x: "map_of (be_idempotency db) k = Some x" "\<not> ?sel (k, x)"
    using assms(2) by (simp_all add: kept_row_def)
  show ?thesis
    using delete_some_rows(1) [OF del d] delete_some_rows(3) [OF del d x] assms(2) by (simp add: kept_row_def idem_ok_def db')
qed (use assms(2) in \<open>auto simp: kept_row_def idem_ok_def\<close>)

lemma idem_path_keeps:
  assumes "(idem_step until)\<^sup>*\<^sup>* db db'" "kept_row until k x db"
  shows "kept_row until k x db'"
  using assms by (induction rule: rtranclp_induct) (auto intro: idem_step_keeps)

lemma others_keep:
  assumes "\<And>n d. (idem_step until)\<^sup>*\<^sup>* d (sv_others s n d)" "kept_row until k x db"
  shows "kept_row until k x (others_until s n m db)"
  using assms(2) by (induction m arbitrary: n db) (auto intro: idem_path_keeps [OF assms(1)])

text \<open>A request under a key whose record stands.\<close>

lemma do_body_again:
  assumes "kept_row until (key_of r) x db"
  shows "do_body env r fp fn db = (res, after, rolled) \<Longrightarrow>
    after = [] \<and> (case res of Inl _ \<Rightarrow> True | Inr (o', db') \<Rightarrow> db' = db \<and> o' = (\<lparr>oc_Status = ir_status x, oc_Result = ir_result x\<rparr>, True) \<and> ir_fingerprint x = fp)"
    and "ie_insert env (idem_now db) = None \<Longrightarrow> \<not> ie_removed env (idem_now db) \<Longrightarrow>
    do_body env r fp fn db =
      (if ir_fingerprint x = fp then Inr ((\<lparr>oc_Status = ir_status x, oc_Result = ir_result x\<rparr>, True), db)
       else Inl (Proto (New ''IDEMPOTENCY_KEY_REUSED'' ''this idempotency key was used for a different request'')), [], [])"
proof -
  have c: "claim_key r fp db = (False, db)"
    using assms by (auto simp: kept_row_def claim_key_def)
  have x: "map_of (be_idempotency db) (key_of r) = Some x"
    using assms by (simp add: kept_row_def)
  show "do_body env r fp fn db = (res, after, rolled) \<Longrightarrow>
    after = [] \<and> (case res of Inl _ \<Rightarrow> True | Inr (o', db') \<Rightarrow> db' = db \<and> o' = (\<lparr>oc_Status = ir_status x, oc_Result = ir_result x\<rparr>, True) \<and> ir_fingerprint x = fp)"
    using x by (auto simp: do_body_def c stored_def split: option.splits if_splits)
  show "ie_insert env (idem_now db) = None \<Longrightarrow> \<not> ie_removed env (idem_now db) \<Longrightarrow>
    do_body env r fp fn db =
      (if ir_fingerprint x = fp then Inr ((\<lparr>oc_Status = ir_status x, oc_Result = ir_result x\<rparr>, True), db)
       else Inl (Proto (New ''IDEMPOTENCY_KEY_REUSED'' ''this idempotency key was used for a different request'')), [], [])"
    using x by (simp add: do_body_def c stored_def)
qed

section \<open>Once per key\<close>

text \<open>A server that answers: only the body can fail, and a protocol error carries no server code.\<close>

definition answers :: "'d server \<Rightarrow> bool" where
  "answers s \<longleftrightarrow> \<not> sv_InTx s \<and> sv_budget s = Free \<and> (\<forall>n. sv_Acquire s n = None \<and> sv_BeginTx s n = None \<and> sv_settings s n = None \<and> sv_Commit s n = None) \<and>
     sv_cutoff s = None \<and> (\<forall>e. sv_PgCode s (Proto e) = None)"

lemma run_answers:
  assumes "answers s" "fn (sv_others s 1 db) = (res, [], [])" "\<And>e. res = Inl e \<Longrightarrow> as_Error e \<noteq> None \<and> \<not> retryable s e"
  shows "fst (Transactions.run s True fn db) = (case res of Inl e \<Rightarrow> Inl e | Inr (a, _) \<Rightarrow> Inr a)"
proof -
  have "once s fn 1 db = (case res of Inl e \<Rightarrow> (Inl e, sv_others s 1 db, [], []) | Inr (a, d) \<Rightarrow> (Inr a, d, [], []))"
    using assms(1,2) by (auto simp: once_def check_cutoff_def Let_def answers_def split: sum.splits)
  then have "tx_attempts maxAttempts s fn 1 db = (case res of Inl e \<Rightarrow> (Inl e, sv_others s 1 db, [], []) | Inr (a, d) \<Rightarrow> (Inr a, d, [], []))"
    using assms(3) by (auto simp: numeral_3_eq_3 split: sum.splits)
  with assms show ?thesis
    by (auto simp: run_def acquire_def answers_def mapError_def split: sum.splits)
qed

text \<open>The first use leaves the record of its outcome.\<close>

lemma Do_first:
  assumes "Do env s r fn db = (Inr (out, False), db1, h, rb)"
    and "\<forall>n e. sv_Commit s n = Some e \<and> retryable s e \<longrightarrow> \<not> sv_took_effect s n"
  obtains fp result x where "Fingerprint (ie_Text env) r = Inr fp" "map_of (be_idempotency db1) (key_of r) = Some x"
    "ir_fingerprint x = fp" "ir_status x = oc_Status out" "ir_result x = result" "ir_expires_at x = idem_now db1 + Retention"
    "oc_Result out = None \<and> result = None \<or> (\<exists>t u. oc_Result out = Some t \<and> ie_jsonb env t = Inr u \<and> result = Some u)"
proof -
  obtain fp where Inr: "Fingerprint (ie_Text env) r = Inr fp"
    using Fingerprint_total by blast
  then have "Transactions.run s True (do_body env r fp fn) db = (Inr (out, False), db1, h, rb)"
    using assms(1) by (simp add: Do_def)
  from run_once_or_not [OF this assms(2)] obtain d rb' where "do_body env r fp fn d = (Inr ((out, False), db1), h, rb')"
    by auto
  then show ?thesis
  proof (cases rule: do_body_Inr)
    case (2 result row)
    then show ?thesis
      by (intro that [OF Inr, of row result]) (simp_all add: update_conv')
  qed simp
qed

text \<open>A later use of the key, on tables that keep the record.\<close>

lemma Do_again:
  assumes kept: "\<And>n m. kept_row until (key_of r) x (others_until s n m db)"
    and run: "Do env s r fn db = (res, db', h, rb)" "\<forall>n e. sv_Commit s n = Some e \<and> retryable s e \<longrightarrow> \<not> sv_took_effect s n"
  shows "(\<exists>k \<le> 3. db' = others_until s 1 k db) \<and> h = [] \<and>
     (case res of Inl _ \<Rightarrow> True
      | Inr a \<Rightarrow> a = (\<lparr>oc_Status = ir_status x, oc_Result = ir_result x\<rparr>, True) \<and> Fingerprint (ie_Text env) r = Inr (ir_fingerprint x))"
proof -
  obtain fp where Inr: "Fingerprint (ie_Text env) r = Inr fp"
    using Fingerprint_total by blast
  then have "Transactions.run s True (do_body env r fp fn) db = (res, db', h, rb)"
    using run(1) by (simp add: Do_def)
  from run_once_or_not [OF this run(2)] obtain k where k: "k \<le> 3" "case res of
      Inr a \<Rightarrow> (\<exists>r'. do_body env r fp fn (others_until s 1 k db) = (Inr (a, db'), h, r')) \<and> rb = [] \<and> check_cutoff s k = None
    | Inl e \<Rightarrow> h = [] \<and> (db' = others_until s 1 k db \<or>
         sv_took_effect s k \<and> sv_Commit s k \<noteq> None \<and> (\<exists>a h r'. do_body env r fp fn (others_until s 1 k db) = (Inr (a, db'), h, r')))"
    by blast
  note again = do_body_again(1) [OF kept [of 1 k], of env fp fn]
  show ?thesis
  proof (cases res)
    case res: (Inl e)
    then have "h = []" "db' = others_until s 1 k db"
      using k(2) again by fastforce+
    then show ?thesis using k(1) res by auto
  next
    case res: (Inr a)
    then obtain r' where "do_body env r fp fn (others_until s 1 k db) = (Inr (a, db'), h, r')"
      using k(2) by auto
    from again [OF this] show ?thesis using k(1) res Inr by auto
  qed
qed

lemma Do_answers:
  assumes kept: "kept_row until (key_of r) x (sv_others s 1 db)"
    and ok: "answers s" "\<forall>t. ie_insert env t = None \<and> \<not> ie_removed env t"
    and run: "Do env s r fn db = (res, db', h, rb)"
  shows "if Fingerprint (ie_Text env) r = Inr (ir_fingerprint x) then res = Inr (\<lparr>oc_Status = ir_status x, oc_Result = ir_result x\<rparr>, True)
    else res = Inl (Proto (New ''IDEMPOTENCY_KEY_REUSED'' ''this idempotency key was used for a different request''))"
proof -
  obtain fp where Inr: "Fingerprint (ie_Text env) r = Inr fp"
    using Fingerprint_total by blast
  then have r: "Transactions.run s True (do_body env r fp fn) db = (res, db', h, rb)"
    using run by (simp add: Do_def)
  have body: "do_body env r fp fn (sv_others s 1 db) =
      (if ir_fingerprint x = fp then Inr ((\<lparr>oc_Status = ir_status x, oc_Result = ir_result x\<rparr>, True), sv_others s 1 db)
       else Inl (Proto (New ''IDEMPOTENCY_KEY_REUSED'' ''this idempotency key was used for a different request'')), [], [])"
    using do_body_again(2) [OF kept] ok(2) by blast
  show ?thesis
  proof (cases "ir_fingerprint x = fp")
    case True
    then show ?thesis
      using run_answers [OF ok(1), of "do_body env r fp fn" db] body r Inr by simp
  next
    case False
    then show ?thesis
      using run_answers [OF ok(1), of "do_body env r fp fn" db] body r Inr ok(1) by (auto simp: answers_def retryable_def)
  qed
qed

text \<open>
  C6. A command runs once per key. After a first use of a key committed, and with whatever requests,
  cleanups and writes of others before the record expires, a request under the same principal and
  key never runs its command: the database is as the others left it and no function registered for
  after a commit runs, at most three attempts included. If it succeeds it is the same request, answered
  as a replay with the stored outcome (its result as the database writes JSON back). When the
  server answers, the same request does succeed and another one is refused as a reused key.
\<close>

theorem idem_once:
  assumes first: "Do env s r fn db = (Inr (out, False), db1, h, rb)" "idem_ok db1"
    and others: "(idem_step (idem_now db1 + 24 * Hour))\<^sup>*\<^sup>* db1 db2"
      "\<forall>n d. (idem_step (idem_now db1 + 24 * Hour))\<^sup>*\<^sup>* d (sv_others s' n d)"
    and same: "rq_Principal r' = rq_Principal r" "rq_Key r' = rq_Key r"
    and second: "Do env s' r' fn' db2 = (res, db3, h', rb')"
    and commits: "\<forall>n e. sv_Commit s n = Some e \<and> retryable s e \<longrightarrow> \<not> sv_took_effect s n"
      "\<forall>n e. sv_Commit s' n = Some e \<and> retryable s' e \<longrightarrow> \<not> sv_took_effect s' n"
  shows "\<exists>replay. oc_Status replay = oc_Status out \<and>
     (case oc_Result out of None \<Rightarrow> oc_Result replay = None | Some t \<Rightarrow> (\<exists>u. ie_jsonb env t = Inr u \<and> oc_Result replay = Some u)) \<and>
     (\<exists>k \<le> 3. db3 = others_until s' 1 k db2) \<and> h' = [] \<and>
     (case res of Inl _ \<Rightarrow> True | Inr a \<Rightarrow> a = (replay, True) \<and> Fingerprint (ie_Text env) r' = Fingerprint (ie_Text env) r) \<and>
     (answers s' \<and> (\<forall>t. ie_insert env t = None \<and> \<not> ie_removed env t) \<longrightarrow>
        (if Fingerprint (ie_Text env) r' = Fingerprint (ie_Text env) r then res = Inr (replay, True)
         else res = Inl (Proto (New ''IDEMPOTENCY_KEY_REUSED'' ''this idempotency key was used for a different request''))))"
  using first(1) commits(1)
proof (rule Do_first)
  fix fp result x
  let ?replay = "\<lparr>oc_Status = oc_Status out, oc_Result = result\<rparr>" and ?until = "idem_now db1 + 24 * Hour"
  assume fp: "Fingerprint (ie_Text env) r = Inr fp"
    and x: "map_of (be_idempotency db1) (key_of r) = Some x" "ir_fingerprint x = fp" "ir_status x = oc_Status out" "ir_result x = result"
      "ir_expires_at x = idem_now db1 + Retention"
    and result: "oc_Result out = None \<and> result = None \<or> (\<exists>t u. oc_Result out = Some t \<and> ie_jsonb env t = Inr u \<and> result = Some u)"
  have "kept_row ?until (key_of r') x db1"
    using x same first(2) by (simp add: kept_row_def)
  then have "kept_row ?until (key_of r') x db2"
    by (rule idem_path_keeps [OF others(1)])
  then have kept: "kept_row ?until (key_of r') x (others_until s' n m db2)" for n m
    using others(2) by (intro others_keep) auto
  have first_db: "kept_row ?until (key_of r') x (sv_others s' 1 db2)"
    using kept [of 1 1] by simp
  have "(\<exists>k \<le> 3. db3 = others_until s' 1 k db2) \<and> h' = [] \<and>
     (case res of Inl _ \<Rightarrow> True | Inr a \<Rightarrow> a = (?replay, True) \<and> Fingerprint (ie_Text env) r' = Inr fp)"
    using Do_again [OF kept second commits(2)] unfolding x(2-4) .
  moreover have "if Fingerprint (ie_Text env) r' = Inr fp then res = Inr (?replay, True)
      else res = Inl (Proto (New ''IDEMPOTENCY_KEY_REUSED'' ''this idempotency key was used for a different request''))"
    if "answers s'" "\<forall>t. ie_insert env t = None \<and> \<not> ie_removed env t"
    using Do_answers [OF first_db that second] unfolding x(2-4) .
  ultimately show ?thesis
    unfolding fp using result by (intro exI [of _ ?replay]) auto
qed

text \<open>An order placed twice under one key; the second time the component would count again.\<close>

definition order_env :: idem_env where
  "order_env = \<lparr>ie_insert = (\<lambda>_. None), ie_removed = (\<lambda>_. False), ie_jsonb = Inr, ie_PgCode = (\<lambda>_. None), ie_Text = (\<lambda>t. t)\<rparr>"

definition order_server :: "nat idem_db server" where
  "order_server = \<lparr>sv_InTx = False, sv_budget = Free, sv_ctx = None, sv_Acquire = (\<lambda>_. None), sv_BeginTx = (\<lambda>_. None),
     sv_settings = (\<lambda>_. None), sv_others = (\<lambda>_ db. db), sv_cutoff = None, sv_window = (\<lambda>_. None), sv_Boot = (\<lambda>_. 0),
     sv_Commit = (\<lambda>_. None), sv_took_effect = (\<lambda>_. False), sv_PgCode = (\<lambda>_. None), sv_PgDetail = (\<lambda>_. []), sv_unreachable = (\<lambda>_. False)\<rparr>"

definition order_request :: Request where
  "order_request = \<lparr>rq_Principal = ''u1'', rq_Key = ''k1'', rq_Operation = ''orders.create'', rq_Target = ''POST /orders'', rq_Body = ''{}''\<rparr>"

definition order_body :: "(Outcome, nat, unit, unit) body" where
  "order_body n = (Inr (\<lparr>oc_Status = 201, oc_Result = Some ''7''\<rparr>, Suc n), [()], [])"

definition order_db :: "nat idem_db" where
  "order_db = \<lparr>be_idempotency = [], idem_now = 0, idem_component = 0\<rparr>"

lemma order_first:
  "\<exists>db1. Do order_env order_server order_request order_body order_db = (Inr (\<lparr>oc_Status = 201, oc_Result = Some ''7''\<rparr>, False), db1, [()], []) \<and>
     idem_ok db1 \<and> idem_now db1 = 0 \<and> idem_component db1 = 1"
proof -
  obtain fp where fp: "Fingerprint (ie_Text order_env) order_request = Inr fp"
    using Fingerprint_total by blast
  let ?row = "\<lparr>ir_fingerprint = fp, ir_operation = ''orders.create'', ir_status = 201, ir_result = Some ''7'', ir_created_at = 0, ir_expires_at = Retention\<rparr>"
  let ?db1 = "\<lparr>be_idempotency = [((''u1'', ''k1''), ?row)], idem_now = 0, idem_component = 1\<rparr> :: nat idem_db"
  have body: "do_body order_env order_request fp order_body order_db = (Inr ((\<lparr>oc_Status = 201, oc_Result = Some ''7''\<rparr>, False), ?db1), [()], [])"
    by (simp add: do_body_def order_env_def claim_key_def order_db_def order_request_def order_body_def store_outcome_def)
  have "once order_server (do_body order_env order_request fp order_body) 1 order_db = (Inr (\<lparr>oc_Status = 201, oc_Result = Some ''7''\<rparr>, False), ?db1, [()], [])"
    by (simp add: once_def check_cutoff_def order_server_def body)
  then have "tx_attempts maxAttempts order_server (do_body order_env order_request fp order_body) 1 order_db =
      (Inr (\<lparr>oc_Status = 201, oc_Result = Some ''7''\<rparr>, False), ?db1, [()], [])"
    by (simp add: numeral_3_eq_3)
  then have "Do order_env order_server order_request order_body order_db = (Inr (\<lparr>oc_Status = 201, oc_Result = Some ''7''\<rparr>, False), ?db1, [()], [])"
    by (simp add: Do_def fp run_def acquire_def order_server_def)
  then show ?thesis by (intro exI [of _ ?db1]) (simp add: idem_ok_def)
qed

theorem idem_once_witness:
  "\<exists>db1. Do order_env order_server order_request order_body order_db = (Inr (\<lparr>oc_Status = 201, oc_Result = Some ''7''\<rparr>, False), db1, [()], []) \<and>
     idem_component db1 = 1 \<and>
     (\<exists>rb. Do order_env order_server order_request order_body db1 = (Inr (\<lparr>oc_Status = 201, oc_Result = Some ''7''\<rparr>, True), db1, [], rb))"
proof -
  obtain db1 where db1: "Do order_env order_server order_request order_body order_db = (Inr (\<lparr>oc_Status = 201, oc_Result = Some ''7''\<rparr>, False), db1, [()], [])"
    "idem_ok db1" "idem_now db1 = 0" "idem_component db1 = 1"
    using order_first by blast
  obtain res db3 h rb where second: "Do order_env order_server order_request order_body db1 = (res, db3, h, rb)"
    by (metis prod_cases4)
  have others: "sv_others order_server n d = d" "others_until order_server m n d = d" for n m d
    by (simp_all add: order_server_def) (induction n arbitrary: m, simp_all)
  have ok: "answers order_server" "\<forall>t. ie_insert order_env t = None \<and> \<not> ie_removed order_env t" "\<forall>n e. sv_Commit order_server n = Some e \<and> retryable order_server e \<longrightarrow> \<not> sv_took_effect order_server n"
    by (simp_all add: answers_def order_server_def order_env_def)
  have "(idem_step (idem_now db1 + 24 * Hour))\<^sup>*\<^sup>* db1 db1" "\<forall>n d. (idem_step (idem_now db1 + 24 * Hour))\<^sup>*\<^sup>* d (sv_others order_server n d)"
    by (simp_all add: others)
  from idem_once [OF db1(1,2) this refl refl second ok(3,3)] ok(1,2)
  have "db3 = db1" "h = []" "res = Inr (\<lparr>oc_Status = 201, oc_Result = Some ''7''\<rparr>, True)"
    by (auto simp: others order_env_def intro: Outcome.equality)
  with db1 second show ?thesis by auto
qed

end
