(* ===== verification/Cron.thy ===== *)
theory Cron
  imports SDK_Prelude
begin

text \<open>
  Cron schedules (\<open>work/cron.go\<close>): parsing, the slots of an interval, the next slot and the plan of
  the slots to materialize. An instant counts nanoseconds since 1 January 1970 UTC. A time zone is
  the function that gives an instant's wall clock; a local day is its day number, because the loop
  over days goes from noon to noon, so a zone that skips a whole day is left out. What the package uses of Go's calendar is written out.
\<close>

section \<open>The calendar\<close>

record wall =
  w_y :: int
  w_mo :: int
  w_d :: int
  w_h :: int
  w_mi :: int

type_synonym location = "instant \<Rightarrow> wall"

definition days_from_civil :: "int \<Rightarrow> int \<Rightarrow> int \<Rightarrow> int" where
  "days_from_civil y m d =
     (let y' = (if m \<le> 2 then y - 1 else y); yoe = y' mod 400; mp = (if m > 2 then m - 3 else m + 9);
          doy = (153 * mp + 2) div 5 + d - 1
      in y' div 400 * 146097 + yoe * 365 + yoe div 4 - yoe div 100 + doy - 719468)"

definition civil_from_days :: "int \<Rightarrow> int \<times> int \<times> int" where
  "civil_from_days n =
     (let z = n + 719468; doe = z mod 146097; yoe = (doe - doe div 1460 + doe div 36524 - doe div 146096) div 365;
          doy = doe - (365 * yoe + yoe div 4 - yoe div 100); mp = (5 * doy + 2) div 153;
          m = (if mp < 10 then mp + 3 else mp - 9)
      in (yoe + z div 146097 * 400 + (if m \<le> 2 then 1 else 0), m, doy - (153 * mp + 2) div 5 + 1))"

definition weekday :: "int \<Rightarrow> int" where
  "weekday n = (n + 4) mod 7"

definition day_seconds :: int where "day_seconds = 86400"

text \<open>The instant of a UTC wall time.\<close>

definition utc_date :: "int \<Rightarrow> int \<Rightarrow> int \<Rightarrow> int \<Rightarrow> int \<Rightarrow> instant" where
  "utc_date y mo d h mi = (days_from_civil y mo d * day_seconds + h * 3600 + mi * 60) * Second"

definition add_years :: "int \<Rightarrow> instant \<Rightarrow> instant" where
  "add_years k t =
     (let n = t div (day_seconds * Second) in case civil_from_days n of (y, m, d) \<Rightarrow>
        days_from_civil (y + k) m d * day_seconds * Second + t mod (day_seconds * Second))"

section \<open>Parsing\<close>

record Schedule =
  sc_minutes :: "int list"
  sc_hours :: "int list"
  sc_doms :: "int list"
  sc_months :: "int list"
  sc_dows :: "int list"
  sc_domRestricted :: bool
  sc_dowRestricted :: bool

record Slot =
  sl_ID :: string
  sl_At :: instant

definition is_space :: "char \<Rightarrow> bool" where
  "is_space c \<longleftrightarrow> c = CHR '' '' \<or> c \<in> {CHR 0x09, CHR 0x0A, CHR 0x0B, CHR 0x0C, CHR 0x0D}"

definition Fields_of :: "string \<Rightarrow> string list" where
  "Fields_of s = filter (\<lambda>f. f \<noteq> []) (split_on (CHR '' '') (map (\<lambda>c. if is_space c then CHR '' '' else c) s))"

definition Atoi :: "string \<Rightarrow> int option" where
  "Atoi s = (case ParseInt s of (n, None) \<Rightarrow> Some n | _ \<Rightarrow> None)"

definition span :: "int \<Rightarrow> int \<Rightarrow> int \<Rightarrow> int list" where
  "span a b st = map (\<lambda>i. a + i * st) [0..(b - a) div st]"

text \<open>The bounds of a part without its step; \<open>None\<close> when a number cannot be read.\<close>

definition part_bounds :: "string \<Rightarrow> int \<Rightarrow> int \<Rightarrow> int \<Rightarrow> (int \<times> int) option" where
  "part_bounds part st lo hi =
     (if part = ''*'' then Some (lo, hi)
      else case cut (CHR ''-'') part of
        (x, y, True) \<Rightarrow> (case (Atoi x, Atoi y) of (Some a, Some b) \<Rightarrow> Some (a, b) | _ \<Rightarrow> None)
      | (_, _, False) \<Rightarrow> (case Atoi part of Some n \<Rightarrow> Some (n, if st \<noteq> 1 then hi else n) | None \<Rightarrow> None))"

definition field_part :: "int \<Rightarrow> int \<Rightarrow> string \<Rightarrow> int list option" where
  "field_part lo hi part =
     (case (case cut (CHR ''/'') part of
              (p, n, True) \<Rightarrow> (case Atoi n of Some st \<Rightarrow> if st < 1 then None else Some (p, st) | None \<Rightarrow> None)
            | (_, _, False) \<Rightarrow> Some (part, 1)) of
        None \<Rightarrow> None
      | Some (p, st) \<Rightarrow>
          (case part_bounds p st lo hi of
             None \<Rightarrow> None
           | Some (a, b) \<Rightarrow> if a < lo \<or> b > hi \<or> a > b then None else Some (span a b st)))"

text \<open>The error texts of a field are left out: a field that cannot be parsed is \<open>None\<close>.\<close>

fun field_parts :: "int \<Rightarrow> int \<Rightarrow> string list \<Rightarrow> int list option" where
  "field_parts lo hi [] = Some []"
| "field_parts lo hi (p # ps) =
     (case field_part lo hi p of
        None \<Rightarrow> None
      | Some vs \<Rightarrow> (case field_parts lo hi ps of None \<Rightarrow> None | Some ws \<Rightarrow> Some (vs @ ws)))"

definition cron_field :: "string \<Rightarrow> int \<Rightarrow> int \<Rightarrow> int list option" where
  "cron_field spec lo hi = field_parts lo hi (split_on (CHR '','') spec)"

definition ParseCron :: "string \<Rightarrow> Schedule option" where
  "ParseCron expr =
     (case Fields_of expr of
        [f0, f1, f2, f3, f4] \<Rightarrow>
          (case (cron_field f0 0 59, cron_field f1 0 23, cron_field f2 1 31, cron_field f3 1 12, cron_field f4 0 7) of
             (Some mi, Some h, Some d, Some mo, Some w) \<Rightarrow>
               Some \<lparr>sc_minutes = mi, sc_hours = h, sc_doms = d, sc_months = mo, sc_dows = map (\<lambda>x. x mod 7) w,
                     sc_domRestricted = (f2 \<noteq> ''*''), sc_dowRestricted = (f4 \<noteq> ''*'')\<rparr>
           | _ \<Rightarrow> None)
      | _ \<Rightarrow> None)"

section \<open>Slots\<close>

definition keys :: "int list \<Rightarrow> int list" where
  "keys m = sort (remdups m)"

definition wall_less :: "wall \<Rightarrow> wall \<Rightarrow> bool" where
  "wall_less w o' =
     (if w_y w \<noteq> w_y o' then w_y w < w_y o' else if w_mo w \<noteq> w_mo o' then w_mo w < w_mo o'
      else if w_d w \<noteq> w_d o' then w_d w < w_d o' else if w_h w \<noteq> w_h o' then w_h w < w_h o' else w_mi w < w_mi o')"

text \<open>The search for the first instant after a gap, in whole seconds.\<close>

function bisect :: "(int \<Rightarrow> bool) \<Rightarrow> int \<Rightarrow> int \<Rightarrow> int" where
  "bisect early lo hi =
     (if hi - lo > 1
      then let mid = lo + (hi - lo) div 2 in if early mid then bisect early mid hi else bisect early lo mid
      else hi)"
  by pat_completeness auto
termination
  by (relation "measure (\<lambda>(_, lo, hi). nat (hi - lo))") auto

definition offsets :: "int list" where
  "offsets = map (\<lambda>k. k * 900) [-60..60]"

definition wallInstant :: "location \<Rightarrow> int \<Rightarrow> int \<Rightarrow> int \<Rightarrow> int \<Rightarrow> int \<Rightarrow> instant" where
  "wallInstant loc y mo d h mi =
     (let want = \<lparr>w_y = y, w_mo = mo, w_d = d, w_h = h, w_mi = mi\<rparr>; naive = utc_date y mo d h mi;
          found = filter (\<lambda>t. loc t = want) (map (\<lambda>off. naive - off * Second) offsets)
      in if found \<noteq> [] then fold min (tl found) (hd found)
         else bisect (\<lambda>s. wall_less (loc (s * Second)) want) (naive div Second - 54000) (naive div Second + 54000) * Second)"

definition pad_nat :: "nat \<Rightarrow> nat \<Rightarrow> string" where
  "pad_nat w n = replicate (w - length (format_nat n)) (CHR ''0'') @ format_nat n"

definition pad :: "nat \<Rightarrow> int \<Rightarrow> string" where
  "pad w n = (if n < 0 then CHR ''-'' # pad_nat (w - 1) (nat (- n)) else pad_nat w (nat n))"

definition slot_id :: "int \<Rightarrow> int \<Rightarrow> int \<Rightarrow> int \<Rightarrow> int \<Rightarrow> string" where
  "slot_id y mo d h mi = pad 4 y @ ''-'' @ pad 2 mo @ ''-'' @ pad 2 d @ ''T'' @ pad 2 h @ '':'' @ pad 2 mi"

definition day_ok :: "Schedule \<Rightarrow> int \<Rightarrow> bool" where
  "day_ok s n =
     (case civil_from_days n of (_, mo, d) \<Rightarrow>
        mo \<in> set (sc_months s) \<and>
        (if sc_domRestricted s \<and> sc_dowRestricted s
         then d \<in> set (sc_doms s) \<or> weekday n \<in> set (sc_dows s)
         else d \<in> set (sc_doms s) \<and> weekday n \<in> set (sc_dows s)))"

definition day_slots :: "Schedule \<Rightarrow> location \<Rightarrow> instant \<Rightarrow> instant \<Rightarrow> int \<Rightarrow> Slot list" where
  "day_slots s loc after until n =
     (case civil_from_days n of (y, mo, d) \<Rightarrow>
        filter (\<lambda>sl. after < sl_At sl \<and> sl_At sl \<le> until)
          (concat (map (\<lambda>h. map (\<lambda>mi. \<lparr>sl_ID = slot_id y mo d h mi, sl_At = wallInstant loc y mo d h mi\<rparr>) (keys (sc_minutes s)))
                       (keys (sc_hours s)))))"

definition local_day :: "location \<Rightarrow> instant \<Rightarrow> int" where
  "local_day loc t = days_from_civil (w_y (loc t)) (w_mo (loc t)) (w_d (loc t))"

definition Slots :: "Schedule \<Rightarrow> location \<Rightarrow> instant \<Rightarrow> instant \<Rightarrow> Slot list" where
  "Slots s loc after until =
     sort_key sl_At (concat (map (day_slots s loc after until)
       (filter (day_ok s) [local_day loc after - 1..local_day loc until + 1])))"

text \<open>The search for the next slot looks at one day after the other.\<close>

function next_from :: "Schedule \<Rightarrow> location \<Rightarrow> instant \<Rightarrow> instant \<Rightarrow> Slot option" where
  "next_from s loc from' end' =
     (if from' < end'
      then (case Slots s loc from' (from' + 24 * Hour) of
              sl # _ \<Rightarrow> Some sl
            | [] \<Rightarrow> next_from s loc (from' + 24 * Hour) end')
      else None)"
  by pat_completeness auto
termination
  by (relation "measure (\<lambda>(_, _, from', end'). nat (end' - from'))") auto

declare next_from.simps [simp del] bisect.simps [simp del]

definition Next :: "Schedule \<Rightarrow> location \<Rightarrow> instant \<Rightarrow> Slot option" where
  "Next s loc after = next_from s loc after (add_years 8 after)"

abbreviation (input) Latest :: string where "Latest \<equiv> ''latest''"
abbreviation (input) BackfillAll :: string where "BackfillAll \<equiv> ''all''"
abbreviation (input) BackfillNone :: string where "BackfillNone \<equiv> ''none''"
abbreviation (input) DefaultMaxBacklog :: int where "DefaultMaxBacklog \<equiv> 24"

definition cron_Plan ::
  "Schedule \<Rightarrow> location \<Rightarrow> string \<Rightarrow> int \<Rightarrow> instant \<Rightarrow> instant \<Rightarrow> Slot list \<times> Slot list \<times> instant" where
  "cron_Plan s loc policy maxBacklog watermark now =
     (let due = Slots s loc watermark now
      in if due = [] then ([], [], watermark)
         else let mark = sl_At (last due)
              in if policy = BackfillAll
                 then (if int (length due) > maxBacklog then (take (nat maxBacklog) due, drop (nat maxBacklog) due, mark)
                       else (due, [], mark))
                 else if policy = BackfillNone then (filter (\<lambda>sl. time_Sub now (sl_At sl) \<le> Minute) due, [], mark)
                 else ([last due], [], mark))"

section \<open>The months and days of the calendar\<close>

text \<open>The first day of the year that the quotient gives is not after the day.\<close>

lemma year_start:
  fixes doe :: int
  assumes "0 \<le> doe" "doe < 146097"
    and a: "1460 * a \<le> doe" "doe < 1460 * a + 1460"
    and b: "36524 * b \<le> doe" "doe < 36524 * b + 36524"
    and c: "146096 * c \<le> doe" "doe < 146096 * c + 146096"
    and y: "365 * yoe \<le> doe - a + b - c" "doe - a + b - c < 365 * yoe + 365"
  shows "365 * yoe + yoe div 4 - yoe div 100 \<le> doe"
proof -
  have r: "b \<le> a" "0 \<le> b" "b \<le> 4" "0 \<le> c" "c = 0 \<or> c = 1"
    using a b c assms(1,2) by linarith+
  have "yoe < 4 * a + 4"
    using y r a by linarith
  then have "yoe div 4 \<le> a"
    by linarith
  moreover have "100 * b - 100 * c \<le> yoe"
  proof (cases "a \<le> 25 * b")
    case True
    have "365 * (100 * b - yoe) < 365 + c"
      using True b y by (simp add: algebra_simps)
    with r(5) have "100 * b - yoe \<le> c" by auto
    then show ?thesis using r by linarith
  next
    case False
    then have "25 * b + 1 \<le> a" by simp
    then show ?thesis using r b y c a by linarith
  qed
  then have "b - c \<le> yoe div 100"
    by linarith
  ultimately show ?thesis using y by linarith
qed

lemma civil_positive:
  assumes "civil_from_days n = (y, m, d)"
  shows "1 \<le> m" "1 \<le> d"
proof -
  define doe where "doe = (n + 719468) mod 146097"
  define yoe where "yoe = (doe - doe div 1460 + doe div 36524 - doe div 146096) div 365"
  define doy where "doy = doe - (365 * yoe + yoe div 4 - yoe div 100)"
  define mp where "mp = (5 * doy + 2) div 153"
  have "0 \<le> doe" "doe < 146097"
    by (simp_all add: doe_def)
  then have "365 * yoe + yoe div 4 - yoe div 100 \<le> doe"
    unfolding yoe_def
    by (rule year_start [where a = "doe div 1460" and b = "doe div 36524" and c = "doe div 146096"]) linarith+
  then have "0 \<le> doy"
    by (simp add: doy_def)
  then have "0 \<le> mp" "153 * mp \<le> 5 * doy + 2"
    unfolding mp_def by linarith+
  moreover have "\<exists>x. civil_from_days n = (x, if mp < 10 then mp + 3 else mp - 9, doy - (153 * mp + 2) div 5 + 1)"
    unfolding civil_from_days_def Let_def mp_def doy_def yoe_def doe_def by (rule exI) (rule refl)
  then have "m = (if mp < 10 then mp + 3 else mp - 9)" "d = doy - (153 * mp + 2) div 5 + 1"
    using assms by auto
  ultimately show "1 \<le> m" "1 \<le> d"
    by (auto split: if_splits)
qed

section \<open>The identity of a slot\<close>

definition digits_value :: "string \<Rightarrow> nat" where
  "digits_value s = foldl (\<lambda>a c. a * 10 + digit_val c) 0 s"

lemma digits_value_format: "digits_value (format_nat n) = n"
proof (induction n rule: format_nat.induct)
  case (1 n)
  show ?case
  proof (cases "n < 10")
    case True
    then show ?thesis by (simp add: format_nat.simps [of n] digits_value_def)
  next
    case False
    with 1 have "digits_value (format_nat (n div 10)) = n div 10" by simp
    with False show ?thesis by (simp add: format_nat.simps [of n] digits_value_def)
  qed
qed

lemma digits_value_zeros: "digits_value (replicate k (CHR ''0'') @ s) = digits_value s"
proof -
  have "foldl (\<lambda>a c. a * 10 + digit_val c) 0 (replicate k (CHR ''0'')) = 0"
    by (induction k) (simp_all add: digit_val_def)
  then show ?thesis by (simp add: digits_value_def)
qed

lemma pad_nat_digits: "c \<in> set (pad_nat w n) \<Longrightarrow> is_digit c"
  by (auto simp: pad_nat_def is_digit_def dest: format_nat_digits split: if_splits)

lemma pad_nat_value: "digits_value (pad_nat w n) = n"
  by (simp add: pad_nat_def digits_value_zeros digits_value_format)

lemma pad_chars: "c \<in> set (pad w n) \<Longrightarrow> is_digit c \<or> c = CHR ''-''" "0 \<le> n \<Longrightarrow> c \<in> set (pad w n) \<Longrightarrow> is_digit c"
  by (auto simp: pad_def dest: pad_nat_digits split: if_splits)

lemma pad_inj: "pad w m = pad w n \<Longrightarrow> m = n"
proof -
  assume eq: "pad w m = pad w n"
  have nonempty: "pad_nat w k \<noteq> []" "hd (pad_nat w k) \<noteq> CHR ''-''" for w k
  proof -
    show "pad_nat w k \<noteq> []" by (simp add: pad_nat_def)
    then have "is_digit (hd (pad_nat w k))" using pad_nat_digits by (meson hd_in_set)
    then show "hd (pad_nat w k) \<noteq> CHR ''-''" by (auto simp: is_digit_def)
  qed
  then have sign: "hd (pad w k) = CHR ''-'' \<longleftrightarrow> k < 0" for w k
    by (simp add: pad_def)
  have "(m < 0) = (n < 0)"
    using sign [of w m] sign [of w n] eq by simp
  then have "pad_nat (if m < 0 then w - 1 else w) (nat \<bar>m\<bar>) = pad_nat (if m < 0 then w - 1 else w) (nat \<bar>n\<bar>)"
    using eq by (auto simp: pad_def)
  then have "nat \<bar>m\<bar> = nat \<bar>n\<bar>"
    by (metis pad_nat_value)
  with \<open>(m < 0) = (n < 0)\<close> show "m = n" by arith
qed

lemma split_unique:
  fixes c :: char
  assumes "xs @ c # ys = xs' @ c # ys'" "c \<notin> set xs" "c \<notin> set xs'"
  shows "xs = xs' \<and> ys = ys'"
proof -
  have "cut c (xs @ c # ys) = cut c (xs' @ c # ys')"
    by (rule arg_cong [OF assms(1)])
  then show ?thesis
    by (simp add: cut_append [OF assms(2)] cut_append [OF assms(3)])
qed

lemma split_unique_rev:
  fixes c :: char
  assumes "xs @ c # ys = xs' @ c # ys'" "c \<notin> set ys" "c \<notin> set ys'"
  shows "xs = xs' \<and> ys = ys'"
proof -
  have "rev (xs @ c # ys) = rev (xs' @ c # ys')"
    using assms(1) by (rule arg_cong)
  then show ?thesis
    using split_unique [of "rev ys" c "rev xs" "rev ys'" "rev xs'"] assms(2,3) by simp
qed

lemma slot_id_inj:
  assumes "slot_id y mo d h mi = slot_id y' mo' d' h' mi'" "1 \<le> mo" "1 \<le> d" "1 \<le> mo'" "1 \<le> d'"
  shows "y = y' \<and> mo = mo' \<and> d = d' \<and> h = h' \<and> mi = mi'"
proof -
  let ?date = "\<lambda>y mo d. pad 4 y @ ''-'' @ pad 2 mo @ ''-'' @ pad 2 d"
  have no: "CHR ''T'' \<notin> set (pad w n)" "CHR '':'' \<notin> set (pad w n)" "0 \<le> n \<Longrightarrow> CHR ''-'' \<notin> set (pad w n)" for w n
    using pad_chars by (fastforce simp: is_digit_def)+
  have eq: "?date y mo d @ CHR ''T'' # (pad 2 h @ CHR '':'' # pad 2 mi) = ?date y' mo' d' @ CHR ''T'' # (pad 2 h' @ CHR '':'' # pad 2 mi')"
    using assms(1) by (simp add: slot_id_def)
  from split_unique [OF eq] no have date: "?date y mo d = ?date y' mo' d'"
    and time: "pad 2 h @ CHR '':'' # pad 2 mi = pad 2 h' @ CHR '':'' # pad 2 mi'"
    by (simp_all)
  from split_unique [OF time] no have hm: "h = h'" "mi = mi'"
    by (auto dest: pad_inj)
  have "(pad 4 y @ ''-'' @ pad 2 mo) @ CHR ''-'' # pad 2 d = (pad 4 y' @ ''-'' @ pad 2 mo') @ CHR ''-'' # pad 2 d'"
    using date by simp
  from split_unique_rev [OF this] no assms(3,5) have d: "d = d'" and ym: "pad 4 y @ CHR ''-'' # pad 2 mo = pad 4 y' @ CHR ''-'' # pad 2 mo'"
    by (auto dest: pad_inj)
  from split_unique_rev [OF ym] no assms(2,4) have "mo = mo'" "y = y'"
    by (auto dest: pad_inj)
  with hm d show ?thesis by simp
qed

section \<open>What a schedule promises\<close>

text \<open>
  The work items rely on this of the slots of an interval: they lie in it, in order, and the
  identity of a slot determines its instant.
\<close>

locale slot_source =
  fixes slots :: "instant \<Rightarrow> instant \<Rightarrow> Slot list"
  assumes slots_within: "sl \<in> set (slots a u) \<Longrightarrow> a < sl_At sl \<and> sl_At sl \<le> u"
    and slots_ordered: "sorted (map sl_At (slots a u))"
    and slots_identity: "sl \<in> set (slots a u) \<Longrightarrow> sl' \<in> set (slots a' u') \<Longrightarrow> sl_ID sl = sl_ID sl' \<Longrightarrow> sl_At sl = sl_At sl'"
begin

text \<open>The last due slot is the new watermark: all due slots are at or before it.\<close>

lemma slots_last:
  assumes "sl \<in> set (slots a u)"
  shows "sl_At sl \<le> sl_At (last (slots a u))"
proof -
  obtain i where i: "i < length (slots a u)" "sl = slots a u ! i"
    using assms by (metis in_set_conv_nth)
  have ne: "slots a u \<noteq> []"
    using assms by auto
  have "map sl_At (slots a u) ! i \<le> map sl_At (slots a u) ! (length (slots a u) - 1)"
    using i by (intro sorted_nth_mono [OF slots_ordered]) auto
  then show ?thesis
    using i ne by (simp add: last_conv_nth)
qed

lemma slots_not_again:
  assumes "sl \<in> set (slots a u)" "sl' \<in> set (slots a' u')" "sl_At sl \<le> a'"
  shows "sl_ID sl \<noteq> sl_ID sl'"
  using slots_identity [OF assms(1,2)] slots_within [OF assms(2)] assms(3) by auto

end

lemma Slots_day:
  assumes "sl \<in> set (Slots s loc a u)"
  obtains y mo d h mi where "1 \<le> mo" "1 \<le> d" "sl_ID sl = slot_id y mo d h mi" "sl_At sl = wallInstant loc y mo d h mi" "a < sl_At sl" "sl_At sl \<le> u"
proof -
  obtain n where "sl \<in> set (day_slots s loc a u n)"
    using assms by (auto simp: Slots_def)
  moreover obtain y mo d where n: "civil_from_days n = (y, mo, d)"
    using prod_cases3 by blast
  ultimately show ?thesis
    using that [of mo d y] civil_positive [OF n] by (auto simp: day_slots_def n)
qed

interpretation cron_slots: slot_source "Slots s loc" for s loc
proof
  show "a < sl_At sl \<and> sl_At sl \<le> u" if "sl \<in> set (Slots s loc a u)" for sl a u
    using that by (rule Slots_day) simp
  show "sorted (map sl_At (Slots s loc a u))" for a u
    by (simp add: Slots_def)
  show "sl_At sl = sl_At sl'" if "sl \<in> set (Slots s loc a u)" "sl' \<in> set (Slots s loc a' u')" "sl_ID sl = sl_ID sl'" for sl sl' a u a' u'
    using that by (elim Slots_day) (auto dest: slot_id_inj)
qed

text \<open>The plan materializes due slots only, and none of them is due again after the new watermark.\<close>

lemma cron_Plan_due:
  assumes "cron_Plan s loc policy n wm now = (pending, paused, mark)"
  shows "set (pending @ paused) \<subseteq> set (Slots s loc wm now)" "wm \<le> mark" "\<forall>sl\<in>set (Slots s loc wm now). sl_At sl \<le> mark"
proof -
  let ?due = "Slots s loc wm now"
  have mark: "mark = (if ?due = [] then wm else sl_At (last ?due))"
    using assms by (auto simp: cron_Plan_def Let_def split: if_splits)
  show "set (pending @ paused) \<subseteq> set ?due"
    using assms by (auto simp: cron_Plan_def Let_def split: if_splits dest: in_set_takeD in_set_dropD)
  show "wm \<le> mark"
    using mark cron_slots.slots_within [of "last ?due" s loc wm now] by (auto simp: less_imp_le)
  show "\<forall>sl\<in>set ?due. sl_At sl \<le> mark"
    using mark cron_slots.slots_last [of _ s loc wm now] by auto
qed

end
