(* ===== verification/Cron_Correct.thy ===== *)
theory Cron_Correct
  imports Cron
begin

text \<open>
  The slots of a schedule are complete: the days that are searched hold every slot of the interval,
  whatever the zone does within a day, so that consecutive intervals miss nothing and the next slot is the
  first one. The calendar is first shown to count days in the order of their dates.
\<close>

section \<open>Dates in order\<close>

text \<open>Days of a 400-year era, without the leap days before them.\<close>

definition year_days :: "int \<Rightarrow> int" where
  "year_days doe = doe - doe div 1460 + doe div 36524 - doe div 146096"

lemma div_next:
  fixes k :: int
  assumes "0 < k"
  shows "(d + 1) div k = d div k + (if k dvd d + 1 then 1 else 0)"
proof (cases "k dvd d + 1")
  case True
  then obtain q where q: "d + 1 = k * q" by blast
  then have "d = k * (q - 1) + (k - 1)" by (simp add: algebra_simps)
  then have "d div k = q - 1"
    by (rule int_div_pos_eq) (use assms in auto)
  with q True assms show ?thesis by simp
next
  case False
  have d: "k * (d div k) + d mod k = d" by (rule mult_div_mod_eq)
  have m: "0 \<le> d mod k" "d mod k < k"
    using assms by simp_all
  have "d mod k \<noteq> k - 1"
  proof
    assume "d mod k = k - 1"
    then have "d + 1 = k * (d div k) + k"
      using d by linarith
    then have "d + 1 = k * (d div k + 1)"
      by (simp only: distrib_left mult_1_right)
    with False show False by (metis dvd_triv_left)
  qed
  with m have "d mod k + 1 < k" by linarith
  have "(d + 1) div k = d div k"
    by (rule int_div_pos_eq [where r = "d mod k + 1"]) (use d m \<open>d mod k + 1 < k\<close> in linarith)+
  with False show ?thesis by simp
qed

lemma year_days_mono:
  assumes "d \<le> d'"
  shows "year_days d \<le> year_days d'"
  using assms
proof (induction rule: int_ge_induct)
  case (step i)
  have "146096 dvd i + 1 \<Longrightarrow> 36524 dvd i + 1"
    by (rule dvd_trans [of _ "146096"]) auto
  then have "year_days i \<le> year_days (i + 1)"
    by (simp add: year_days_def div_next del: dvd_numeral_simp)
  with step show ?case by simp
qed simp

text \<open>The parts of a date, with the year that begins in March.\<close>

lemma year_end:
  fixes doe :: int
  assumes "0 \<le> doe" "doe < 146097"
    and a: "1460 * a \<le> doe" "doe < 1460 * a + 1460"
    and b: "36524 * b \<le> doe" "doe < 36524 * b + 36524"
    and c: "146096 * c \<le> doe" "doe < 146096 * c + 146096"
    and y: "365 * yoe \<le> doe - a + b - c" "doe - a + b - c < 365 * yoe + 365"
  shows "0 \<le> yoe" "yoe \<le> 399" "doe - (365 * yoe + yoe div 4 - yoe div 100) \<le> 366"
proof -
  have r: "b \<le> a" "0 \<le> a" "0 \<le> b" "b \<le> 4" "0 \<le> c" "c \<le> 1"
    using a b c assms(1,2) by linarith+
  show "0 \<le> yoe"
    using y r a c assms(1) by linarith
  show "yoe \<le> 399"
  proof (cases "c = 0")
    case True
    then have "b \<le> 3 \<or> doe \<ge> 146096" using b by linarith
    then show ?thesis using True y a b c r assms(2) by linarith
  next
    case False
    then show ?thesis using y a b c r assms(2) by linarith
  qed
  have "4 * a \<le> yoe + 1"
    using y r a assms(2) by linarith
  then have "a \<le> yoe div 4 + 1" by linarith
  moreover have "yoe < 100 * b + 100"
    using y r a b by linarith
  then have "yoe div 100 \<le> b" by linarith
  ultimately show "doe - (365 * yoe + yoe div 4 - yoe div 100) \<le> 366"
    using y r by linarith
qed

lemma civil_parts:
  obtains era yoe doy mp where "n + 719468 = era * 146097 + (365 * yoe + yoe div 4 - yoe div 100) + doy"
    "0 \<le> yoe" "yoe \<le> 399" "0 \<le> doy" "doy \<le> 366" "mp = (5 * doy + 2) div 153" "0 \<le> mp" "mp \<le> 11"
    "era = (n + 719468) div 146097" "yoe = year_days ((n + 719468) mod 146097) div 365"
    "civil_from_days n = (yoe + era * 400 + (if mp < 10 then 0 else 1), if mp < 10 then mp + 3 else mp - 9, doy - (153 * mp + 2) div 5 + 1)"
proof -
  define era where "era = (n + 719468) div 146097"
  define doe where "doe = (n + 719468) mod 146097"
  define yoe where "yoe = year_days doe div 365"
  define doy where "doy = doe - (365 * yoe + yoe div 4 - yoe div 100)"
  define mp where "mp = (5 * doy + 2) div 153"
  have doe: "0 \<le> doe" "doe < 146097" "n + 719468 = era * 146097 + doe"
    by (simp_all add: doe_def era_def)
  have parts: "1460 * (doe div 1460) \<le> doe" "doe < 1460 * (doe div 1460) + 1460" "36524 * (doe div 36524) \<le> doe" "doe < 36524 * (doe div 36524) + 36524"
    "146096 * (doe div 146096) \<le> doe" "doe < 146096 * (doe div 146096) + 146096"
    "365 * yoe \<le> doe - doe div 1460 + doe div 36524 - doe div 146096" "doe - doe div 1460 + doe div 36524 - doe div 146096 < 365 * yoe + 365"
    unfolding yoe_def year_days_def by linarith+
  note y = year_end [OF doe(1,2) parts] year_start [OF doe(1,2) parts]
  then have doy: "0 \<le> doy" "doy \<le> 366"
    by (simp_all add: doy_def)
  then have mp: "0 \<le> mp" "mp \<le> 11"
    unfolding mp_def by linarith+
  have m: "((if mp < 10 then mp + 3 else mp - 9) \<le> 2) = (\<not> mp < 10)"
    using mp by auto
  have "civil_from_days n = (yoe + era * 400 + (if (if mp < 10 then mp + 3 else mp - 9) \<le> 2 then 1 else 0), if mp < 10 then mp + 3 else mp - 9, doy - (153 * mp + 2) div 5 + 1)"
    unfolding civil_from_days_def Let_def mp_def doy_def yoe_def year_days_def doe_def era_def by (rule refl)
  then have civil: "civil_from_days n = (yoe + era * 400 + (if mp < 10 then 0 else 1), if mp < 10 then mp + 3 else mp - 9, doy - (153 * mp + 2) div 5 + 1)"
    unfolding m by (cases "mp < 10") simp_all
  have days: "n + 719468 = era * 146097 + (365 * yoe + yoe div 4 - yoe div 100) + doy"
    using doe(3) unfolding doy_def by linarith
  show ?thesis
    by (rule that [OF days y(1,2) doy mp_def mp era_def _ civil]) (simp only: yoe_def doe_def)
qed

lemma days_from_civil_from_days:
  assumes "civil_from_days n = (y, m, d)"
  shows "days_from_civil y m d = n"
proof (rule civil_parts [of n])
  fix era yoe doy mp
  assume p: "n + 719468 = era * 146097 + (365 * yoe + yoe div 4 - yoe div 100) + doy" "0 \<le> yoe" "yoe \<le> 399" "0 \<le> mp" "mp \<le> 11"
    "civil_from_days n = (yoe + era * 400 + (if mp < 10 then 0 else 1), if mp < 10 then mp + 3 else mp - 9, doy - (153 * mp + 2) div 5 + 1)"
  have e: "(yoe + era * 400) mod 400 = yoe" "(yoe + era * 400) div 400 = era"
    using p(2,3) by simp_all
  show ?thesis
    using p assms e by (cases "mp < 10") (auto simp: days_from_civil_def Let_def)
qed

lemma date_parts_less:
  fixes Y Y' mp mp' d d' :: int
  assumes "Y < Y' \<or> Y = Y' \<and> (mp < mp' \<or> mp = mp' \<and> d < d')" "0 \<le> mp" "mp \<le> 11" "0 \<le> mp'" "mp' \<le> 11"
    and "y = Y + (if mp < 10 then 0 else 1)" "m = (if mp < 10 then mp + 3 else mp - 9)"
    and "y' = Y' + (if mp' < 10 then 0 else 1)" "m' = (if mp' < 10 then mp' + 3 else mp' - 9)"
  shows "y < y' \<or> y = y' \<and> (m < m' \<or> m = m' \<and> d < d')"
  using assms by (auto split: if_splits)

lemma civil_less:
  assumes "n < n'" "civil_from_days n = (y, m, d)" "civil_from_days n' = (y', m', d')"
  shows "y < y' \<or> y = y' \<and> (m < m' \<or> m = m' \<and> d < d')"
proof (rule civil_parts [of n], rule civil_parts [of n'])
  fix era yoe doy mp era' yoe' doy' mp'
  assume p: "n + 719468 = era * 146097 + (365 * yoe + yoe div 4 - yoe div 100) + doy" "0 \<le> yoe" "yoe \<le> 399"
      "mp = (5 * doy + 2) div 153" "0 \<le> mp" "mp \<le> 11" "era = (n + 719468) div 146097" "yoe = year_days ((n + 719468) mod 146097) div 365"
      "civil_from_days n = (yoe + era * 400 + (if mp < 10 then 0 else 1), if mp < 10 then mp + 3 else mp - 9, doy - (153 * mp + 2) div 5 + 1)"
    and p': "n' + 719468 = era' * 146097 + (365 * yoe' + yoe' div 4 - yoe' div 100) + doy'" "0 \<le> yoe'" "yoe' \<le> 399"
      "mp' = (5 * doy' + 2) div 153" "0 \<le> mp'" "mp' \<le> 11" "era' = (n' + 719468) div 146097" "yoe' = year_days ((n' + 719468) mod 146097) div 365"
      "civil_from_days n' = (yoe' + era' * 400 + (if mp' < 10 then 0 else 1), if mp' < 10 then mp' + 3 else mp' - 9, doy' - (153 * mp' + 2) div 5 + 1)"
  have "era \<le> era'"
    unfolding p(7) p'(7) using assms(1) by (intro zdiv_mono1) auto
  have years: "yoe + era * 400 < yoe' + era' * 400 \<or> yoe + era * 400 = yoe' + era' * 400 \<and> doy < doy'"
  proof (cases "era = era'")
    case True
    have "(n + 719468) mod 146097 \<le> (n' + 719468) mod 146097"
      using True p(7) p'(7) assms(1) by (simp add: minus_div_mult_eq_mod [symmetric])
    then have "yoe \<le> yoe'"
      unfolding p(8) p'(8) by (intro zdiv_mono1 year_days_mono) auto
    then show ?thesis
      using True p(1) p'(1) assms(1) by (cases "yoe = yoe'") auto
  next
    case False
    with \<open>era \<le> era'\<close> have "era + 1 \<le> era'" by simp
    with p(3) p'(2) show ?thesis by linarith
  qed
  have "mp < mp' \<or> mp = mp' \<and> doy - (153 * mp + 2) div 5 + 1 < doy' - (153 * mp' + 2) div 5 + 1" if "doy < doy'"
  proof -
    have "mp \<le> mp'"
      unfolding p(4) p'(4) using that by (intro zdiv_mono1) auto
    with that show ?thesis by auto
  qed
  with years have "yoe + era * 400 < yoe' + era' * 400 \<or> yoe + era * 400 = yoe' + era' * 400 \<and>
      (mp < mp' \<or> mp = mp' \<and> doy - (153 * mp + 2) div 5 + 1 < doy' - (153 * mp' + 2) div 5 + 1)"
    by blast
  from date_parts_less [OF this p(5,6) p'(5,6) refl refl refl refl] assms(2,3) p(9) p'(9) show ?thesis
    by auto
qed

section \<open>Wall clocks\<close>

abbreviation (input) Day :: duration where "Day \<equiv> 24 * Hour"

text \<open>The wall clock of an instant in UTC.\<close>

definition utc_wall :: "instant \<Rightarrow> wall" where
  "utc_wall t =
     (case civil_from_days (t div Day) of (y, mo, d) \<Rightarrow>
        \<lparr>w_y = y, w_mo = mo, w_d = d, w_h = (t mod Day) div Hour, w_mi = (t mod Hour) div Minute\<rparr>)"

text \<open>A zone adds an offset of less than fifteen hours, and no two of its offsets are more than a day apart.\<close>

definition zone_ok :: "(instant \<Rightarrow> duration) \<Rightarrow> location \<Rightarrow> bool" where
  "zone_ok off loc \<longleftrightarrow>
     (\<forall>t. loc t = utc_wall (t + off t)) \<and> (\<forall>t. - 15 * Hour \<le> off t \<and> off t < 15 * Hour) \<and> (\<forall>t t'. off t - off t' \<le> Day)"

lemma local_day_zone:
  assumes "zone_ok off loc"
  shows "local_day loc t = (t + off t) div Day"
proof -
  obtain y mo d where c: "civil_from_days ((t + off t) div Day) = (y, mo, d)"
    using prod_cases3 by blast
  then show ?thesis
    using assms days_from_civil_from_days [OF c] by (simp add: local_day_def zone_ok_def utc_wall_def)
qed

lemma utc_date_days:
  assumes "civil_from_days n = (y, mo, d)"
  shows "utc_date y mo d h mi = n * Day + h * Hour + mi * Minute"
  using days_from_civil_from_days [OF assms] by (simp add: utc_date_def day_seconds_def algebra_simps)

text \<open>The instant of a day, hour and minute.\<close>

lemma clock_parts:
  fixes x :: int
  shows "x = x div Day * Day + (x mod Day) div Hour * Hour + (x mod Hour) div Minute * Minute + x mod Minute"
    and "0 \<le> (x mod Day) div Hour" "(x mod Day) div Hour \<le> 23" "0 \<le> (x mod Hour) div Minute" "(x mod Hour) div Minute \<le> 59"
    and "0 \<le> x mod Minute" "x mod Minute < Minute"
proof -
  have h: "(x mod Day) mod Hour = x mod Hour" "(x mod Hour) mod Minute = x mod Minute"
    by (rule mod_mod_cancel, simp)+
  show "x = x div Day * Day + (x mod Day) div Hour * Hour + (x mod Hour) div Minute * Minute + x mod Minute"
    using h div_mult_mod_eq [of x Day] div_mult_mod_eq [of "x mod Day" Hour] div_mult_mod_eq [of "x mod Hour" Minute] by linarith
  have q: "0 \<le> a div k" "a div k * k \<le> a" if "0 \<le> a" "0 < k" for a k :: int
  proof -
    show "0 \<le> a div k" using that by (simp add: pos_imp_zdiv_nonneg_iff)
    show "a div k * k \<le> a" using div_mult_mod_eq [of a k] pos_mod_sign [OF that(2), of a] by linarith
  qed
  have r: "0 \<le> x mod Day" "x mod Day < Day" "0 \<le> x mod Hour" "x mod Hour < Hour"
    by simp_all
  show "0 \<le> (x mod Day) div Hour" "0 \<le> (x mod Hour) div Minute" "0 \<le> x mod Minute" "x mod Minute < Minute"
    using q(1) r by simp_all
  have "(x mod Day) div Hour * Hour \<le> x mod Day" "(x mod Hour) div Minute * Minute \<le> x mod Hour"
    by (rule q(2), simp_all)+
  with r show "(x mod Day) div Hour \<le> 23" "(x mod Hour) div Minute \<le> 59"
    by linarith+
qed

lemma utc_wall_compare:
  assumes c: "civil_from_days n = (y, mo, d)" and hm: "0 \<le> h" "h \<le> 23" "0 \<le> mi" "mi \<le> 59"
  shows "wall_less (utc_wall x) \<lparr>w_y = y, w_mo = mo, w_d = d, w_h = h, w_mi = mi\<rparr> \<longleftrightarrow> x < utc_date y mo d h mi"
    and "utc_wall x = \<lparr>w_y = y, w_mo = mo, w_d = d, w_h = h, w_mi = mi\<rparr> \<Longrightarrow> utc_date y mo d h mi \<le> x \<and> x < utc_date y mo d h mi + Minute"
proof -
  define D where "D = x div Day"
  define H where "H = (x mod Day) div Hour"
  define M where "M = (x mod Hour) div Minute"
  define R where "R = x mod Minute"
  note parts = clock_parts [of x, folded D_def H_def M_def R_def]
  obtain y' mo' d' where c': "civil_from_days D = (y', mo', d')"
    using prod_cases3 by blast
  have wall: "utc_wall x = \<lparr>w_y = y', w_mo = mo', w_d = d', w_h = H, w_mi = M\<rparr>"
    unfolding utc_wall_def D_def [symmetric] H_def [symmetric] M_def [symmetric] c' by simp
  have naive: "utc_date y mo d h mi = n * Day + h * Hour + mi * Minute"
    by (rule utc_date_days [OF c])
  have less: "x < utc_date y mo d h mi \<longleftrightarrow> D < n \<or> D = n \<and> (H < h \<or> H = h \<and> M < mi)"
    unfolding naive using parts hm by auto
  show "wall_less (utc_wall x) \<lparr>w_y = y, w_mo = mo, w_d = d, w_h = h, w_mi = mi\<rparr> \<longleftrightarrow> x < utc_date y mo d h mi"
    unfolding less wall using civil_less [OF _ c' c] civil_less [OF _ c c'] c c' by (cases D n rule: linorder_cases) (auto simp: wall_less_def)
  show "utc_date y mo d h mi \<le> x \<and> x < utc_date y mo d h mi + Minute"
    if "utc_wall x = \<lparr>w_y = y, w_mo = mo, w_d = d, w_h = h, w_mi = mi\<rparr>"
  proof -
    have "H = h" "M = mi" "civil_from_days D = (y, mo, d)"
      using that c' by (simp_all add: wall)
    moreover from this have "D = n"
      using days_from_civil_from_days [OF c] days_from_civil_from_days [of D y mo d] by simp
    ultimately show ?thesis
      unfolding naive using parts by auto
  qed
qed

section \<open>The instant of a wall time\<close>

lemma bisect_edge:
  assumes "early lo" "\<not> early hi" "lo < hi"
  shows "early (bisect early lo hi - 1) \<and> \<not> early (bisect early lo hi) \<and> lo < bisect early lo hi \<and> bisect early lo hi \<le> hi"
  using assms
proof (induction early lo hi rule: bisect.induct)
  case (1 early lo hi)
  define mid where "mid = lo + (hi - lo) div 2"
  show ?case
  proof (cases "hi - lo > 1")
    case True
    then have m: "lo < mid" "mid < hi"
      unfolding mid_def by linarith+
    show ?thesis
    proof (cases "early mid")
      case e: True
      have "bisect early lo hi = bisect early mid hi"
        using True e by (subst bisect.simps) (simp add: mid_def Let_def)
      then show ?thesis
        using 1(1) [OF True mid_def e e 1(4) m(2)] m by simp
    next
      case e: False
      have "bisect early lo hi = bisect early lo mid"
        using True e by (subst bisect.simps) (simp add: mid_def Let_def)
      then show ?thesis
        using 1(2) [OF True mid_def e 1(3) e m(1)] m by simp
    qed
  next
    case False
    then have "hi = lo + 1" using 1(5) by simp
    then show ?thesis using 1(3,4) by (subst (1 2 3 4) bisect.simps) simp
  qed
qed

lemma fold_min_in: "fold min xs (x::int) \<in> set (x # xs)"
  by (induction xs arbitrary: x) (auto simp: min_def split: if_splits)

text \<open>
  The instant of a wall time shows that time, or it is the first second after a jump over it: the
  second before shows an earlier time.
\<close>

lemma wallInstant_cases:
  assumes z: "zone_ok off loc" and c: "civil_from_days n = (y, mo, d)" and hm: "0 \<le> h" "h \<le> 23" "0 \<le> mi" "mi \<le> 59"
  obtains w where "w = wallInstant loc y mo d h mi" "utc_date y mo d h mi \<le> w + off w" "w + off w < utc_date y mo d h mi + Minute"
  | w where "w = wallInstant loc y mo d h mi" "utc_date y mo d h mi \<le> w + off w" "w - Second + off (w - Second) < utc_date y mo d h mi"
proof -
  let ?want = "\<lparr>w_y = y, w_mo = mo, w_d = d, w_h = h, w_mi = mi\<rparr>" and ?naive = "utc_date y mo d h mi" and ?w = "wallInstant loc y mo d h mi"
  note compare = utc_wall_compare [OF c hm]
  have loc: "loc t = utc_wall (t + off t)" "- 15 * Hour \<le> off t" "off t < 15 * Hour" for t
    using z by (auto simp: zone_ok_def)
  define found where "found = filter (\<lambda>t. loc t = ?want) (map (\<lambda>o'. ?naive - o' * Second) offsets)"
  have w: "?w = (if found \<noteq> [] then fold min (tl found) (hd found)
      else bisect (\<lambda>s. wall_less (loc (s * Second)) ?want) (?naive div Second - 54000) (?naive div Second + 54000) * Second)"
    by (simp add: wallInstant_def Let_def found_def)
  show ?thesis
  proof (cases "found = []")
    case False
    then have "?w \<in> set found"
      using fold_min_in [of "tl found" "hd found"] by (simp add: w)
    then have "loc ?w = ?want"
      by (simp add: found_def)
    then show ?thesis
      using compare(2) [of "?w + off ?w"] loc(1) that(1) by auto
  next
    case True
    define early where "early = (\<lambda>s. wall_less (loc (s * Second)) ?want)"
    define N where "N = ?naive div Second"
    have naive: "?naive = N * Second"
      unfolding N_def utc_date_def by simp
    have e: "early s \<longleftrightarrow> s * Second + off (s * Second) < N * Second" for s
      using compare(1) unfolding early_def loc(1) naive by blast
    have "early (N - 54000)" "\<not> early (N + 54000)"
      unfolding e using loc(2,3) [of "(N - 54000) * Second"] loc(2,3) [of "(N + 54000) * Second"] by simp_all
    then have "early (bisect early (N - 54000) (N + 54000) - 1)" "\<not> early (bisect early (N - 54000) (N + 54000))"
      using bisect_edge [of early "N - 54000" "N + 54000"] by auto
    moreover have "?w = bisect early (N - 54000) (N + 54000) * Second"
      using True by (simp add: w early_def N_def)
    ultimately show ?thesis
      using that(2) [of ?w] unfolding e naive by (simp add: algebra_simps)
  qed
qed

section \<open>All slots of an interval\<close>

text \<open>A slot of a schedule: an hour and a minute of a day it names.\<close>

definition is_slot :: "Schedule \<Rightarrow> location \<Rightarrow> Slot \<Rightarrow> bool" where
  "is_slot s loc sl \<longleftrightarrow>
     (\<exists>n y mo d h mi. day_ok s n \<and> civil_from_days n = (y, mo, d) \<and> h \<in> set (sc_hours s) \<and> mi \<in> set (sc_minutes s) \<and>
        sl = \<lparr>sl_ID = slot_id y mo d h mi, sl_At = wallInstant loc y mo d h mi\<rparr>)"

definition schedule_ok :: "Schedule \<Rightarrow> bool" where
  "schedule_ok s \<longleftrightarrow> set (sc_hours s) \<subseteq> {0..23} \<and> set (sc_minutes s) \<subseteq> {0..59}"

lemma field_part_range:
  assumes "field_part lo hi part = Some vs"
  shows "set vs \<subseteq> {lo..hi}"
proof -
  define step where "step = (case cut (CHR ''/'') part of
      (p, n, True) \<Rightarrow> (case Atoi n of Some st \<Rightarrow> if st < 1 then None else Some (p, st) | None \<Rightarrow> None)
    | (_, _, False) \<Rightarrow> Some (part, 1))"
  have "1 \<le> st" if "step = Some (p, st)" for p st
    using that by (auto simp: step_def split: option.splits prod.splits if_splits bool.splits)
  moreover obtain p st a b where "step = Some (p, st)" and v: "lo \<le> a" "b \<le> hi" "vs = span a b st"
    using assms unfolding field_part_def step_def [symmetric] by (auto simp: not_less split: option.splits if_splits)
  ultimately have "1 \<le> st" by blast
  have "0 \<le> i * st \<and> i * st \<le> b - a" if "0 \<le> i" "i \<le> (b - a) div st" for i
  proof -
    have "i * st \<le> (b - a) div st * st"
      using that \<open>1 \<le> st\<close> by (simp add: mult_right_mono)
    also have "\<dots> \<le> b - a"
      using div_mult_mod_eq [of "b - a" st] pos_mod_sign [of st "b - a"] \<open>1 \<le> st\<close> by linarith
    finally show ?thesis
      using that \<open>1 \<le> st\<close> by simp
  qed
  then show ?thesis
    using v by (fastforce simp: span_def)
qed

lemma field_parts_range: "field_parts lo hi ps = Some vs \<Longrightarrow> set vs \<subseteq> {lo..hi}"
  by (induction ps arbitrary: vs) (fastforce split: option.splits dest: field_part_range)+

lemma ParseCron_ok: "ParseCron expr = Some s \<Longrightarrow> schedule_ok s"
  by (auto simp: ParseCron_def schedule_ok_def cron_field_def split: list.splits option.splits dest!: field_parts_range)

lemma day_bounds: "x div Day * Day \<le> x" "x < x div Day * Day + Day" for x :: int
  using clock_parts [of x] by linarith+

lemma slot_window:
  assumes z: "zone_ok off loc" and c: "civil_from_days n = (y, mo, d)" and hm: "0 \<le> h" "h \<le> 23" "0 \<le> mi" "mi \<le> 59"
    and w: "a < wallInstant loc y mo d h mi" "wallInstant loc y mo d h mi \<le> u"
  shows "local_day loc a - 1 \<le> n \<and> n \<le> local_day loc u + 1"
proof -
  define W where "W = wallInstant loc y mo d h mi"
  define A where "A = (a + off a) div Day"
  define U where "U = (u + off u) div Day"
  have apart: "off t - off t' \<le> Day" for t t'
    using z by (simp add: zone_ok_def)
  have naive: "utc_date y mo d h mi = n * Day + h * Hour + mi * Minute"
    by (rule utc_date_days [OF c])
  have "utc_date y mo d h mi \<le> W + off W" "W + off W < utc_date y mo d h mi + Minute \<or> W - Second + off (W - Second) < utc_date y mo d h mi"
    using wallInstant_cases [OF z c hm] by (auto simp: W_def)
  then have "a + off a < n * Day + 2 * Day" "n * Day - Day \<le> u + off u"
    using w [folded W_def] apart [of a W] apart [of a "W - Second"] apart [of W u] hm unfolding naive by linarith+
  then have "A * Day < n * Day + 2 * Day" "n * Day - Day < U * Day + Day"
    using day_bounds [of "a + off a"] day_bounds [of "u + off u"] unfolding A_def U_def by linarith+
  then have "A \<le> n + 1" "n \<le> U + 1"
    by linarith+
  then show ?thesis
    by (simp add: local_day_zone [OF z] A_def U_def)
qed

lemma Slots_complete:
  assumes "zone_ok off loc" "schedule_ok s"
  shows "sl \<in> set (Slots s loc a u) \<longleftrightarrow> is_slot s loc sl \<and> a < sl_At sl \<and> sl_At sl \<le> u"
proof
  assume "sl \<in> set (Slots s loc a u)"
  then obtain n where n: "day_ok s n" "sl \<in> set (day_slots s loc a u n)"
    by (auto simp: Slots_def)
  obtain y mo d where c: "civil_from_days n = (y, mo, d)"
    using prod_cases3 by blast
  with n show "is_slot s loc sl \<and> a < sl_At sl \<and> sl_At sl \<le> u"
    unfolding is_slot_def by (auto simp: day_slots_def keys_def) blast+
next
  assume sl: "is_slot s loc sl \<and> a < sl_At sl \<and> sl_At sl \<le> u"
  then obtain n y mo d h mi where n: "day_ok s n" "civil_from_days n = (y, mo, d)" "h \<in> set (sc_hours s)" "mi \<in> set (sc_minutes s)"
    "sl = \<lparr>sl_ID = slot_id y mo d h mi, sl_At = wallInstant loc y mo d h mi\<rparr>"
    by (auto simp: is_slot_def)
  have "0 \<le> h" "h \<le> 23" "0 \<le> mi" "mi \<le> 59"
    using assms(2) n(3,4) by (auto simp: schedule_ok_def)
  from slot_window [OF assms(1) n(2) this, of a u] have "n \<in> set [local_day loc a - 1..local_day loc u + 1]"
    using sl n(5) by simp
  moreover have "sl \<in> set (day_slots s loc a u n)"
    using sl n by (auto simp: day_slots_def keys_def)
  ultimately show "sl \<in> set (Slots s loc a u)"
    using n(1) by (auto simp: Slots_def)
qed

section \<open>The next slot and the plan\<close>

lemma Slots_head:
  assumes z: "zone_ok off loc" "schedule_ok s" and l: "Slots s loc a u = sl # sls"
  shows "is_slot s loc sl \<and> a < sl_At sl \<and> (\<forall>sl'. is_slot s loc sl' \<and> a < sl_At sl' \<longrightarrow> sl_At sl \<le> sl_At sl')"
proof -
  have sl: "is_slot s loc sl" "a < sl_At sl" "sl_At sl \<le> u"
    using Slots_complete [OF z, of sl a u] l by auto
  have "sl_At sl \<le> sl_At sl'" if "is_slot s loc sl'" "a < sl_At sl'" for sl'
  proof (cases "sl_At sl' \<le> u")
    case True
    then have "sl' \<in> set (sl # sls)"
      using Slots_complete [OF z, of sl' a u] that l by simp
    then show ?thesis
      using cron_slots.slots_ordered [of s loc a u] l by auto
  next
    case False
    with sl(3) show ?thesis by simp
  qed
  with sl show ?thesis by blast
qed

lemma next_from_first:
  assumes "zone_ok off loc" "schedule_ok s"
  shows "case next_from s loc a e of
      Some sl \<Rightarrow> is_slot s loc sl \<and> a < sl_At sl \<and> (\<forall>sl'. is_slot s loc sl' \<and> a < sl_At sl' \<longrightarrow> sl_At sl \<le> sl_At sl')
    | None \<Rightarrow> (\<forall>sl'. is_slot s loc sl' \<and> a < sl_At sl' \<longrightarrow> e < sl_At sl')"
  using assms
proof (induction s loc a e rule: next_from.induct)
  case (1 s loc a e)
  show ?case
  proof (cases "a < e")
    case a: True
    show ?thesis
    proof (cases "Slots s loc a (a + 24 * Hour)")
      case (Cons sl sls)
      then show ?thesis
        using Slots_head [OF 1(2,3) Cons] a by (simp add: next_from.simps [of s loc a e])
    next
      case Nil
      have skip: "a + 24 * Hour < sl_At sl'" if "is_slot s loc sl'" "a < sl_At sl'" for sl'
        using Slots_complete [OF 1(2,3), of sl' a "a + 24 * Hour"] that Nil by auto
      have rec: "next_from s loc a e = next_from s loc (a + 24 * Hour) e"
        using a Nil by (simp add: next_from.simps [of s loc a e])
      show ?thesis
        using 1(1) [OF a Nil 1(2,3)] skip unfolding rec by (auto split: option.splits)
    qed
  next
    case False
    then show ?thesis by (auto simp: next_from.simps [of s loc a e])
  qed
qed

text \<open>
  C9. No slot is missed. In a zone whose offsets stay below fifteen hours and within a day of each
  other, the slots found for an interval are exactly the schedule's slots whose instant lies in it, so
  consecutive intervals lose none; the next slot is the first one, and none within eight years
  when there is no next; a plan that materializes everything takes exactly the due slots, and no
  slot lies between the new watermark and the time of the plan.
\<close>

theorem cron_slots_complete:
  assumes "zone_ok off loc" "ParseCron expr = Some s"
  shows "(\<forall>a u sl. sl \<in> set (Slots s loc a u) \<longleftrightarrow> is_slot s loc sl \<and> a < sl_At sl \<and> sl_At sl \<le> u) \<and>
    (\<forall>a. case Next s loc a of
       Some sl \<Rightarrow> is_slot s loc sl \<and> a < sl_At sl \<and> (\<forall>sl'. is_slot s loc sl' \<and> a < sl_At sl' \<longrightarrow> sl_At sl \<le> sl_At sl')
     | None \<Rightarrow> (\<forall>sl'. is_slot s loc sl' \<and> a < sl_At sl' \<longrightarrow> add_years 8 a < sl_At sl')) \<and>
    (\<forall>policy n wm now pending paused mark. cron_Plan s loc policy n wm now = (pending, paused, mark) \<longrightarrow>
       (policy = ''all'' \<longrightarrow> set (pending @ paused) = {sl. is_slot s loc sl \<and> wm < sl_At sl \<and> sl_At sl \<le> now}) \<and>
       (\<forall>sl. is_slot s loc sl \<and> mark < sl_At sl \<longrightarrow> now < sl_At sl))"
proof (intro conjI allI impI)
  note ok = assms(1) ParseCron_ok [OF assms(2)]
  show "sl \<in> set (Slots s loc a u) \<longleftrightarrow> is_slot s loc sl \<and> a < sl_At sl \<and> sl_At sl \<le> u" for a u sl
    by (rule Slots_complete [OF ok])
  show "case Next s loc a of
       Some sl \<Rightarrow> is_slot s loc sl \<and> a < sl_At sl \<and> (\<forall>sl'. is_slot s loc sl' \<and> a < sl_At sl' \<longrightarrow> sl_At sl \<le> sl_At sl')
     | None \<Rightarrow> (\<forall>sl'. is_slot s loc sl' \<and> a < sl_At sl' \<longrightarrow> add_years 8 a < sl_At sl')" for a
    unfolding Next_def by (rule next_from_first [OF ok])
  fix policy n wm now pending paused mark
  assume plan: "cron_Plan s loc policy n wm now = (pending, paused, mark)"
  show "set (pending @ paused) = {sl. is_slot s loc sl \<and> wm < sl_At sl \<and> sl_At sl \<le> now}" if "policy = ''all''"
  proof -
    have "pending @ paused = Slots s loc wm now"
      using plan that by (auto simp: cron_Plan_def Let_def split: if_splits)
    then show ?thesis
      using Slots_complete [OF ok, of _ wm now] by auto
  qed
  show "now < sl_At sl" if "is_slot s loc sl \<and> mark < sl_At sl" for sl
    using cron_Plan_due(2,3) [OF plan] that Slots_complete [OF ok, of sl wm now] by force
qed

theorem cron_slots_complete_witness:
  "\<exists>s. ParseCron ''* * * * *'' = Some s \<and> zone_ok (\<lambda>_. 0) utc_wall \<and>
     (\<forall>sl. sl \<in> set (Slots s utc_wall 0 Day) \<longleftrightarrow> is_slot s utc_wall sl \<and> 0 < sl_At sl \<and> sl_At sl \<le> Day)"
proof -
  have "cron_field ''*'' lo hi = Some (span lo hi 1)" if "lo \<le> hi" for lo hi
    using that by (simp add: cron_field_def field_part_def part_bounds_def)
  then obtain s where s: "ParseCron ''* * * * *'' = Some s"
    by (simp add: ParseCron_def Fields_of_def is_space_def)
  have z: "zone_ok (\<lambda>_. 0) utc_wall"
    by (simp add: zone_ok_def)
  have "sl \<in> set (Slots s utc_wall 0 Day) \<longleftrightarrow> is_slot s utc_wall sl \<and> 0 < sl_At sl \<and> sl_At sl \<le> Day" for sl
    by (rule cron_slots_complete [OF z s, THEN conjunct1, rule_format])
  with s z show ?thesis by blast
qed

end
