(* ===== verification/Work.thy ===== *)
theory Work
  imports Cron Batches "HOL-Library.AList"
begin

text \<open>
  Background work (\<open>work/job.go\<close>, \<open>work/run.go\<close>, \<open>work/runner.go\<close>, \<open>work/operator.go\<close>): items with
  leases and epochs, the claim, the guarded commits of a run, failures, cron slots, operators and
  the cleanup. Each operation is what its transaction does to the tables, at the database's clock;
  the row a statement leaves to column defaults, generated identities and locked rows are
  arguments. The goroutines that call the operations are the step relation of \<open>Work_Correct\<close>.
  Durations in the texts of messages are left out.
\<close>

section \<open>Jobs\<close>

abbreviation (input) Queue :: string where "Queue \<equiv> ''queue''"
abbreviation (input) CronKind :: string where "CronKind \<equiv> ''cron''"
abbreviation (input) Singleton :: string where "Singleton \<equiv> ''singleton''"
abbreviation (input) Every :: string where "Every \<equiv> ''every''"
abbreviation (input) Local :: string where "Local \<equiv> ''local''"
abbreviation (input) IdempotentExternal :: string where "IdempotentExternal \<equiv> ''idempotent_external''"
abbreviation (input) NonIdempotentExternal :: string where "NonIdempotentExternal \<equiv> ''non_idempotent_external''"
abbreviation (input) EmitOnly :: string where "EmitOnly \<equiv> ''emit_only''"
abbreviation (input) DefaultLease :: duration where "DefaultLease \<equiv> 30 * Second"
abbreviation (input) DefaultMaxAttempts :: int where "DefaultMaxAttempts \<equiv> 10"
abbreviation (input) DefaultTimeout :: duration where "DefaultTimeout \<equiv> 5 * Minute"
abbreviation (input) WorkBackoffStart :: duration where "WorkBackoffStart \<equiv> Second"
abbreviation (input) WorkBackoffCap :: duration where "WorkBackoffCap \<equiv> 5 * Minute"

record Item =
  it_ID :: string
  it_Job :: string
  it_Kind :: string
  it_Attempts :: int
  it_MaxAttempts :: int
  it_OperationID :: string
  it_Args :: "string option"
  it_Progress :: "string option"
  it_Slot :: string
  it_CallResults :: "(string \<times> string) list"

text \<open>The component's own tables are of type \<open>'c\<close>; its writes may fail.\<close>

type_synonym 'c effect = "'c \<Rightarrow> string + 'c"

record 'c Job =
  j_Name :: string
  j_Kind :: string
  j_Effect :: string
  j_MaxAttempts :: int
  j_Cron :: string
  j_TimeZone :: string
  j_Backfill :: string
  j_MaxBacklog :: int
  j_Interval :: duration
  j_Timeout :: duration
  j_MaxWait :: duration
  j_Handle :: bool
  j_DeadLetter :: "(Item \<Rightarrow> string \<Rightarrow> 'c effect) option"
  j_schedule :: Schedule
  j_loc :: location

text \<open>\<open>LoadLocation\<close> is a parameter; a job that cannot be prepared is \<open>None\<close>, the texts are left out.\<close>

definition prepare :: "(string \<Rightarrow> location option) \<Rightarrow> 'c Job \<Rightarrow> 'c Job option" where
  "prepare LoadLocation j =
     (if j_Name j = [] \<or> \<not> j_Handle j then None
      else
        let j1 = (if j_MaxAttempts j \<le> 0 then j\<lparr>j_MaxAttempts := DefaultMaxAttempts\<rparr> else j);
            j2 = (if j_Timeout j1 \<le> 0 then j1\<lparr>j_Timeout := DefaultTimeout\<rparr> else j1)
        in if j_Effect j2 = [] \<and> j_Kind j2 \<noteq> Every then None
           else if j_Kind j2 = CronKind then
             (case ParseCron (j_Cron j2) of
                None \<Rightarrow> None
              | Some s \<Rightarrow>
                  if j_TimeZone j2 = [] then None
                  else (case LoadLocation (j_TimeZone j2) of
                          None \<Rightarrow> None
                        | Some l \<Rightarrow>
                            let j3 = j2\<lparr>j_loc := l, j_schedule := s\<rparr>;
                                j4 = (if j_Backfill j3 = [] then j3\<lparr>j_Backfill := Latest\<rparr> else j3)
                            in Some (if j_MaxBacklog j4 \<le> 0 then j4\<lparr>j_MaxBacklog := DefaultMaxBacklog\<rparr> else j4)))
           else if j_Kind j2 = Singleton \<or> j_Kind j2 = Every then (if j_Interval j2 \<le> 0 then None else Some j2)
           else if j_Kind j2 = Queue then Some j2
           else None)"

text \<open>The declared jobs and the names of those that have items.\<close>

fun runner_Add ::
  "(string \<Rightarrow> location option) \<Rightarrow> 'c Job list \<Rightarrow> (string \<times> 'c Job) list \<times> string list \<Rightarrow> ((string \<times> 'c Job) list \<times> string list) option" where
  "runner_Add LoadLocation [] w = Some w"
| "runner_Add LoadLocation (j # js) (jobs, names) =
     (case prepare LoadLocation j of
        None \<Rightarrow> None
      | Some p \<Rightarrow>
          if map_of jobs (j_Name p) \<noteq> None then None
          else runner_Add LoadLocation js (jobs @ [(j_Name p, p)], if j_Kind p \<noteq> Every then names @ [j_Name p] else names))"

text \<open>The errors of a handler.\<close>

datatype handler_error = Permanent string | NotEffective string | Wait string | Plain string

fun kindOf :: "handler_error \<Rightarrow> string" where
  "kindOf (Permanent _) = ''permanent''"
| "kindOf (NotEffective _) = ''not_effective''"
| "kindOf (Wait _) = ''wait''"
| "kindOf (Plain _) = ''retryable''"

fun message_of :: "handler_error \<Rightarrow> string" where
  "message_of (Permanent m) = m"
| "message_of (NotEffective m) = m"
| "message_of (Wait m) = m"
| "message_of (Plain m) = m"

definition work_backoff :: "int \<Rightarrow> duration" where
  "work_backoff n =
     (let k = (if n < 1 then 1 else n) in if k > 20 then WorkBackoffCap else min WorkBackoffCap (WorkBackoffStart * 2 ^ nat (k - 1)))"

interpretation work_retry: capped_doubling work_backoff WorkBackoffStart WorkBackoffCap
proof
  fix n :: int
  assume n: "1 \<le> n"
  show "work_backoff n = min WorkBackoffCap (WorkBackoffStart * 2 ^ nat (n - 1))"
  proof (cases "n > 20")
    case True
    then have "(2::int) ^ 20 \<le> 2 ^ nat (n - 1)"
      by (intro power_increasing) auto
    then show ?thesis using True by (simp add: work_backoff_def)
  next
    case False
    with n show ?thesis by (simp add: work_backoff_def Let_def)
  qed
qed simp_all

section \<open>The tables\<close>

record work_item =
  wi_job :: string
  wi_kind :: string
  wi_state :: string
  wi_pause_reason :: "string option"
  wi_attempts :: int
  wi_max_attempts :: int
  wi_effect_class :: string
  wi_operation_id :: string
  wi_outcome_unknown :: bool
  wi_args :: "string option"
  wi_progress :: "string option"
  wi_slot :: "string option"
  wi_call_results :: "(string \<times> string) list"
  wi_run_at :: instant
  wi_epoch :: int
  wi_holder :: "string option"
  wi_lease_until :: "instant option"
  wi_generation :: int
  wi_timeline :: int
  wi_waiting_since :: "instant option"
  wi_last_error :: "string option"
  wi_finished_at :: "instant option"
  wi_result :: "string option"

record 'c work_db =
  be_work_item :: "(string \<times> work_item) list"
  be_cron_watermark :: "(string \<times> instant \<times> string option) list"
  be_current_db_epoch :: "int \<times> int"
  wk_component :: 'c

definition set_item :: "string \<Rightarrow> (work_item \<Rightarrow> work_item) \<Rightarrow> 'c work_db \<Rightarrow> 'c work_db" where
  "set_item i f db = db\<lparr>be_work_item := AList.map_entry i f (be_work_item db)\<rparr>"

definition insert_item :: "string \<Rightarrow> work_item \<Rightarrow> 'c work_db \<Rightarrow> 'c work_db" where
  "insert_item i x db =
     (if map_of (be_work_item db) i = None then db\<lparr>be_work_item := be_work_item db @ [(i, x)]\<rparr> else db)"

text \<open>An item is due at the given instant, or now; \<open>blank\<close> is the row of column defaults.\<close>

definition EnqueueAt ::
  "(string \<times> 'c Job) list \<Rightarrow> work_item \<Rightarrow> string \<Rightarrow> string \<Rightarrow> string \<Rightarrow> instant option \<Rightarrow> instant \<Rightarrow> 'c work_db \<Rightarrow> 'c work_db option" where
  "EnqueueAt jobs blank new job args at' now db =
     (case map_of jobs job of
        None \<Rightarrow> None
      | Some j \<Rightarrow>
          if j_Kind j \<noteq> Queue \<or> map_of (be_work_item db) new \<noteq> None then None
          else Some (insert_item new (blank\<lparr>wi_job := job, wi_kind := Queue, wi_state := ''pending'', wi_max_attempts := j_MaxAttempts j,
                 wi_effect_class := j_Effect j, wi_operation_id := new @ '':'' @ job, wi_args := Some args,
                 wi_run_at := (case at' of None \<Rightarrow> now | Some t \<Rightarrow> t)\<rparr>) db))"

definition Enqueue ::
  "(string \<times> 'c Job) list \<Rightarrow> work_item \<Rightarrow> string \<Rightarrow> string \<Rightarrow> string \<Rightarrow> instant \<Rightarrow> 'c work_db \<Rightarrow> 'c work_db option" where
  "Enqueue jobs blank new job args now db = EnqueueAt jobs blank new job args None now db"

definition ensureSingleton :: "work_item \<Rightarrow> string \<Rightarrow> 'c Job \<Rightarrow> 'c work_db \<Rightarrow> 'c work_db" where
  "ensureSingleton blank op j db =
     insert_item (j_Name j) (blank\<lparr>wi_job := j_Name j, wi_kind := Singleton, wi_state := ''pending'', wi_max_attempts := j_MaxAttempts j,
       wi_effect_class := j_Effect j, wi_operation_id := op\<rparr>) db"

definition slot_item :: "work_item \<Rightarrow> 'c Job \<Rightarrow> bool \<Rightarrow> string \<Rightarrow> Slot \<Rightarrow> work_item" where
  "slot_item blank j paused op s =
     blank\<lparr>wi_job := j_Name j, wi_kind := CronKind, wi_state := (if paused then ''paused'' else ''pending''),
           wi_pause_reason := (if paused then Some ''backlog_exceeded'' else None), wi_max_attempts := j_MaxAttempts j,
           wi_effect_class := j_Effect j, wi_operation_id := op, wi_slot := Some (sl_ID s), wi_run_at := sl_At s\<rparr>"

definition slot_item_id :: "'c Job \<Rightarrow> Slot \<Rightarrow> string" where
  "slot_item_id j s = j_Name j @ ''@'' @ sl_ID s"

fun insert_slots :: "work_item \<Rightarrow> (Slot \<Rightarrow> string) \<Rightarrow> 'c Job \<Rightarrow> bool \<Rightarrow> Slot list \<Rightarrow> 'c work_db \<Rightarrow> 'c work_db" where
  "insert_slots blank ops j paused [] db = db"
| "insert_slots blank ops j paused (s # ss) db =
     insert_slots blank ops j paused ss (insert_item (slot_item_id j s) (slot_item blank j paused (ops s) s) db)"

text \<open>The due slots of a cron job become items; the result is the first slot after the new watermark and the time.\<close>

definition materialize ::
  "work_item \<Rightarrow> (Slot \<Rightarrow> string) \<Rightarrow> 'c Job \<Rightarrow> instant \<Rightarrow> 'c work_db \<Rightarrow> (instant \<times> instant) \<times> 'c work_db" where
  "materialize blank ops j now db =
     (let db1 = (if map_of (be_cron_watermark db) (j_Name j) = None
                 then db\<lparr>be_cron_watermark := be_cron_watermark db @ [(j_Name j, now, None)]\<rparr> else db);
          wm = fst (the (map_of (be_cron_watermark db1) (j_Name j)))
      in case cron_Plan (j_schedule j) (j_loc j) (j_Backfill j) (j_MaxBacklog j) wm now of
           (pending, paused, mark) \<Rightarrow>
             (let nxt = (case Next (j_schedule j) (j_loc j) mark of Some s \<Rightarrow> sl_At s | None \<Rightarrow> add_years 100 wm);
                  db2 = insert_slots blank ops j True paused (insert_slots blank ops j False pending db1);
                  db3 = (if mark = wm then db2
                         else db2\<lparr>be_cron_watermark := AList.map_entry (j_Name j)
                                (\<lambda>(_, old). (mark, if pending @ paused = [] then old else Some (sl_ID (last (pending @ paused)))))
                                (be_cron_watermark db2)\<rparr>)
              in ((nxt, now), db3)))"

text \<open>
  The loop over the cron jobs. Before a job's next slot no transaction is opened; the slot's time is on the
  database's clock, compared through the skew seen at the last look. The arguments of a job are the
  two readings of the own clock, the database's clock, and whether the transaction fails.
\<close>

record timing =
  tm_nextSlot :: "(string \<times> instant) list"
  tm_skew :: duration

record look =
  lk_local :: instant
  lk_local2 :: instant
  lk_now :: instant
  lk_fails :: bool

definition slot_ahead :: "timing \<Rightarrow> instant \<Rightarrow> string \<Rightarrow> bool" where
  "slot_ahead w local name =
     (case map_of (tm_nextSlot w) name of None \<Rightarrow> False | Some at' \<Rightarrow> local + tm_skew w < at')"

definition schedule_job ::
  "work_item \<Rightarrow> (string \<times> 'c Job) list \<Rightarrow> (string \<Rightarrow> Slot \<Rightarrow> string) \<Rightarrow> (string \<Rightarrow> look) \<Rightarrow> string \<Rightarrow> timing \<times> 'c work_db \<Rightarrow> timing \<times> 'c work_db" where
  "schedule_job blank jobs ops looks name = (\<lambda>(w, db).
     let j = the (map_of jobs name); lk = looks name
     in if j_Kind j \<noteq> CronKind \<or> slot_ahead w (lk_local lk) name \<or> lk_fails lk then (w, db)
        else case materialize blank (ops name) j (lk_now lk) db of
          ((nxt, dbNow), db') \<Rightarrow>
            (\<lparr>tm_nextSlot = AList.update name nxt (tm_nextSlot w), tm_skew = time_Sub dbNow (lk_local2 lk)\<rparr>, db'))"

definition schedule ::
  "work_item \<Rightarrow> (string \<times> 'c Job) list \<Rightarrow> (string \<Rightarrow> Slot \<Rightarrow> string) \<Rightarrow> (string \<Rightarrow> look) \<Rightarrow> string list \<Rightarrow> timing \<times> 'c work_db \<Rightarrow> timing \<times> 'c work_db" where
  "schedule blank jobs ops looks names st = fold (schedule_job blank jobs ops looks) names st"

text \<open>What the start of the runner inserts.\<close>

definition start_singletons :: "work_item \<Rightarrow> (string \<times> 'c Job) list \<Rightarrow> (string \<Rightarrow> string) \<Rightarrow> string list \<Rightarrow> 'c work_db \<Rightarrow> 'c work_db" where
  "start_singletons blank jobs ops names db =
     fold (\<lambda>n db. case map_of jobs n of
             None \<Rightarrow> db
           | Some j \<Rightarrow> if j_Kind j = Singleton then ensureSingleton blank (ops n) j db else db) names db"

section \<open>Claims\<close>

record 'c Run =
  rn_Item :: Item
  rn_job :: "'c Job"
  rn_epoch :: int
  rn_gen :: int
  rn_tl :: int
  rn_completed :: bool

definition first_by :: "(work_item \<Rightarrow> instant) \<Rightarrow> (string \<times> work_item) list \<Rightarrow> (string \<times> work_item) option" where
  "first_by key xs = (case sort_key (\<lambda>(_, x). key x) xs of [] \<Rightarrow> None | x # _ \<Rightarrow> Some x)"

definition lease_expired :: "string list \<Rightarrow> (string \<Rightarrow> bool) \<Rightarrow> instant \<Rightarrow> string \<times> work_item \<Rightarrow> bool" where
  "lease_expired names locked now = (\<lambda>(i, x).
     wi_job x \<in> set names \<and> wi_state x = ''running'' \<and> (case wi_lease_until x of None \<Rightarrow> False | Some t \<Rightarrow> t \<le> now) \<and> \<not> locked i)"

definition item_due :: "string list \<Rightarrow> (string \<Rightarrow> bool) \<Rightarrow> instant \<Rightarrow> string \<times> work_item \<Rightarrow> bool" where
  "item_due names locked now = (\<lambda>(i, x).
     wi_job x \<in> set names \<and> (wi_state x = ''pending'' \<or> wi_state x = ''retry_wait'') \<and> wi_run_at x \<le> now \<and> \<not> locked i)"

definition candidate :: "string list \<Rightarrow> (string \<Rightarrow> bool) \<Rightarrow> instant \<Rightarrow> 'c work_db \<Rightarrow> (string \<times> work_item) option" where
  "candidate names locked now db =
     (case first_by (\<lambda>x. the (wi_lease_until x)) (filter (lease_expired names locked now) (be_work_item db)) of
        Some c \<Rightarrow> Some c
      | None \<Rightarrow> first_by wi_run_at (filter (item_due names locked now) (be_work_item db)))"

definition claimed_row :: "string \<Rightarrow> duration \<Rightarrow> instant \<Rightarrow> int \<times> int \<Rightarrow> work_item \<Rightarrow> work_item" where
  "claimed_row holder lease now e x =
     x\<lparr>wi_state := ''running'', wi_epoch := wi_epoch x + 1, wi_attempts := wi_attempts x + 1, wi_holder := Some holder,
       wi_lease_until := Some (now + lease), wi_generation := fst e, wi_timeline := snd e\<rparr>"

definition item_of :: "string \<Rightarrow> work_item \<Rightarrow> Item" where
  "item_of i x =
     \<lparr>it_ID = i, it_Job = wi_job x, it_Kind = wi_kind x, it_Attempts = wi_attempts x, it_MaxAttempts = wi_max_attempts x,
      it_OperationID = wi_operation_id x, it_Args = wi_args x, it_Progress = wi_progress x,
      it_Slot = (case wi_slot x of None \<Rightarrow> [] | Some s \<Rightarrow> s), it_CallResults = wi_call_results x\<rparr>"

definition claim ::
  "(string \<times> 'c Job) list \<Rightarrow> string list \<Rightarrow> string \<Rightarrow> duration \<Rightarrow> (string \<Rightarrow> bool) \<Rightarrow> instant \<Rightarrow> 'c work_db \<Rightarrow> 'c Run option \<times> 'c work_db" where
  "claim jobs names holder lease locked now db =
     (if names = [] then (None, db)
      else case candidate names locked now db of
        None \<Rightarrow> (None, db)
      | Some (i, x) \<Rightarrow>
          (let y = claimed_row holder lease now (be_current_db_epoch db) x; db1 = set_item i (\<lambda>_. y) db
           in if wi_effect_class y = NonIdempotentExternal \<and> wi_outcome_unknown y
              then (None, set_item i (\<lambda>z. z\<lparr>wi_state := ''paused'', wi_pause_reason := Some ''outcome_unknown'', wi_holder := None,
                                            wi_lease_until := None\<rparr>) db1)
              else (Some \<lparr>rn_Item = item_of i y, rn_job = the (map_of jobs (wi_job y)), rn_epoch = wi_epoch y,
                          rn_gen = wi_generation y, rn_tl = wi_timeline y, rn_completed = False\<rparr>, db1)))"

section \<open>Runs\<close>

datatype work_error = ErrLost | TxFailed string

definition guard :: "'c Run \<Rightarrow> int \<times> int \<Rightarrow> work_item \<Rightarrow> bool" where
  "guard r e x \<longleftrightarrow>
     wi_state x = ''running'' \<and> wi_epoch x = rn_epoch r \<and> wi_generation x = rn_gen r \<and> wi_timeline x = rn_tl r \<and>
     (wi_generation x, wi_timeline x) = e"

definition exec :: "'c Run \<Rightarrow> (work_item \<Rightarrow> work_item) \<Rightarrow> 'c effect \<Rightarrow> 'c work_db \<Rightarrow> work_error + 'c work_db" where
  "exec r set' fn db =
     (case map_of (be_work_item db) (it_ID (rn_Item r)) of
        None \<Rightarrow> Inl ErrLost
      | Some x \<Rightarrow>
          if \<not> guard r (be_current_db_epoch db) x then Inl ErrLost
          else case fn (wk_component db) of
            Inl e \<Rightarrow> Inl (TxFailed e)
          | Inr c \<Rightarrow> Inr ((set_item (it_ID (rn_Item r)) set' db)\<lparr>wk_component := c\<rparr>))"

text \<open>No writes of the component.\<close>

abbreviation (input) no_effect :: "'c effect" where "no_effect \<equiv> Inr"

definition released :: "work_item \<Rightarrow> work_item" where
  "released x = x\<lparr>wi_holder := None, wi_lease_until := None\<rparr>"

definition completed_row :: "'c Run \<Rightarrow> string \<Rightarrow> instant \<Rightarrow> work_item \<Rightarrow> work_item" where
  "completed_row r op now x =
     (let y = released (x\<lparr>wi_outcome_unknown := False, wi_waiting_since := None\<rparr>)
      in if it_Kind (rn_Item r) = Singleton
         then y\<lparr>wi_state := ''pending'', wi_attempts := 0, wi_progress := None, wi_operation_id := op,
                wi_run_at := now + j_Interval (rn_job r)\<rparr>
         else y\<lparr>wi_state := ''done'', wi_finished_at := Some now\<rparr>)"

definition Complete :: "'c Run \<Rightarrow> string \<Rightarrow> 'c effect \<Rightarrow> instant \<Rightarrow> 'c work_db \<Rightarrow> work_error + 'c Run \<times> 'c work_db" where
  "Complete r op fn now db =
     (case exec r (completed_row r op now) fn db of Inl e \<Rightarrow> Inl e | Inr db1 \<Rightarrow> Inr (r\<lparr>rn_completed := True\<rparr>, db1))"

definition BeforeCall :: "'c Run \<Rightarrow> 'c work_db \<Rightarrow> work_error + 'c work_db" where
  "BeforeCall r db = exec r (\<lambda>x. x\<lparr>wi_outcome_unknown := True\<rparr>) no_effect db"

definition SubKey :: "'c Run \<Rightarrow> string \<Rightarrow> string" where
  "SubKey r name = it_OperationID (rn_Item r) @ '':'' @ name"

definition RecordCall :: "'c Run \<Rightarrow> string \<Rightarrow> string \<Rightarrow> 'c work_db \<Rightarrow> work_error + 'c Run \<times> 'c work_db" where
  "RecordCall r key result db =
     (case exec r (\<lambda>x. x\<lparr>wi_call_results := AList.update key result (wi_call_results x)\<rparr>) no_effect db of
        Inl e \<Rightarrow> Inl e
      | Inr db1 \<Rightarrow>
          Inr (r\<lparr>rn_Item := (rn_Item r)\<lparr>it_CallResults := AList.update key result (it_CallResults (rn_Item r))\<rparr>\<rparr>, db1))"

definition Checkpoint ::
  "'c Run \<Rightarrow> string \<Rightarrow> string \<Rightarrow> 'c effect \<Rightarrow> 'c work_db \<Rightarrow> work_error + 'c Run \<times> 'c work_db" where
  "Checkpoint r progress nxt fn db =
     (case exec r (\<lambda>x. x\<lparr>wi_progress := Some progress, wi_operation_id := nxt, wi_call_results := []\<rparr>) fn db of
        Inl e \<Rightarrow> Inl e
      | Inr db1 \<Rightarrow>
          Inr (r\<lparr>rn_Item := (rn_Item r)\<lparr>it_Progress := Some progress, it_OperationID := nxt, it_CallResults := []\<rparr>\<rparr>, db1))"

definition renew_lease :: "'c Run \<Rightarrow> duration \<Rightarrow> instant \<Rightarrow> 'c work_db \<Rightarrow> work_error + 'c work_db" where
  "renew_lease r lease now db = exec r (\<lambda>x. x\<lparr>wi_lease_until := Some (now + lease)\<rparr>) no_effect db"

definition give_back :: "'c Run \<Rightarrow> instant \<Rightarrow> 'c work_db \<Rightarrow> work_error + 'c work_db" where
  "give_back r now db = exec r (\<lambda>x. x\<lparr>wi_lease_until := Some now, wi_attempts := wi_attempts x - 1\<rparr>) no_effect db"

section \<open>Failures\<close>

text \<open>An error of these statements is logged or ignored: the tables stay as they are.\<close>

definition or_same :: "'c work_db \<Rightarrow> work_error + 'c work_db \<Rightarrow> 'c work_db" where
  "or_same db res = (case res of Inl _ \<Rightarrow> db | Inr db1 \<Rightarrow> db1)"

definition dead :: "'c Run \<Rightarrow> string \<Rightarrow> instant \<Rightarrow> 'c work_db \<Rightarrow> 'c work_db" where
  "dead r msg now db =
     or_same db (exec r (\<lambda>x. released (x\<lparr>wi_state := ''dead'', wi_outcome_unknown := False, wi_last_error := Some msg,
                                         wi_finished_at := Some now\<rparr>))
       (case j_DeadLetter (rn_job r) of None \<Rightarrow> no_effect | Some f \<Rightarrow> f (rn_Item r) msg) db)"

text \<open>The reads of \<open>fail\<close>, which count as false when they fail.\<close>

definition unknown :: "bool \<Rightarrow> 'c Run \<Rightarrow> 'c work_db \<Rightarrow> bool" where
  "unknown readable r db \<longleftrightarrow>
     readable \<and> (case map_of (be_work_item db) (it_ID (rn_Item r)) of None \<Rightarrow> False | Some x \<Rightarrow> wi_outcome_unknown x)"

definition waited_out :: "bool \<Rightarrow> 'c Run \<Rightarrow> instant \<Rightarrow> 'c work_db \<Rightarrow> bool" where
  "waited_out readable r now db \<longleftrightarrow>
     readable \<and> (case map_of (be_work_item db) (it_ID (rn_Item r)) of
                   None \<Rightarrow> False
                 | Some x \<Rightarrow> (case wi_waiting_since x of None \<Rightarrow> False | Some t \<Rightarrow> t < now - j_MaxWait (rn_job r)))"

definition waiting_row :: "string \<Rightarrow> instant \<Rightarrow> work_item \<Rightarrow> work_item" where
  "waiting_row msg now x =
     (let since = (case wi_waiting_since x of None \<Rightarrow> now | Some t \<Rightarrow> t)
      in released (x\<lparr>wi_state := ''retry_wait'', wi_attempts := wi_attempts x - 1, wi_last_error := Some msg,
                     wi_waiting_since := Some since,
                     wi_run_at := now + min WorkBackoffCap (max WorkBackoffStart (now - since))\<rparr>))"

definition paused_row :: "string \<Rightarrow> work_item \<Rightarrow> work_item" where
  "paused_row msg x =
     released (x\<lparr>wi_state := ''paused'', wi_pause_reason := Some ''outcome_unknown'', wi_last_error := Some msg\<rparr>)"

definition retry_row :: "string \<Rightarrow> instant \<Rightarrow> work_item \<Rightarrow> work_item" where
  "retry_row msg at' x =
     released (x\<lparr>wi_state := ''retry_wait'', wi_outcome_unknown := False, wi_last_error := Some msg, wi_run_at := at'\<rparr>)"

definition fail :: "bool \<Rightarrow> 'c Run \<Rightarrow> handler_error \<Rightarrow> instant \<Rightarrow> 'c work_db \<Rightarrow> 'c work_db" where
  "fail readable r cause now db =
     (let msg = message_of cause; k = kindOf cause
      in if k = ''wait'' then
           (if j_MaxWait (rn_job r) > 0 \<and> waited_out readable r now db
            then dead r (''waited longer than the limit: '' @ msg) now db
            else or_same db (exec r (waiting_row msg now) no_effect db))
         else if k = ''permanent'' then dead r msg now db
         else if j_Effect (rn_job r) = NonIdempotentExternal \<and> k \<noteq> ''not_effective'' \<and> unknown readable r db
         then or_same db (exec r (paused_row msg) no_effect db)
         else if it_Attempts (rn_Item r) \<ge> it_MaxAttempts (rn_Item r) then dead r msg now db
         else or_same db (exec r (retry_row msg (now + work_backoff (it_Attempts (rn_Item r)))) no_effect db))"

text \<open>
  The end of a run: how the handler returned, and whether the runner stops, the context ended or
  its deadline passed.
\<close>

definition run_end ::
  "bool \<Rightarrow> 'c Run \<Rightarrow> bool \<Rightarrow> bool \<Rightarrow> bool \<Rightarrow> bool \<Rightarrow> handler_error option \<Rightarrow> string \<Rightarrow> instant \<Rightarrow> 'c work_db \<Rightarrow> 'c work_db" where
  "run_end readable r stopping lost ended timedOut err op now db =
     (if stopping then or_same db (give_back r now db)
      else if lost \<or> (ended \<and> \<not> timedOut \<and> \<not> rn_completed r) then db
      else case (if timedOut \<and> \<not> rn_completed r then Some (Plain ''the run passed its deadline'') else err) of
        None \<Rightarrow> if rn_completed r then db else (case Complete r op no_effect now db of Inl _ \<Rightarrow> db | Inr (_, db1) \<Rightarrow> db1)
      | Some cause \<Rightarrow> fail readable r cause now db)"

section \<open>Operators and the cleanup\<close>

text \<open>\<open>None\<close> is the refusal of an action whose guard does not hold.\<close>

definition operate :: "string \<Rightarrow> (work_item \<Rightarrow> bool) \<Rightarrow> (work_item \<Rightarrow> work_item) \<Rightarrow> 'c work_db \<Rightarrow> 'c work_db option" where
  "operate i allowed set' db =
     (case map_of (be_work_item db) i of
        None \<Rightarrow> None
      | Some x \<Rightarrow> if allowed x then Some (set_item i set' db) else None)"

definition requeue_allowed :: "bool \<Rightarrow> work_item \<Rightarrow> bool" where
  "requeue_allowed verified x \<longleftrightarrow>
     (wi_state x = ''dead'' \<and> \<not> wi_outcome_unknown x) \<or>
     (wi_state x = ''paused'' \<and> (wi_pause_reason x = Some ''backlog_exceeded'' \<or> wi_pause_reason x = Some ''business_hold'')) \<or>
     (wi_state x = ''paused'' \<and> wi_pause_reason x = Some ''outcome_unknown'' \<and> verified)"

definition Requeue :: "string \<Rightarrow> bool \<Rightarrow> instant \<Rightarrow> 'c work_db \<Rightarrow> 'c work_db option" where
  "Requeue i verified now db =
     operate i (requeue_allowed verified)
       (\<lambda>x. released (x\<lparr>wi_state := ''pending'', wi_pause_reason := None, wi_attempts := 0, wi_run_at := now, wi_outcome_unknown := False\<rparr>)) db"

definition Resolve :: "string \<Rightarrow> string \<Rightarrow> instant \<Rightarrow> 'c work_db \<Rightarrow> 'c work_db option" where
  "Resolve i reason now db =
     operate i (\<lambda>x. wi_state x = ''dead'' \<or> wi_state x = ''paused'')
       (\<lambda>x. x\<lparr>wi_state := ''resolved'', wi_pause_reason := None, wi_result := Some reason, wi_finished_at := Some now\<rparr>) db"

definition Hold :: "string \<Rightarrow> 'c work_db \<Rightarrow> 'c work_db option" where
  "Hold i db =
     operate i (\<lambda>x. wi_state x = ''pending'' \<or> wi_state x = ''retry_wait'')
       (\<lambda>x. x\<lparr>wi_state := ''paused'', wi_pause_reason := Some ''business_hold''\<rparr>) db"

abbreviation (input) QueueRetention :: duration where "QueueRetention \<equiv> 168 * Hour"
abbreviation (input) CronRetention :: duration where "CronRetention \<equiv> 720 * Hour"

definition finished_before :: "work_item \<Rightarrow> instant \<Rightarrow> bool" where
  "finished_before x t = (case wi_finished_at x of None \<Rightarrow> False | Some f \<Rightarrow> f < t)"

definition purgeable :: "instant \<Rightarrow> 'c work_db \<Rightarrow> work_item \<Rightarrow> bool" where
  "purgeable now db x \<longleftrightarrow>
     (wi_state x = ''done'' \<or> wi_state x = ''resolved'') \<and>
     ((wi_kind x = Queue \<and> finished_before x (now - QueueRetention)) \<or>
      (wi_kind x = CronKind \<and> finished_before x (now - CronRetention) \<and>
       (case map_of (be_cron_watermark db) (wi_job x) of None \<Rightarrow> False | Some (m, _) \<Rightarrow> wi_run_at x \<le> m)))"

text \<open>One batch, and the batches of a cleanup beside nobody else's changes.\<close>

definition purge_batch :: "(string \<Rightarrow> bool) \<Rightarrow> instant \<Rightarrow> 'c work_db \<Rightarrow> nat \<times> 'c work_db" where
  "purge_batch locked now db =
     (case delete_some (\<lambda>(i, x). purgeable now db x \<and> \<not> locked i) (be_work_item db) of
        (n, rows) \<Rightarrow> (n, db\<lparr>be_work_item := rows\<rparr>))"

definition Purge :: "(nat \<Rightarrow> string \<Rightarrow> bool) \<Rightarrow> (nat \<Rightarrow> instant) \<Rightarrow> 'c work_db \<Rightarrow> nat \<times> 'c work_db" where
  "Purge locked clock db =
     (case DeleteInBatches (\<lambda>k (i, x). purgeable (clock k) db x \<and> \<not> locked k i) 0 0 (be_work_item db) of
        (n, rows) \<Rightarrow> (n, db\<lparr>be_work_item := rows\<rparr>))"

end
