(* ===== verification/Work_Correct.thy ===== *)
theory Work_Correct
  imports Work
begin

text \<open>
  What the epochs of work items guarantee. The runner's goroutines, the operators and the cleanup
  are a step relation on the tables; a log records insertions, claims handed out, calls marked as
  possibly sent, marks cleared and items done. The invariant of the reachable states ties each
  row to the log.
\<close>

section \<open>The step relation\<close>

datatype clear_cause = ByCompletion | ByOperator bool | ByEnd bool handler_error

datatype work_entry =
    Inserted string string
  | Claimed string int
  | Called string
  | Cleared string clear_cause
  | Done string

record 'c work_state =
  ws_db :: "'c work_db"
  ws_clock :: instant
  ws_runs :: "'c Run list"
  ws_log :: "work_entry list"

text \<open>What a step did to one row.\<close>

definition changes_of :: "clear_cause \<Rightarrow> string \<Rightarrow> work_item \<Rightarrow> work_item \<Rightarrow> work_entry list" where
  "changes_of why i x y =
     (if wi_outcome_unknown x \<and> \<not> wi_outcome_unknown y then [Cleared i why] else []) @
     (if wi_state x \<noteq> ''done'' \<and> wi_state y = ''done'' then [Done i] else [])"

definition row_changes :: "clear_cause \<Rightarrow> string \<Rightarrow> 'c work_db \<Rightarrow> 'c work_db \<Rightarrow> work_entry list" where
  "row_changes why i db db' =
     (case (map_of (be_work_item db) i, map_of (be_work_item db') i) of
        (Some x, Some y) \<Rightarrow> changes_of why i x y
      | _ \<Rightarrow> [])"

definition new_ids :: "'c work_db \<Rightarrow> 'c work_db \<Rightarrow> string list" where
  "new_ids db db' = filter (\<lambda>i. map_of (be_work_item db) i = None) (map fst (be_work_item db'))"

text \<open>A call is marked for an item that must not be sent twice.\<close>

definition call_mark :: "string \<Rightarrow> 'c work_db \<Rightarrow> work_entry list" where
  "call_mark i db =
     (case map_of (be_work_item db) i of
        None \<Rightarrow> []
      | Some x \<Rightarrow> if wi_effect_class x = NonIdempotentExternal then [Called i] else [])"

definition end_cause :: "'c Run \<Rightarrow> bool \<Rightarrow> bool \<Rightarrow> handler_error option \<Rightarrow> clear_cause" where
  "end_cause r readable timedOut err =
     (case (if timedOut \<and> \<not> rn_completed r then Some (Plain ''the run passed its deadline'') else err) of
        None \<Rightarrow> ByCompletion
      | Some c \<Rightarrow> ByEnd readable c)"

abbreviation (input) run_id :: "'c Run \<Rightarrow> string" where "run_id r \<equiv> it_ID (rn_Item r)"

text \<open>
  A commit of a run changes its row, or leaves the state as it was when the claim was lost or the
  transaction failed. The identity of an enqueued item is new.
\<close>

inductive work_step :: "(string \<times> 'c Job) list \<Rightarrow> work_item \<Rightarrow> 'c work_state \<Rightarrow> 'c work_state \<Rightarrow> bool" for jobs blank where
  enqueue: "EnqueueAt jobs blank new job args at' now (ws_db st) = Some db' \<Longrightarrow> ws_clock st \<le> now \<Longrightarrow>
    CHR ''@'' \<notin> set new \<Longrightarrow> new \<notin> fst ` set jobs \<Longrightarrow> (\<And>k. Inserted new k \<notin> set (ws_log st)) \<Longrightarrow>
    work_step jobs blank st (st\<lparr>ws_db := db', ws_clock := now, ws_log := Inserted new Queue # ws_log st\<rparr>)"
| singleton: "ensureSingleton blank op j (ws_db st) = db' \<Longrightarrow> (j_Name j, j) \<in> set jobs \<Longrightarrow> j_Kind j = Singleton \<Longrightarrow>
    work_step jobs blank st (st\<lparr>ws_db := db', ws_log := map (\<lambda>i. Inserted i Singleton) (new_ids (ws_db st) db') @ ws_log st\<rparr>)"
| materialize: "materialize blank ops j now (ws_db st) = (res, db') \<Longrightarrow> ws_clock st \<le> now \<Longrightarrow> (j_Name j, j) \<in> set jobs \<Longrightarrow> j_Kind j = CronKind \<Longrightarrow>
    work_step jobs blank st (st\<lparr>ws_db := db', ws_clock := now, ws_log := map (\<lambda>i. Inserted i CronKind) (new_ids (ws_db st) db') @ ws_log st\<rparr>)"
| claim: "claim jobs names holder lease locked now (ws_db st) = (run, db') \<Longrightarrow> ws_clock st \<le> now \<Longrightarrow> set names \<subseteq> fst ` set jobs \<Longrightarrow>
    work_step jobs blank st (st\<lparr>ws_db := db', ws_clock := now,
      ws_runs := (case run of None \<Rightarrow> [] | Some r \<Rightarrow> [r]) @ ws_runs st,
      ws_log := (case run of None \<Rightarrow> [] | Some r \<Rightarrow> [Claimed (run_id r) (rn_epoch r)]) @ ws_log st\<rparr>)"
| complete: "r \<in> set (ws_runs st) \<Longrightarrow> Complete r op fn now (ws_db st) = Inr (r', db') \<Longrightarrow> ws_clock st \<le> now \<Longrightarrow>
    work_step jobs blank st (st\<lparr>ws_db := db', ws_clock := now, ws_runs := r' # ws_runs st,
      ws_log := row_changes ByCompletion (run_id r) (ws_db st) db' @ ws_log st\<rparr>)"
| before_call: "r \<in> set (ws_runs st) \<Longrightarrow> BeforeCall r (ws_db st) = Inr db' \<Longrightarrow>
    work_step jobs blank st (st\<lparr>ws_db := db', ws_log := call_mark (run_id r) db' @ ws_log st\<rparr>)"
| record_call: "r \<in> set (ws_runs st) \<Longrightarrow> RecordCall r key result (ws_db st) = Inr (r', db') \<Longrightarrow>
    work_step jobs blank st (st\<lparr>ws_db := db', ws_runs := r' # ws_runs st\<rparr>)"
| checkpoint: "r \<in> set (ws_runs st) \<Longrightarrow> Checkpoint r progress op fn (ws_db st) = Inr (r', db') \<Longrightarrow>
    work_step jobs blank st (st\<lparr>ws_db := db', ws_runs := r' # ws_runs st\<rparr>)"
| renew: "r \<in> set (ws_runs st) \<Longrightarrow> renew_lease r lease now (ws_db st) = Inr db' \<Longrightarrow> ws_clock st \<le> now \<Longrightarrow>
    work_step jobs blank st (st\<lparr>ws_db := db', ws_clock := now\<rparr>)"
| run_end: "r \<in> set (ws_runs st) \<Longrightarrow> run_end readable r stopping lost ended timedOut err op now (ws_db st) = db' \<Longrightarrow> ws_clock st \<le> now \<Longrightarrow>
    work_step jobs blank st (st\<lparr>ws_db := db', ws_clock := now,
      ws_log := row_changes (end_cause r readable timedOut err) (run_id r) (ws_db st) db' @ ws_log st\<rparr>)"
| requeue: "Requeue i verified now (ws_db st) = Some db' \<Longrightarrow> ws_clock st \<le> now \<Longrightarrow>
    work_step jobs blank st (st\<lparr>ws_db := db', ws_clock := now, ws_log := row_changes (ByOperator verified) i (ws_db st) db' @ ws_log st\<rparr>)"
| resolve: "Resolve i reason now (ws_db st) = Some db' \<Longrightarrow> ws_clock st \<le> now \<Longrightarrow>
    work_step jobs blank st (st\<lparr>ws_db := db', ws_clock := now\<rparr>)"
| hold: "Hold i (ws_db st) = Some db' \<Longrightarrow> work_step jobs blank st (st\<lparr>ws_db := db'\<rparr>)"
| purge: "purge_batch locked now (ws_db st) = (n, db') \<Longrightarrow> ws_clock st \<le> now \<Longrightarrow>
    work_step jobs blank st (st\<lparr>ws_db := db', ws_clock := now\<rparr>)"
| epoch: "work_step jobs blank st (st\<lparr>ws_db := (ws_db st)\<lparr>be_current_db_epoch := e\<rparr>\<rparr>)"
| component: "work_step jobs blank st (st\<lparr>ws_db := (ws_db st)\<lparr>wk_component := c\<rparr>\<rparr>)"

inductive work_reachable :: "(string \<times> 'c Job) list \<Rightarrow> work_item \<Rightarrow> 'c work_state \<Rightarrow> bool" for jobs blank where
  start: "be_work_item db = [] \<Longrightarrow> be_cron_watermark db = [] \<Longrightarrow>
    work_reachable jobs blank \<lparr>ws_db = db, ws_clock = t, ws_runs = [], ws_log = []\<rparr>"
| step: "work_reachable jobs blank st \<Longrightarrow> work_step jobs blank st st' \<Longrightarrow> work_reachable jobs blank st'"

text \<open>What is relied on of the declarations: names are distinct and without the separator of slot items.\<close>

definition jobs_ok :: "(string \<times> 'c Job) list \<Rightarrow> bool" where
  "jobs_ok jobs \<longleftrightarrow> distinct (map fst jobs) \<and> list_all (\<lambda>(n, j). j_Name j = n \<and> CHR ''@'' \<notin> set n) jobs"

text \<open>Jobs declared through \<open>Add\<close> are like this when no name has the separator.\<close>

lemma runner_Add_jobs_ok:
  assumes "runner_Add L js (jobs, names) = Some (jobs', names')" "jobs_ok jobs" "\<forall>j\<in>set js. CHR ''@'' \<notin> set (j_Name j)"
  shows "jobs_ok jobs'"
  using assms
proof (induction js arbitrary: jobs names)
  case (Cons j js)
  then obtain p where p: "prepare L j = Some p" "map_of jobs (j_Name p) = None"
    by (auto split: option.splits if_splits)
  have "j_Name p = j_Name j"
    using p(1) by (auto simp: prepare_def Let_def split: if_splits option.splits)
  then have "jobs_ok (jobs @ [(j_Name p, p)])"
    using Cons.prems p(2) by (auto simp: jobs_ok_def map_of_eq_None_iff)
  then show ?case
    using Cons.IH Cons.prems p by (simp split: if_splits)
qed simp

section \<open>Reading the log\<close>

fun entry_id :: "work_entry \<Rightarrow> string" where
  "entry_id (Inserted i _) = i"
| "entry_id (Claimed i _) = i"
| "entry_id (Called i) = i"
| "entry_id (Cleared i _) = i"
| "entry_id (Done i) = i"

fun latest_claim :: "string \<Rightarrow> work_entry list \<Rightarrow> int option" where
  "latest_claim i [] = None"
| "latest_claim i (Claimed k e # l) = (if k = i then Some e else latest_claim i l)"
| "latest_claim i (_ # l) = latest_claim i l"

text \<open>Whether the last call mark of an item still stands.\<close>

fun call_open :: "string \<Rightarrow> work_entry list \<Rightarrow> bool" where
  "call_open i [] = False"
| "call_open i (Called k # l) = (k = i \<or> call_open i l)"
| "call_open i (Cleared k _ # l) = (k \<noteq> i \<and> call_open i l)"
| "call_open i (_ # l) = call_open i l"

fun inserted_ids :: "work_entry list \<Rightarrow> string list" where
  "inserted_ids [] = []"
| "inserted_ids (Inserted i _ # l) = i # inserted_ids l"
| "inserted_ids (_ # l) = inserted_ids l"

lemma inserted_ids_iff: "i \<in> set (inserted_ids l) \<longleftrightarrow> (\<exists>k. Inserted i k \<in> set l)"
  by (induction l rule: inserted_ids.induct) auto

lemma inserted_ids_append [simp]: "inserted_ids (xs @ ys) = inserted_ids xs @ inserted_ids ys"
  by (induction xs rule: inserted_ids.induct) auto

lemma entries_of_others:
  assumes "\<forall>e\<in>set es. entry_id e \<noteq> i"
  shows "latest_claim i (es @ l) = latest_claim i l" "call_open i (es @ l) = call_open i l"
    "Claimed i e \<in> set (es @ l) \<longleftrightarrow> Claimed i e \<in> set l" "Done i \<in> set (es @ l) \<longleftrightarrow> Done i \<in> set l"
proof -
  have "\<forall>e\<in>set es. entry_id e \<noteq> i \<Longrightarrow> latest_claim i (es @ l) = latest_claim i l \<and> call_open i (es @ l) = call_open i l"
  proof (induction es)
    case (Cons e es)
    then show ?case by (cases e) auto
  qed simp
  then show "latest_claim i (es @ l) = latest_claim i l" "call_open i (es @ l) = call_open i l"
    using assms by auto
  show "Claimed i e \<in> set (es @ l) \<longleftrightarrow> Claimed i e \<in> set l" "Done i \<in> set (es @ l) \<longleftrightarrow> Done i \<in> set l"
    using assms by force+
qed

lemma no_entries:
  assumes "\<forall>e\<in>set l. entry_id e \<noteq> i"
  shows "latest_claim i l = None" "\<not> call_open i l" "Claimed i e \<notin> set l" "Done i \<notin> set l"
  using entries_of_others [OF assms, where l = "[]"] by simp_all

section \<open>The invariant\<close>

text \<open>A row and the log: claims never run ahead of the epoch, a running item belongs to the latest claim, an item that was done stays done, and an open call mark is in the row.\<close>

definition row_ok :: "work_entry list \<Rightarrow> string \<Rightarrow> work_item \<Rightarrow> bool" where
  "row_ok l i x \<longleftrightarrow>
     (\<forall>e. Claimed i e \<in> set l \<longrightarrow> e \<le> wi_epoch x) \<and>
     (wi_state x = ''running'' \<longrightarrow> latest_claim i l = Some (wi_epoch x)) \<and>
     (Done i \<in> set l \<longrightarrow> wi_state x = ''done'') \<and>
     (call_open i l \<longrightarrow> wi_outcome_unknown x \<and> wi_effect_class x = NonIdempotentExternal)"

definition effect_ok :: "(string \<times> 'c Job) list \<Rightarrow> work_item \<Rightarrow> bool" where
  "effect_ok jobs x \<longleftrightarrow> (\<exists>j. map_of jobs (wi_job x) = Some j \<and> wi_effect_class x = j_Effect j)"

text \<open>Where an identity comes from; a slot is behind its job's watermark.\<close>

definition slot_behind :: "(string \<times> 'c Job) list \<Rightarrow> (string \<times> instant \<times> string option) list \<Rightarrow> string \<Rightarrow> bool" where
  "slot_behind jobs marks i \<longleftrightarrow>
     (\<exists>j sl a u m. (j_Name j, j) \<in> set jobs \<and> i = slot_item_id j sl \<and> sl \<in> set (Slots (j_schedule j) (j_loc j) a u) \<and>
                   map_of marks (j_Name j) = Some m \<and> sl_At sl \<le> fst m)"

definition id_ok :: "(string \<times> 'c Job) list \<Rightarrow> (string \<times> instant \<times> string option) list \<Rightarrow> string \<Rightarrow> string \<Rightarrow> bool" where
  "id_ok jobs marks i k \<longleftrightarrow>
     k = Queue \<and> CHR ''@'' \<notin> set i \<and> i \<notin> fst ` set jobs \<or> k = Singleton \<and> i \<in> fst ` set jobs \<or> k = CronKind \<and> slot_behind jobs marks i"

definition ids_ok :: "(string \<times> 'c Job) list \<Rightarrow> 'c work_db \<Rightarrow> work_entry list \<Rightarrow> bool" where
  "ids_ok jobs db l \<longleftrightarrow>
     distinct (map fst (be_work_item db)) \<and> distinct (inserted_ids l) \<and>
     (\<forall>e\<in>set l. entry_id e \<in> set (inserted_ids l)) \<and>
     (\<forall>i. Inserted i Singleton \<in> set l \<longrightarrow> map_of (be_work_item db) i \<noteq> None) \<and>
     (\<forall>i k. Inserted i k \<in> set l \<longrightarrow> id_ok jobs (be_cron_watermark db) i k)"

definition rows_ok :: "(string \<times> 'c Job) list \<Rightarrow> 'c work_db \<Rightarrow> work_entry list \<Rightarrow> bool" where
  "rows_ok jobs db l \<longleftrightarrow>
     (\<forall>i x. map_of (be_work_item db) i = Some x \<longrightarrow> Inserted i (wi_kind x) \<in> set l \<and> row_ok l i x \<and> effect_ok jobs x)"

definition runs_ok :: "'c work_db \<Rightarrow> 'c Run list \<Rightarrow> work_entry list \<Rightarrow> bool" where
  "runs_ok db runs l \<longleftrightarrow>
     (\<forall>r\<in>set runs. run_id r \<in> set (inserted_ids l) \<and>
        (\<forall>x. map_of (be_work_item db) (run_id r) = Some x \<longrightarrow> j_Effect (rn_job r) = wi_effect_class x))"

definition work_ok :: "(string \<times> 'c Job) list \<Rightarrow> 'c work_db \<Rightarrow> 'c Run list \<Rightarrow> work_entry list \<Rightarrow> bool" where
  "work_ok jobs db runs l \<longleftrightarrow> ids_ok jobs db l \<and> rows_ok jobs db l \<and> runs_ok db runs l"

lemma row_ok_others: "\<forall>e\<in>set es. entry_id e \<noteq> i \<Longrightarrow> row_ok (es @ l) i x = row_ok l i x"
  using entries_of_others [of es i] by (simp add: row_ok_def)

subsection \<open>One row changes\<close>

lemma work_ok_update:
  assumes ok: "work_ok jobs db runs l" and x: "map_of (be_work_item db) i = Some x"
    and items: "be_work_item db' = AList.map_entry i f (be_work_item db)" "be_cron_watermark db' = be_cron_watermark db"
    and same: "wi_kind (f x) = wi_kind x" "wi_job (f x) = wi_job x" "wi_effect_class (f x) = wi_effect_class x"
    and es: "\<forall>e\<in>set es. entry_id e = i" "inserted_ids es = []"
    and row: "row_ok (es @ l) i (f x)"
  shows "work_ok jobs db' runs (es @ l)"
proof -
  have rows: "map_of (be_work_item db') = (map_of (be_work_item db))(i \<mapsto> f x)"
    using x by (auto simp: items(1) map_of_map_entry)
  have ins: "Inserted k n \<notin> set es" for k n
    using es(2) inserted_ids_iff [of k es] by auto
  have "distinct (map fst (be_work_item db'))"
    using ok by (simp add: items(1) work_ok_def ids_ok_def)
  moreover have "i \<in> set (inserted_ids l)"
    using ok x by (auto simp: work_ok_def rows_ok_def inserted_ids_iff)
  ultimately have "ids_ok jobs db' (es @ l)"
    using ok es by (auto simp: work_ok_def ids_ok_def rows ins items(2) simp del: map_of_eq_Some_iff)
  moreover have "rows_ok jobs db' (es @ l)"
    using ok x row same row_ok_others [of es] es(1) by (auto simp: work_ok_def rows_ok_def rows ins effect_ok_def simp del: map_of_eq_Some_iff)
  moreover have "runs_ok db' runs (es @ l)"
    using ok x same by (auto simp: work_ok_def runs_ok_def rows es(2))
  ultimately show ?thesis by (simp add: work_ok_def)
qed

text \<open>A change that is not a claim: the epoch stays, an item does not start to run, and done is final.\<close>

definition quiet :: "work_item \<Rightarrow> work_item \<Rightarrow> bool" where
  "quiet x y \<longleftrightarrow>
     wi_kind y = wi_kind x \<and> wi_job y = wi_job x \<and> wi_effect_class y = wi_effect_class x \<and> wi_epoch y = wi_epoch x \<and>
     (wi_state y = ''running'' \<longrightarrow> wi_state x = ''running'') \<and> (wi_state x = ''done'' \<longrightarrow> wi_state y = ''done'')"

lemma quiet_row_ok:
  assumes "row_ok l i x" "quiet x y"
  shows "row_ok (changes_of why i x y @ l) i y"
  using assms by (auto simp: row_ok_def quiet_def changes_of_def)

lemma work_ok_quiet:
  assumes ok: "work_ok jobs db runs l" and x: "map_of (be_work_item db) i = Some x"
    and items: "be_work_item db' = AList.map_entry i f (be_work_item db)" "be_cron_watermark db' = be_cron_watermark db"
    and quiet: "quiet x (f x)"
  shows "work_ok jobs db' runs (row_changes why i db db' @ l)"
proof -
  have "map_of (be_work_item db') i = Some (f x)"
    using x by (simp add: items(1) map_of_map_entry)
  then have eq: "row_changes why i db db' = changes_of why i x (f x)"
    using x by (simp add: row_changes_def)
  have "row_ok l i x"
    using ok x by (simp add: work_ok_def rows_ok_def)
  then have "row_ok (changes_of why i x (f x) @ l) i (f x)"
    using quiet by (rule quiet_row_ok)
  moreover have "\<forall>e\<in>set (changes_of why i x (f x)). entry_id e = i" "inserted_ids (changes_of why i x (f x)) = []"
    by (auto simp: changes_of_def)
  ultimately show ?thesis
    using work_ok_update [OF ok x items] quiet by (simp add: eq quiet_def)
qed

subsection \<open>Commits of a run\<close>

lemma exec_Inr:
  assumes "exec r f fn db = Inr db'"
  obtains x where "map_of (be_work_item db) (run_id r) = Some x" "guard r (be_current_db_epoch db) x"
    "be_work_item db' = AList.map_entry (run_id r) f (be_work_item db)" "be_cron_watermark db' = be_cron_watermark db"
  using assms by (auto simp: exec_def set_item_def split: option.splits if_splits sum.splits)

lemma exec_rows:
  assumes "exec r f fn db = Inr db'" "map_of (be_work_item db) (run_id r) = Some x"
  shows "map_of (be_work_item db') (run_id r) = Some (f x)"
  using assms by (elim exec_Inr) (simp add: map_of_map_entry)

text \<open>Committing as a run: nothing changes, or its row changes under the guard.\<close>

definition commits :: "'c Run \<Rightarrow> 'c work_db \<Rightarrow> 'c work_db \<Rightarrow> bool" where
  "commits r db db' \<longleftrightarrow>
     db' = db \<or> (\<exists>f fn. exec r f fn db = Inr db' \<and> (\<forall>x. wi_state x = ''running'' \<longrightarrow> quiet x (f x)))"

lemma commits_ok:
  assumes "work_ok jobs db runs l" "commits r db db'"
  shows "work_ok jobs db' runs (row_changes why (run_id r) db db' @ l)"
proof (cases "db' = db")
  case True
  then show ?thesis
    using assms(1) by (simp add: row_changes_def changes_of_def split: option.splits)
next
  case False
  then obtain f fn where f: "exec r f fn db = Inr db'" "\<forall>x. wi_state x = ''running'' \<longrightarrow> quiet x (f x)"
    using assms(2) by (auto simp: commits_def)
  from f(1) show ?thesis
  proof (rule exec_Inr)
    fix x
    assume "map_of (be_work_item db) (run_id r) = Some x" "guard r (be_current_db_epoch db) x"
      "be_work_item db' = AList.map_entry (run_id r) f (be_work_item db)" "be_cron_watermark db' = be_cron_watermark db"
    then show ?thesis
      using f(2) by (intro work_ok_quiet [OF assms(1)]) (auto simp: guard_def)
  qed
qed

lemma commits_exec: "exec r f fn db = Inr db' \<Longrightarrow> (\<And>x. wi_state x = ''running'' \<Longrightarrow> quiet x (f x)) \<Longrightarrow> commits r db db'"
  by (auto simp: commits_def)

lemma commits_or_same: "(\<And>x. wi_state x = ''running'' \<Longrightarrow> quiet x (f x)) \<Longrightarrow> commits r db (or_same db (exec r f fn db))"
  by (auto simp: commits_def or_same_def split: sum.splits)

lemma commits_refl [simp]: "commits r db db"
  by (simp add: commits_def)

lemma dead_commits: "commits r db (dead r msg now db)"
  unfolding dead_def by (rule commits_or_same) (simp add: quiet_def released_def)

lemma fail_commits: "commits r db (fail readable r cause now db)"
  by (auto simp: fail_def Let_def quiet_def released_def waiting_row_def paused_row_def retry_row_def
      intro: dead_commits intro!: commits_or_same)

lemma Complete_commits: "Complete r op fn now db = Inr (r', db') \<Longrightarrow> commits r db db'"
  by (auto simp: Complete_def completed_row_def quiet_def released_def Let_def split: sum.splits intro!: commits_exec)

lemma run_end_commits: "commits r db (run_end readable r stopping lost ended timedOut err op now db)"
proof -
  have "commits r db (or_same db (give_back r now db))"
    unfolding give_back_def by (rule commits_or_same) (simp add: quiet_def)
  then show ?thesis
    by (auto simp: run_end_def fail_commits split: option.splits sum.splits intro: Complete_commits)
qed

text \<open>Commits that neither clear a mark nor finish the item leave nothing in the log.\<close>

lemma silent_ok:
  assumes "work_ok jobs db runs l" "exec r f fn db = Inr db'" "\<And>x. wi_state x = ''running'' \<Longrightarrow> quiet x (f x)"
    and "\<And>x. wi_outcome_unknown (f x) = wi_outcome_unknown x" "\<And>x. wi_state (f x) = wi_state x"
  shows "work_ok jobs db' runs l"
proof -
  have "row_changes ByCompletion (run_id r) db db' = []"
    using assms(2)
  proof (rule exec_Inr)
    fix x
    assume "map_of (be_work_item db) (run_id r) = Some x"
    with exec_rows [OF assms(2) this] show ?thesis
      using assms(4,5) by (simp add: row_changes_def changes_of_def)
  qed
  then show ?thesis
    using commits_ok [OF assms(1), of r db' ByCompletion] commits_exec [OF assms(2)] assms(3) by simp
qed

lemma work_ok_runs:
  assumes "work_ok jobs db runs l" "r \<in> set runs" "run_id r' = run_id r" "rn_job r' = rn_job r"
  shows "work_ok jobs db (r' # runs) l"
  using assms by (auto simp: work_ok_def runs_ok_def)

lemma BeforeCall_ok:
  assumes ok: "work_ok jobs db runs l" and b: "BeforeCall r db = Inr db'"
  shows "work_ok jobs db' runs (call_mark (run_id r) db' @ l)"
proof -
  let ?f = "\<lambda>x::work_item. x\<lparr>wi_outcome_unknown := True\<rparr>"
  have e: "exec r ?f no_effect db = Inr db'"
    using b by (simp add: BeforeCall_def)
  then show ?thesis
  proof (rule exec_Inr)
    fix x
    assume x: "map_of (be_work_item db) (run_id r) = Some x" "be_work_item db' = AList.map_entry (run_id r) ?f (be_work_item db)"
      "be_cron_watermark db' = be_cron_watermark db"
    have mark: "call_mark (run_id r) db' = (if wi_effect_class x = NonIdempotentExternal then [Called (run_id r)] else [])"
      using exec_rows [OF e x(1)] by (simp add: call_mark_def)
    have "row_ok l (run_id r) x"
      using ok x(1) by (simp add: work_ok_def rows_ok_def)
    then have "row_ok (call_mark (run_id r) db' @ l) (run_id r) (?f x)"
      by (auto simp: row_ok_def mark)
    then show ?thesis
      using work_ok_update [OF ok x(1,2,3)] by (auto simp: mark)
  qed
qed

subsection \<open>Operators\<close>

lemma operate_Some:
  assumes "operate i allowed f db = Some db'"
  obtains x where "map_of (be_work_item db) i = Some x" "allowed x"
    "be_work_item db' = AList.map_entry i f (be_work_item db)" "be_cron_watermark db' = be_cron_watermark db"
  using assms by (auto simp: operate_def set_item_def split: option.splits if_splits)

lemma operate_ok:
  assumes "work_ok jobs db runs l" "operate i allowed f db = Some db'" "\<And>x. allowed x \<Longrightarrow> quiet x (f x)"
  shows "work_ok jobs db' runs (row_changes why i db db' @ l)"
  using assms(2) by (rule operate_Some) (use assms in \<open>blast intro: work_ok_quiet\<close>)

lemma operate_silent:
  assumes "work_ok jobs db runs l" "operate i allowed f db = Some db'" "\<And>x. allowed x \<Longrightarrow> quiet x (f x)"
    and "\<And>x. wi_outcome_unknown (f x) = wi_outcome_unknown x" "\<And>x. wi_state (f x) \<noteq> ''done''"
  shows "work_ok jobs db' runs l"
proof -
  have "row_changes ByCompletion i db db' = []"
    using assms(2) by (rule operate_Some) (use assms(4,5) in \<open>simp add: row_changes_def changes_of_def map_of_map_entry\<close>)
  then show ?thesis
    using operate_ok [OF assms(1-3), of ByCompletion] by simp
qed

lemma Requeue_ok: "work_ok jobs db runs l \<Longrightarrow> Requeue i verified now db = Some db' \<Longrightarrow> work_ok jobs db' runs (row_changes why i db db' @ l)"
  unfolding Requeue_def by (erule operate_ok, assumption) (auto simp: requeue_allowed_def quiet_def released_def)

lemma Resolve_ok: "work_ok jobs db runs l \<Longrightarrow> Resolve i reason now db = Some db' \<Longrightarrow> work_ok jobs db' runs l"
  unfolding Resolve_def by (erule operate_silent, assumption) (auto simp: quiet_def)

lemma Hold_ok: "work_ok jobs db runs l \<Longrightarrow> Hold i db = Some db' \<Longrightarrow> work_ok jobs db' runs l"
  unfolding Hold_def by (erule operate_silent, assumption) (auto simp: quiet_def)

subsection \<open>Claims\<close>

lemma first_by_in: "first_by key xs = Some y \<Longrightarrow> y \<in> set xs"
  by (auto simp: first_by_def split: list.splits) (metis list.set_intros(1) set_sort)

lemma candidate_in:
  assumes "candidate names locked now db = Some (i, x)"
  shows "(i, x) \<in> set (be_work_item db) \<and> wi_state x \<noteq> ''done''"
  using assms
  by (auto simp: candidate_def lease_expired_def item_due_def split: option.splits dest!: first_by_in)

lemma map_entry_twice: "AList.map_entry i g (AList.map_entry i f xs) = AList.map_entry i (\<lambda>x. g (f x)) xs"
  by (induction xs) auto

text \<open>What a claim does: nothing, a pause, or a run with the next epoch.\<close>

lemma claim_cases:
  assumes "claim jobs names holder lease locked now db = (run, db')" "distinct (map fst (be_work_item db))"
  obtains "run = None" "db' = db"
  | i x f where "run = None" "map_of (be_work_item db) i = Some x" "be_work_item db' = AList.map_entry i f (be_work_item db)"
      "be_cron_watermark db' = be_cron_watermark db" "wi_state x \<noteq> ''done''"
      "f x = (claimed_row holder lease now (be_current_db_epoch db) x)
               \<lparr>wi_state := ''paused'', wi_pause_reason := Some ''outcome_unknown'', wi_holder := None, wi_lease_until := None\<rparr>"
  | i x f r where "run = Some r" "map_of (be_work_item db) i = Some x" "be_work_item db' = AList.map_entry i f (be_work_item db)"
      "be_cron_watermark db' = be_cron_watermark db" "wi_state x \<noteq> ''done''" "f x = claimed_row holder lease now (be_current_db_epoch db) x"
      "\<not> (wi_effect_class x = NonIdempotentExternal \<and> wi_outcome_unknown x)"
      "run_id r = i" "rn_epoch r = wi_epoch x + 1" "rn_job r = the (map_of jobs (wi_job x))"
proof (cases "names = [] \<or> candidate names locked now db = None")
  case True
  then have "claim jobs names holder lease locked now db = (None, db)"
    by (auto simp: claim_def)
  with assms(1) that(1) show ?thesis by simp
next
  case False
  then obtain i x where c: "candidate names locked now db = Some (i, x)"
    by auto
  then have x: "map_of (be_work_item db) i = Some x" "wi_state x \<noteq> ''done''"
    using candidate_in [OF c] assms(2) by simp_all
  let ?y = "claimed_row holder lease now (be_current_db_epoch db) x"
  have y: "wi_effect_class ?y = wi_effect_class x" "wi_outcome_unknown ?y = wi_outcome_unknown x" "wi_epoch ?y = wi_epoch x + 1" "wi_job ?y = wi_job x"
    by (simp_all add: claimed_row_def)
  show ?thesis
  proof (cases "wi_effect_class x = NonIdempotentExternal \<and> wi_outcome_unknown x")
    case True
    then show ?thesis
      using assms(1) False c x by (intro that(2) [of i x "\<lambda>_. ?y\<lparr>wi_state := ''paused'', wi_pause_reason := Some ''outcome_unknown'', wi_holder := None, wi_lease_until := None\<rparr>"])
        (auto simp: claim_def Let_def set_item_def map_entry_twice y)
  next
    case False
    then show ?thesis
      using assms(1) \<open>\<not> (names = [] \<or> candidate names locked now db = None)\<close> c x
      by (intro that(3) [of "the run" i x "\<lambda>_. ?y"]) (auto simp: claim_def Let_def set_item_def item_of_def y)
  qed
qed

lemma claim_ok:
  assumes ok: "work_ok jobs db runs l" and c: "claim jobs names holder lease locked now db = (run, db')"
  shows "work_ok jobs db' ((case run of None \<Rightarrow> [] | Some r \<Rightarrow> [r]) @ runs)
    ((case run of None \<Rightarrow> [] | Some r \<Rightarrow> [Claimed (run_id r) (rn_epoch r)]) @ l)"
proof -
  have d: "distinct (map fst (be_work_item db))"
    using ok by (simp add: work_ok_def ids_ok_def)
  have row: "row_ok l i x" "effect_ok jobs x" "i \<in> set (inserted_ids l)" if "map_of (be_work_item db) i = Some x" for i x
    using ok that by (auto simp: work_ok_def rows_ok_def inserted_ids_iff)
  from c d show ?thesis
  proof (cases rule: claim_cases)
    case 1
    with ok show ?thesis by simp
  next
    case (2 i x f)
    have "row_ok l i (f x)"
      using row [OF 2(2)] 2 by (auto simp: row_ok_def claimed_row_def)
    then show ?thesis
      using work_ok_update [OF ok 2(2-4), of "[]"] 2 by (simp add: claimed_row_def)
  next
    case (3 i x f r)
    have "row_ok ([Claimed i (wi_epoch x + 1)] @ l) i (f x)"
      using row [OF 3(2)] 3 by (force simp: row_ok_def claimed_row_def)
    then have "work_ok jobs db' runs ([Claimed i (wi_epoch x + 1)] @ l)"
      using work_ok_update [OF ok 3(2-4), of "[Claimed i (wi_epoch x + 1)]"] 3 by (simp add: claimed_row_def)
    moreover have "map_of (be_work_item db') i = Some (f x)"
      using 3 by (simp add: map_of_map_entry)
    moreover have "j_Effect (rn_job r) = wi_effect_class (f x)"
      using row(2) [OF 3(2)] 3 by (auto simp: effect_ok_def claimed_row_def)
    ultimately show ?thesis
      using 3 row(3) [OF 3(2)] by (simp add: work_ok_def runs_ok_def)
  qed
qed

subsection \<open>New items\<close>

lemma id_ok_mono:
  "id_ok jobs marks i k \<Longrightarrow> (slot_behind jobs marks i \<Longrightarrow> slot_behind jobs marks' i) \<Longrightarrow> id_ok jobs marks' i k"
  by (auto simp: id_ok_def)

lemma work_ok_insert:
  assumes ok: "work_ok jobs db runs l"
    and items: "be_work_item db' = be_work_item db @ news" "distinct (map fst news)"
    and fresh: "\<forall>(i, x)\<in>set news. i \<notin> set (inserted_ids l) \<and> wi_kind x = k \<and> wi_state x \<noteq> ''running'' \<and> effect_ok jobs x \<and> id_ok jobs (be_cron_watermark db') i k"
    and marks: "\<And>i. slot_behind jobs (be_cron_watermark db) i \<Longrightarrow> slot_behind jobs (be_cron_watermark db') i"
  shows "work_ok jobs db' runs (map (\<lambda>i. Inserted i k) (map fst news) @ l)"
proof -
  let ?es = "map (\<lambda>i. Inserted i k) (map fst news)"
  have ids: "inserted_ids ?es = map fst news"
    by (induction news) auto
  have known: "i \<in> set (inserted_ids l)" if "map_of (be_work_item db) i = Some x" for i x
    using ok that by (auto simp: work_ok_def rows_ok_def inserted_ids_iff)
  have new: "i \<notin> set (inserted_ids l)" "wi_kind x = k" "wi_state x \<noteq> ''running''" "effect_ok jobs x" "id_ok jobs (be_cron_watermark db') i k"
    if "(i, x) \<in> set news" for i x
    using fresh that by auto
  have disj: "fst ` set (be_work_item db) \<inter> fst ` set news = {}"
    using known new(1) by (force simp: dom_map_of_conv_image_fst [symmetric] dom_def dest: map_of_SomeD)
  have old: "map_of (be_work_item db) i = None" if "map_of news i = Some x" for i x
    using disj map_of_SomeD [OF that] by (force simp: map_of_eq_None_iff)
  have rows: "map_of (be_work_item db') i = (case map_of news i of None \<Rightarrow> map_of (be_work_item db) i | Some x \<Rightarrow> Some x)" for i
    using old [of i] by (cases "map_of news i") (auto simp: items(1) map_add_def split: option.splits)
  have "distinct (map fst (be_work_item db'))"
    using ok items disj by (simp add: work_ok_def ids_ok_def)
  moreover have "id_ok jobs (be_cron_watermark db') i n" if "Inserted i n \<in> set (?es @ l)" for i n
  proof (cases "Inserted i n \<in> set l")
    case True
    then have "id_ok jobs (be_cron_watermark db) i n"
      using ok by (simp add: work_ok_def ids_ok_def)
    then show ?thesis using marks by (rule id_ok_mono)
  next
    case False
    then show ?thesis using that new(5) by auto
  qed
  moreover have "map_of (be_work_item db') i \<noteq> None" if "Inserted i Singleton \<in> set (?es @ l)" for i
    using that ok by (force simp: work_ok_def ids_ok_def rows map_of_eq_None_iff split: option.splits)
  ultimately have "ids_ok jobs db' (?es @ l)"
    using ok new(1) items(2) ids by (auto simp: work_ok_def ids_ok_def intro: rev_image_eqI)
  moreover have "Inserted i (wi_kind x) \<in> set (?es @ l) \<and> row_ok (?es @ l) i x \<and> effect_ok jobs x"
    if x: "map_of (be_work_item db') i = Some x" for i x
  proof (cases "map_of news i")
    case None
    then have "map_of (be_work_item db) i = Some x"
      using x by (simp add: rows)
    moreover have "\<forall>e\<in>set ?es. entry_id e \<noteq> i"
      using None by (auto simp: map_of_eq_None_iff)
    ultimately show ?thesis
      using ok row_ok_others by (auto simp: work_ok_def rows_ok_def)
  next
    case (Some y)
    then have y: "(i, x) \<in> set news"
      using x by (auto simp: rows dest: map_of_SomeD)
    then have none: "\<forall>e\<in>set l. entry_id e \<noteq> i"
      using ok new(1) by (auto simp: work_ok_def ids_ok_def)
    have "row_ok (?es @ l) i x"
    proof -
      have "latest_claim i (?es @ l) = latest_claim i l" "call_open i (?es @ l) = call_open i l" for i
        by (induction news) auto
      then show ?thesis
        using none new(3) [OF y] by (auto simp: row_ok_def no_entries)
    qed
    then show ?thesis
      using y new(2,4) [OF y] by force
  qed
  then have "rows_ok jobs db' (?es @ l)"
    by (simp add: rows_ok_def)
  moreover have "runs_ok db' runs (?es @ l)"
    using ok new(1) by (auto simp: work_ok_def runs_ok_def rows ids split: option.splits) (metis map_of_SomeD)
  ultimately show ?thesis by (simp add: work_ok_def)
qed

text \<open>The three ways an item comes into being.\<close>

lemma insert_slots_marks: "be_cron_watermark (insert_slots blank ops j paused ss db) = be_cron_watermark db"
  by (induction ss arbitrary: db) (simp_all add: insert_item_def)

lemma insert_slots_appends:
  "\<exists>news. be_work_item (insert_slots blank ops j paused ss db) = be_work_item db @ news \<and>
     (distinct (map fst (be_work_item db)) \<longrightarrow> distinct (map fst (be_work_item db @ news))) \<and>
     (\<forall>(i, x)\<in>set news. \<exists>sl\<in>set ss. i = slot_item_id j sl \<and> x = slot_item blank j paused (ops sl) sl)"
proof (induction ss arbitrary: db)
  case (Cons sl ss)
  let ?x = "slot_item blank j paused (ops sl) sl" and ?i = "slot_item_id j sl"
  let ?db1 = "insert_item ?i ?x db"
  obtain news where n: "be_work_item (insert_slots blank ops j paused ss ?db1) = be_work_item ?db1 @ news"
    "distinct (map fst (be_work_item ?db1)) \<longrightarrow> distinct (map fst (be_work_item ?db1 @ news))"
    "\<forall>(i, x)\<in>set news. \<exists>sl\<in>set ss. i = slot_item_id j sl \<and> x = slot_item blank j paused (ops sl) sl"
    using Cons.IH [of ?db1] by blast
  show ?case
  proof (cases "map_of (be_work_item db) ?i")
    case None
    then have "be_work_item ?db1 = be_work_item db @ [(?i, ?x)]"
      by (simp add: insert_item_def)
    then show ?thesis
      using n None by (intro exI [of _ "(?i, ?x) # news"]) (auto simp: map_of_eq_None_iff)
  next
    case (Some y)
    then show ?thesis
      using n by (intro exI [of _ news]) (auto simp: insert_item_def)
  qed
qed simp

lemma new_ids_append: "be_work_item db' = be_work_item db @ news \<Longrightarrow> distinct (map fst (be_work_item db @ news)) \<Longrightarrow> new_ids db db' = map fst news"
  by (auto simp: new_ids_def map_of_eq_None_iff filter_empty_conv intro!: filter_True)

end
