(* ===== verification/Work_Safety.thy ===== *)
theory Work_Safety
  imports Work_Correct
begin

text \<open>
  The insertions of work items and the cleanup keep the invariant, and what the invariant gives of
  the log: one hand-out at a time, one completion, no second call without a reason.
\<close>

section \<open>Insertions and the cleanup\<close>

lemma jobs_ok_name:
  assumes "jobs_ok jobs" "(n, j) \<in> set jobs"
  shows "map_of jobs n = Some j" "j_Name j = n" "CHR ''@'' \<notin> set n"
  using assms by (auto simp: jobs_ok_def list_all_iff)

lemma effect_okI: "jobs_ok jobs \<Longrightarrow> (j_Name j, j) \<in> set jobs \<Longrightarrow> wi_job x = j_Name j \<Longrightarrow> wi_effect_class x = j_Effect j \<Longrightarrow> effect_ok jobs x"
  using jobs_ok_name(1) [of jobs "j_Name j" j] by (auto simp: effect_ok_def)

lemma name_is_singleton:
  assumes "jobs_ok jobs" "id_ok jobs marks i k" "i \<in> fst ` set jobs"
  shows "k = Singleton"
proof -
  obtain j where "(i, j) \<in> set jobs"
    using assms(3) by auto
  then have "CHR ''@'' \<notin> set i"
    using jobs_ok_name(3) [OF assms(1)] by blast
  then show ?thesis
    using assms(2,3) by (auto simp: id_ok_def slot_behind_def slot_item_id_def)
qed

lemma enqueue_ok:
  assumes ok: "work_ok jobs db runs l" and e: "EnqueueAt jobs blank new job args at' now db = Some db'"
    and new: "CHR ''@'' \<notin> set new" "new \<notin> fst ` set jobs" "\<And>k. Inserted new k \<notin> set l"
  shows "work_ok jobs db' runs (Inserted new Queue # l)"
proof -
  obtain x where x: "be_work_item db' = be_work_item db @ [(new, x)]" "be_cron_watermark db' = be_cron_watermark db"
    "wi_kind x = Queue" "wi_state x \<noteq> ''running''" "effect_ok jobs x"
    using e by (auto simp: EnqueueAt_def insert_item_def effect_ok_def split: option.splits if_splits)
  then show ?thesis
    using work_ok_insert [OF ok x(1), of Queue] new by (simp add: id_ok_def inserted_ids_iff)
qed

lemma singleton_ok:
  assumes ok: "work_ok jobs db runs l" and jobs: "jobs_ok jobs" "(j_Name j, j) \<in> set jobs"
  shows "work_ok jobs (ensureSingleton blank op j db) runs
    (map (\<lambda>i. Inserted i Singleton) (new_ids db (ensureSingleton blank op j db)) @ l)"
proof (cases "map_of (be_work_item db) (j_Name j)")
  case None
  let ?db' = "ensureSingleton blank op j db"
  obtain x where x: "be_work_item ?db' = be_work_item db @ [(j_Name j, x)]" "be_cron_watermark ?db' = be_cron_watermark db"
    "wi_kind x = Singleton" "wi_state x \<noteq> ''running''" "effect_ok jobs x"
    using None effect_okI [OF jobs] by (simp add: ensureSingleton_def insert_item_def)
  have d: "distinct (map fst (be_work_item db))"
    using ok by (simp add: work_ok_def ids_ok_def)
  have "Inserted (j_Name j) k \<notin> set l" for k
  proof
    assume ins: "Inserted (j_Name j) k \<in> set l"
    then have "k = Singleton"
      using ok jobs by (intro name_is_singleton [OF jobs(1)]) (force simp: work_ok_def ids_ok_def)+
    then show False
      using ins ok None by (auto simp: work_ok_def ids_ok_def)
  qed
  moreover have "new_ids db ?db' = [j_Name j]"
    using new_ids_append [OF x(1)] d None by (simp add: map_of_eq_None_iff)
  ultimately show ?thesis
    using work_ok_insert [OF ok x(1), of Singleton] x jobs(2) by (force simp: id_ok_def inserted_ids_iff)
next
  case (Some x)
  then have "ensureSingleton blank op j db = db"
    by (simp add: ensureSingleton_def insert_item_def)
  moreover have "new_ids db db = []"
    by (auto simp: new_ids_def filter_empty_conv map_of_eq_None_iff)
  ultimately show ?thesis using ok by simp
qed

text \<open>What materializing does: some due slots become items, and the watermark moves past all of them.\<close>

lemma materialize_cases:
  assumes "materialize blank ops j now db = (res, db')"
  obtains wm mark old news where "be_work_item db' = be_work_item db @ news"
    "distinct (map fst (be_work_item db)) \<Longrightarrow> distinct (map fst (be_work_item db @ news))"
    "\<forall>(i, x)\<in>set news. \<exists>sl\<in>set (Slots (j_schedule j) (j_loc j) wm now).
       i = slot_item_id j sl \<and> sl_At sl \<le> mark \<and> (\<exists>p. x = slot_item blank j p (ops sl) sl)"
    "\<And>m. map_of (be_cron_watermark db) (j_Name j) = Some m \<Longrightarrow> wm = fst m" "wm \<le> mark"
    "map_of (be_cron_watermark db') = (map_of (be_cron_watermark db))(j_Name j \<mapsto> (mark, old))"
proof -
  define db1 where "db1 = (if map_of (be_cron_watermark db) (j_Name j) = None
    then db\<lparr>be_cron_watermark := be_cron_watermark db @ [(j_Name j, now, None)]\<rparr> else db)"
  define wm where "wm = fst (the (map_of (be_cron_watermark db1) (j_Name j)))"
  obtain pending paused mark where plan: "cron_Plan (j_schedule j) (j_loc j) (j_Backfill j) (j_MaxBacklog j) wm now = (pending, paused, mark)"
    using prod_cases3 by blast
  define db2 where "db2 = insert_slots blank ops j True paused (insert_slots blank ops j False pending db1)"
  note due = cron_Plan_due [OF plan]
  have db': "db' = (if mark = wm then db2 else db2\<lparr>be_cron_watermark := AList.map_entry (j_Name j)
      (\<lambda>(_, old). (mark, if pending @ paused = [] then old else Some (sl_ID (last (pending @ paused))))) (be_cron_watermark db2)\<rparr>)"
    using assms plan by (auto simp: materialize_def Let_def db1_def [symmetric] wm_def [symmetric] db2_def [symmetric])
  obtain as where as: "be_work_item (insert_slots blank ops j False pending db1) = be_work_item db1 @ as"
    "distinct (map fst (be_work_item db1)) \<longrightarrow> distinct (map fst (be_work_item db1 @ as))"
    "\<forall>(i, x)\<in>set as. \<exists>sl\<in>set pending. i = slot_item_id j sl \<and> x = slot_item blank j False (ops sl) sl"
    using insert_slots_appends [of blank ops j False pending db1] by blast
  obtain bs where bs: "be_work_item db2 = be_work_item db1 @ as @ bs"
    "distinct (map fst (be_work_item db1 @ as)) \<longrightarrow> distinct (map fst (be_work_item db1 @ as @ bs))"
    "\<forall>(i, x)\<in>set bs. \<exists>sl\<in>set paused. i = slot_item_id j sl \<and> x = slot_item blank j True (ops sl) sl"
    using insert_slots_appends [of blank ops j True paused "insert_slots blank ops j False pending db1"] as(1) by (auto simp: db2_def)
  have items: "be_work_item db1 = be_work_item db" "be_work_item db' = be_work_item db2"
    by (simp_all add: db1_def db')
  define old where "old = snd (the (map_of (be_cron_watermark db1) (j_Name j)))"
  have "map_of (be_cron_watermark db1) (j_Name j) = Some (wm, old)"
    by (cases "map_of (be_cron_watermark db) (j_Name j)") (auto simp: db1_def wm_def old_def)
  moreover have "map_of (be_cron_watermark db1) n = map_of (be_cron_watermark db) n" if "n \<noteq> j_Name j" for n
    using that by (auto simp: db1_def map_add_def split: option.splits)
  ultimately have old: "map_of (be_cron_watermark db1) = (map_of (be_cron_watermark db))(j_Name j \<mapsto> (wm, old))"
    by auto
  then have "be_cron_watermark db2 = be_cron_watermark db1"
    by (simp add: db2_def insert_slots_marks)
  then have "\<exists>o'. map_of (be_cron_watermark db') = (map_of (be_cron_watermark db))(j_Name j \<mapsto> (mark, o'))"
    using old by (auto simp: db' map_of_map_entry)
  then obtain o' where marks: "map_of (be_cron_watermark db') = (map_of (be_cron_watermark db))(j_Name j \<mapsto> (mark, o'))"
    by blast
  have "\<forall>(i, x)\<in>set (as @ bs). \<exists>sl\<in>set (Slots (j_schedule j) (j_loc j) wm now).
       i = slot_item_id j sl \<and> sl_At sl \<le> mark \<and> (\<exists>p. x = slot_item blank j p (ops sl) sl)"
    using as(3) bs(3) due by fastforce
  then show ?thesis
    using that [of "as @ bs" wm mark o'] as bs items due(2) marks by (auto simp: db1_def wm_def)
qed

lemma slot_fresh:
  assumes ok: "work_ok jobs db runs l" and jobs: "jobs_ok jobs" "(j_Name j, j) \<in> set jobs"
    and sl: "sl \<in> set (Slots (j_schedule j) (j_loc j) wm now)" "\<And>m. map_of (be_cron_watermark db) (j_Name j) = Some m \<Longrightarrow> wm = fst m"
  shows "slot_item_id j sl \<notin> set (inserted_ids l)"
proof
  assume "slot_item_id j sl \<in> set (inserted_ids l)"
  then obtain k where "Inserted (slot_item_id j sl) k \<in> set l"
    by (auto simp: inserted_ids_iff)
  then have "id_ok jobs (be_cron_watermark db) (slot_item_id j sl) k"
    using ok by (simp add: work_ok_def ids_ok_def)
  moreover have "slot_item_id j sl \<notin> fst ` set jobs" "CHR ''@'' \<in> set (slot_item_id j sl)"
    using jobs_ok_name(3) [OF jobs(1), of "slot_item_id j sl"] by (auto simp: slot_item_id_def)
  ultimately have "slot_behind jobs (be_cron_watermark db) (slot_item_id j sl)"
    by (auto simp: id_ok_def)
  then obtain j' sl' a u m where j': "(j_Name j', j') \<in> set jobs" "slot_item_id j sl = slot_item_id j' sl'"
    "sl' \<in> set (Slots (j_schedule j') (j_loc j') a u)" "map_of (be_cron_watermark db) (j_Name j') = Some m" "sl_At sl' \<le> fst m"
    by (auto simp: slot_behind_def)
  have "j_Name j @ CHR ''@'' # sl_ID sl = j_Name j' @ CHR ''@'' # sl_ID sl'"
    using j'(2) by (simp add: slot_item_id_def)
  from split_unique [OF this jobs_ok_name(3) [OF jobs] jobs_ok_name(3) [OF jobs(1) j'(1)]]
  have names: "j_Name j = j_Name j'" and ids: "sl_ID sl = sl_ID sl'"
    by (rule conjunct1, rule conjunct2)
  have "Some j = Some j'"
    unfolding jobs_ok_name(1) [OF jobs, symmetric] jobs_ok_name(1) [OF jobs(1) j'(1), symmetric] names ..
  then have j: "j' = j" by simp
  have "sl_At sl' \<le> wm"
    using j'(4,5) sl(2) unfolding j by simp
  then show False
    using cron_slots.slots_not_again [of sl' "j_schedule j" "j_loc j" a u sl wm now, OF j'(3) [unfolded j] sl(1)] ids by simp
qed

lemma materialize_ok:
  assumes ok: "work_ok jobs db runs l" and jobs: "jobs_ok jobs" "(j_Name j, j) \<in> set jobs"
    and m: "materialize blank ops j now db = (res, db')"
  shows "work_ok jobs db' runs (map (\<lambda>i. Inserted i CronKind) (new_ids db db') @ l)"
  using m
proof (rule materialize_cases)
  fix wm mark old news
  let ?slots = "Slots (j_schedule j) (j_loc j) wm now"
  assume items: "be_work_item db' = be_work_item db @ news"
    and dist: "distinct (map fst (be_work_item db)) \<Longrightarrow> distinct (map fst (be_work_item db @ news))"
    and news: "\<forall>(i, x)\<in>set news. \<exists>sl\<in>set ?slots. i = slot_item_id j sl \<and> sl_At sl \<le> mark \<and> (\<exists>p. x = slot_item blank j p (ops sl) sl)"
    and wm: "\<And>m. map_of (be_cron_watermark db) (j_Name j) = Some m \<Longrightarrow> wm = fst m" "wm \<le> mark"
    and marks: "map_of (be_cron_watermark db') = (map_of (be_cron_watermark db))(j_Name j \<mapsto> (mark, old))"
  have d: "distinct (map fst (be_work_item db @ news))"
    using ok dist by (simp add: work_ok_def ids_ok_def)
  have behind: "slot_behind jobs (be_cron_watermark db') i" if "slot_behind jobs (be_cron_watermark db) i" for i
  proof -
    from that obtain j' sl a u m where s: "(j_Name j', j') \<in> set jobs" "i = slot_item_id j' sl"
      "sl \<in> set (Slots (j_schedule j') (j_loc j') a u)" "map_of (be_cron_watermark db) (j_Name j') = Some m" "sl_At sl \<le> fst m"
      by (auto simp: slot_behind_def)
    then have "\<exists>m'. map_of (be_cron_watermark db') (j_Name j') = Some m' \<and> sl_At sl \<le> fst m'"
      using wm by (cases "j_Name j' = j_Name j") (auto simp: marks)
    with s show ?thesis by (auto simp: slot_behind_def)
  qed
  have new: "i \<notin> set (inserted_ids l) \<and> wi_kind x = CronKind \<and> wi_state x \<noteq> ''running'' \<and> effect_ok jobs x \<and> id_ok jobs (be_cron_watermark db') i CronKind"
    if "(i, x) \<in> set news" for i x
  proof -
    from that news obtain sl p where sl: "sl \<in> set ?slots" "i = slot_item_id j sl" "sl_At sl \<le> mark" "x = slot_item blank j p (ops sl) sl"
      by force
    then have "slot_behind jobs (be_cron_watermark db') i"
      unfolding slot_behind_def marks using jobs(2) by (intro exI [of _ j] exI [of _ sl] exI [of _ wm] exI [of _ now] exI [of _ "(mark, old)"]) simp
    then show ?thesis
      using slot_fresh [OF ok jobs sl(1) wm(1)] sl effect_okI [OF jobs] by (simp add: slot_item_def id_ok_def)
  qed
  have "work_ok jobs db' runs (map (\<lambda>i. Inserted i CronKind) (map fst news) @ l)"
    by (rule work_ok_insert [OF ok items _ _ behind]) (use d new in blast | use d in simp)+
  then show ?thesis
    using new_ids_append [OF items d] by simp
qed

lemma purge_ok:
  assumes ok: "work_ok jobs db runs l" and jobs: "jobs_ok jobs" and p: "purge_batch locked now db = (n, db')"
  shows "work_ok jobs db' runs l"
proof -
  let ?sel = "\<lambda>(i, x). purgeable now db x \<and> \<not> locked i"
  obtain rows where del: "delete_some ?sel (be_work_item db) = (n, rows)"
    and db': "be_work_item db' = rows" "be_cron_watermark db' = be_cron_watermark db"
    using p by (auto simp: purge_batch_def split: prod.splits)
  have d: "distinct (map fst (be_work_item db))"
    using ok by (simp add: work_ok_def ids_ok_def)
  note rows = delete_some_rows [OF del d]
  have keep: "map_of (be_work_item db') i \<noteq> None" if ins: "Inserted i Singleton \<in> set l" for i
  proof -
    obtain x where x: "map_of (be_work_item db) i = Some x"
      using ok ins by (auto simp: work_ok_def ids_ok_def simp del: map_of_eq_Some_iff)
    then have "Inserted i (wi_kind x) \<in> set l"
      using ok by (simp add: work_ok_def rows_ok_def)
    then have "id_ok jobs (be_cron_watermark db) i (wi_kind x)" "id_ok jobs (be_cron_watermark db) i Singleton"
      using ok ins by (auto simp: work_ok_def ids_ok_def)
    then have "wi_kind x = Singleton"
      using name_is_singleton [OF jobs, of "be_cron_watermark db" i "wi_kind x"] by (simp add: id_ok_def)
    then show ?thesis
      using rows(3) [OF x] by (simp add: db' purgeable_def)
  qed
  then have "ids_ok jobs db' l"
    using ok rows(1) by (auto simp: work_ok_def ids_ok_def db' simp del: map_of_eq_Some_iff)
  then show ?thesis
    using ok rows(2) by (auto simp: work_ok_def rows_ok_def runs_ok_def db' simp del: map_of_eq_Some_iff)
qed

section \<open>What the log of a reachable state says\<close>

text \<open>
  Why an open call mark may be cleared: the item completed, an operator sent it back, the handler
  said that the call had no effect or that the item failed for good, it waited too long, or the
  mark could not be read.
\<close>

fun clears_mark :: "clear_cause \<Rightarrow> bool" where
  "clears_mark (ByEnd readable (Plain _)) = (\<not> readable)"
| "clears_mark (ByEnd readable (Wait _)) = readable"
| "clears_mark _ = True"

fun entry_ok :: "work_entry \<Rightarrow> work_entry list \<Rightarrow> bool" where
  "entry_ok (Claimed i e) l = ((\<forall>e'. Claimed i e' \<in> set l \<longrightarrow> e' < e) \<and> Done i \<notin> set l \<and> \<not> call_open i l)"
| "entry_ok (Cleared i why) l = (call_open i l \<longrightarrow> clears_mark why)"
| "entry_ok (Done i) l = (Done i \<notin> set l)"
| "entry_ok _ l = True"

fun log_ok :: "work_entry list \<Rightarrow> bool" where
  "log_ok [] = True"
| "log_ok (e # l) = (entry_ok e l \<and> log_ok l)"

lemma log_ok_marks: "log_ok (map (\<lambda>i. Inserted i k) is @ l) = log_ok l"
  by (induction \<open>is\<close>) auto

lemma log_ok_suffix: "log_ok (xs @ l) \<Longrightarrow> log_ok l"
  by (induction xs) auto

text \<open>One row changes.\<close>

lemma log_ok_changes:
  assumes "log_ok l" "work_ok jobs db runs l"
    and "\<And>x y. map_of (be_work_item db) i = Some x \<Longrightarrow> map_of (be_work_item db') i = Some y \<Longrightarrow>
      call_open i l \<Longrightarrow> wi_outcome_unknown x \<Longrightarrow> wi_effect_class x = NonIdempotentExternal \<Longrightarrow> \<not> wi_outcome_unknown y \<Longrightarrow> clears_mark why"
  shows "log_ok (row_changes why i db db' @ l)"
proof (cases "map_of (be_work_item db) i")
  case None
  with assms(1) show ?thesis by (simp add: row_changes_def)
next
  case (Some x)
  then have "row_ok l i x"
    using assms(2) by (simp add: work_ok_def rows_ok_def)
  then show ?thesis
    using assms(1) assms(3) [OF Some] Some by (auto simp: row_changes_def changes_of_def row_ok_def split: option.splits)
qed

lemma or_same_row:
  assumes "map_of (be_work_item db) (run_id r) = Some x" "map_of (be_work_item (or_same db (exec r f fn db))) (run_id r) = Some y"
  shows "y = x \<or> y = f x"
proof (cases "exec r f fn db")
  case (Inl e)
  with assms show ?thesis by (simp add: or_same_def)
next
  case (Inr db')
  with assms exec_rows [OF Inr assms(1)] show ?thesis by (simp add: or_same_def)
qed

lemma fail_clears:
  assumes x: "map_of (be_work_item db) (run_id r) = Some x" "wi_outcome_unknown x" and j: "j_Effect (rn_job r) = NonIdempotentExternal"
    and y: "map_of (be_work_item (fail readable r c now db)) (run_id r) = Some y" "\<not> wi_outcome_unknown y"
  shows "clears_mark (ByEnd readable c)"
proof (cases c)
  case (Wait m)
  have "waited_out readable r now db"
  proof (rule ccontr)
    assume "\<not> waited_out readable r now db"
    then have "y = x \<or> y = waiting_row m now x"
      using y(1) Wait by (intro or_same_row [OF x(1), where fn = no_effect]) (auto simp: fail_def)
    then show False
      using x(2) y(2) by (auto simp: waiting_row_def released_def Let_def)
  qed
  then show ?thesis
    using Wait by (simp add: waited_out_def)
next
  case (Plain m)
  have "y = x \<or> y = paused_row m x" if readable
    using x y(1) Plain j that by (intro or_same_row [OF x(1), where fn = no_effect]) (auto simp: fail_def unknown_def)
  then show ?thesis
    using y(2) x(2) Plain by (auto simp: paused_row_def released_def)
qed auto

lemma run_end_clears:
  assumes x: "map_of (be_work_item db) (run_id r) = Some x" "wi_outcome_unknown x" and j: "j_Effect (rn_job r) = NonIdempotentExternal"
    and y: "map_of (be_work_item (run_end readable r stopping lost ended timedOut err op now db)) (run_id r) = Some y" "\<not> wi_outcome_unknown y"
  shows "clears_mark (end_cause r readable timedOut err)"
proof -
  have "\<not> stopping"
  proof
    assume stopping
    then have "y = x \<or> y = x\<lparr>wi_lease_until := Some now, wi_attempts := wi_attempts x - 1\<rparr>"
      using y(1) by (intro or_same_row [OF x(1), where fn = no_effect]) (simp add: run_end_def give_back_def)
    then show False using x(2) y(2) by auto
  qed
  moreover have "run_end readable r stopping lost ended timedOut err op now db \<noteq> db"
    using x y by auto
  ultimately show ?thesis
    using y fail_clears [OF x j] by (cases "if timedOut \<and> \<not> rn_completed r then Some (Plain ''the run passed its deadline'') else err")
      (auto simp: run_end_def end_cause_def simp del: clears_mark.simps(1,2) split: if_splits)
qed

lemma claim_log_ok:
  assumes "log_ok l" "work_ok jobs db runs l" "claim jobs names holder lease locked now db = (run, db')"
  shows "log_ok ((case run of None \<Rightarrow> [] | Some r \<Rightarrow> [Claimed (run_id r) (rn_epoch r)]) @ l)"
proof -
  have d: "distinct (map fst (be_work_item db))"
    using assms(2) by (simp add: work_ok_def ids_ok_def)
  have row: "row_ok l i x" if "map_of (be_work_item db) i = Some x" for i x
    using assms(2) that by (simp add: work_ok_def rows_ok_def)
  from assms(3) d show ?thesis
  proof (cases rule: claim_cases)
    case (3 i x f r)
    with row [OF 3(2)] show ?thesis
      using assms(1) by (force simp: row_ok_def)
  qed (use assms(1) in simp_all)
qed

subsection \<open>Every step keeps both\<close>

definition safe_state :: "(string \<times> 'c Job) list \<Rightarrow> 'c work_state \<Rightarrow> bool" where
  "safe_state jobs st \<longleftrightarrow> work_ok jobs (ws_db st) (ws_runs st) (ws_log st) \<and> log_ok (ws_log st)"

lemma work_ok_other_tables:
  "work_ok jobs db runs l \<Longrightarrow> be_work_item db' = be_work_item db \<Longrightarrow> be_cron_watermark db' = be_cron_watermark db \<Longrightarrow> work_ok jobs db' runs l"
  by (simp add: work_ok_def ids_ok_def rows_ok_def runs_ok_def del: map_of_eq_Some_iff)

lemma record_call_ok:
  assumes "work_ok jobs db runs l" "r \<in> set runs" "RecordCall r key result db = Inr (r', db')"
  shows "work_ok jobs db' (r' # runs) l"
  using assms(3) silent_ok [OF assms(1), of r] work_ok_runs [OF _ assms(2)]
  by (auto simp: RecordCall_def quiet_def split: sum.splits)

lemma checkpoint_ok:
  assumes "work_ok jobs db runs l" "r \<in> set runs" "Checkpoint r progress op fn db = Inr (r', db')"
  shows "work_ok jobs db' (r' # runs) l"
  using assms(3) silent_ok [OF assms(1), of r] work_ok_runs [OF _ assms(2)]
  by (auto simp: Checkpoint_def quiet_def split: sum.splits)

lemma complete_ok:
  assumes "work_ok jobs db runs l" "r \<in> set runs" "Complete r op fn now db = Inr (r', db')"
  shows "work_ok jobs db' (r' # runs) (row_changes ByCompletion (run_id r) db db' @ l)"
proof -
  have "run_id r' = run_id r" "rn_job r' = rn_job r"
    using assms(3) by (auto simp: Complete_def split: sum.splits)
  then show ?thesis
    using commits_ok [OF assms(1) Complete_commits [OF assms(3)]] work_ok_runs [OF _ assms(2)] by blast
qed

lemma renew_ok: "work_ok jobs db runs l \<Longrightarrow> renew_lease r lease now db = Inr db' \<Longrightarrow> work_ok jobs db' runs l"
  unfolding renew_lease_def by (erule silent_ok, assumption) (auto simp: quiet_def)

lemma run_end_log_ok:
  assumes "log_ok l" "work_ok jobs db runs l" "r \<in> set runs"
  shows "log_ok (row_changes (end_cause r readable timedOut err) (run_id r) db (run_end readable r stopping lost ended timedOut err op now db) @ l)"
proof (rule log_ok_changes [OF assms(1,2)])
  fix x y
  assume x: "map_of (be_work_item db) (run_id r) = Some x" "wi_outcome_unknown x" "wi_effect_class x = NonIdempotentExternal"
    and y: "map_of (be_work_item (run_end readable r stopping lost ended timedOut err op now db)) (run_id r) = Some y" "\<not> wi_outcome_unknown y"
  have "j_Effect (rn_job r) = NonIdempotentExternal"
    using assms(2,3) x by (auto simp: work_ok_def runs_ok_def)
  then show "clears_mark (end_cause r readable timedOut err)"
    using run_end_clears [OF x(1,2) _ y] by blast
qed

lemma work_step_safe:
  assumes "work_step jobs blank st st'" "jobs_ok jobs" "safe_state jobs st"
  shows "safe_state jobs st'"
proof -
  have ok: "work_ok jobs (ws_db st) (ws_runs st) (ws_log st)" and log: "log_ok (ws_log st)"
    using assms(3) by (simp_all add: safe_state_def)
  from assms(1) show ?thesis
  proof cases
    case (enqueue new job args at' now db')
    then show ?thesis using enqueue_ok [OF ok] log by (simp add: safe_state_def)
  next
    case (singleton op j db')
    then show ?thesis using singleton_ok [OF ok assms(2)] log by (auto simp: safe_state_def log_ok_marks)
  next
    case (materialize ops j now res db')
    then show ?thesis using materialize_ok [OF ok assms(2)] log by (simp add: safe_state_def log_ok_marks)
  next
    case (claim names holder lease locked now run db')
    then show ?thesis using claim_ok [OF ok] claim_log_ok [OF log ok] by (simp add: safe_state_def)
  next
    case (complete r op fn now r' db')
    then show ?thesis using complete_ok [OF ok] log_ok_changes [OF log ok] by (simp add: safe_state_def)
  next
    case (before_call r db')
    then show ?thesis using BeforeCall_ok [OF ok] log by (auto simp: safe_state_def call_mark_def split: option.splits)
  next
    case (record_call r key result r' db')
    then show ?thesis using record_call_ok [OF ok] log by (simp add: safe_state_def)
  next
    case (checkpoint r progress op fn r' db')
    then show ?thesis using checkpoint_ok [OF ok] log by (simp add: safe_state_def)
  next
    case (renew r lease now db')
    then show ?thesis using renew_ok [OF ok] log by (simp add: safe_state_def)
  next
    case (run_end r readable stopping lost ended timedOut err op now db')
    then show ?thesis using commits_ok [OF ok run_end_commits] run_end_log_ok [OF log ok] by (auto simp: safe_state_def)
  next
    case (requeue i verified now db')
    then show ?thesis using Requeue_ok [OF ok] log_ok_changes [OF log ok] by (simp add: safe_state_def)
  next
    case (resolve i reason now db')
    then show ?thesis using Resolve_ok [OF ok] log by (simp add: safe_state_def)
  next
    case (hold i db')
    then show ?thesis using Hold_ok [OF ok] log by (simp add: safe_state_def)
  next
    case (purge locked now n db')
    then show ?thesis using purge_ok [OF ok assms(2)] log by (simp add: safe_state_def)
  qed (use ok log in \<open>auto simp: safe_state_def intro: work_ok_other_tables\<close>)
qed

lemma work_reachable_safe:
  assumes "work_reachable jobs blank st" "jobs_ok jobs"
  shows "safe_state jobs st"
  using assms
proof (induction rule: work_reachable.induct)
  case (start db t)
  then show ?case
    by (simp add: safe_state_def work_ok_def ids_ok_def rows_ok_def runs_ok_def)
next
  case (step st st')
  then show ?case using work_step_safe by blast
qed

end
