(* ===== verification/Work_Once.thy ===== *)
theory Work_Once
  imports Work_Safety
begin

text \<open>
  The guarantees of background work: effects commit under the latest claim only, an item is done
  once, a cron slot becomes one item, and a non-idempotent call is not handed out again while its
  mark stands. A run of the runner on a concrete job shows that the hypotheses can hold.
\<close>

section \<open>Reading a log at an entry\<close>

lemma log_ok_at: "log_ok (later @ e # earlier) \<Longrightarrow> entry_ok e earlier"
  using log_ok_suffix [of later "e # earlier"] by simp

lemma done_is_last:
  assumes "log_ok (later @ Done i # earlier)"
  shows "Done i \<notin> set later \<and> Done i \<notin> set earlier \<and> Claimed i e \<notin> set later"
proof -
  have "Done i \<notin> set later"
  proof
    assume "Done i \<in> set later"
    then obtain a b where "later = a @ Done i # b"
      by (meson split_list)
    then show False
      using assms log_ok_at [of a "Done i" "b @ Done i # earlier"] by simp
  qed
  moreover have "Claimed i e \<notin> set later"
  proof
    assume "Claimed i e \<in> set later"
    then obtain a b where "later = a @ Claimed i e # b"
      by (meson split_list)
    then show False
      using assms log_ok_at [of a "Claimed i e" "b @ Done i # earlier"] by simp
  qed
  ultimately show ?thesis
    using log_ok_at [OF assms] by simp
qed

text \<open>The first clearing after a call happened while the mark was open.\<close>

lemma first_clearing:
  assumes "log_ok (mid @ Called i # l)" "\<not> call_open i (mid @ Called i # l)"
  shows "\<exists>why. Cleared i why \<in> set mid \<and> clears_mark why"
  using assms
proof (induction mid)
  case (Cons e mid)
  show ?case
  proof (cases "call_open i (mid @ Called i # l)")
    case True
    then obtain why where "e = Cleared i why"
      using Cons.prems(2) by (cases e) auto
    then show ?thesis
      using True Cons.prems(1) by auto
  next
    case False
    then show ?thesis using Cons by auto
  qed
qed simp

section \<open>The guarantees\<close>

text \<open>
  C3. Fencing and exactly-once effects. In every reachable state of the runner, whatever the
  interleaving of goroutines, operators, cleanup and changes of the database epoch: a transaction
  that commits as a run holds the latest claim handed out for the item, and the item was not done
  before; an item that was done is neither claimed nor done again; later claims have larger
  epochs; and no identity, so no cron slot, is inserted twice, not even after the cleanup.
\<close>

theorem work_effect_once:
  assumes "work_reachable jobs blank st" "jobs_ok jobs"
  shows "(\<forall>r f fn db'. exec r f fn (ws_db st) = Inr db' \<longrightarrow>
            latest_claim (it_ID (rn_Item r)) (ws_log st) = Some (rn_epoch r) \<and> Done (it_ID (rn_Item r)) \<notin> set (ws_log st)) \<and>
         (\<forall>later i earlier. ws_log st = later @ Done i # earlier \<longrightarrow>
            Done i \<notin> set later \<and> Done i \<notin> set earlier \<and> (\<forall>e. Claimed i e \<notin> set later)) \<and>
         (\<forall>later i e earlier e'. ws_log st = later @ Claimed i e # earlier \<and> Claimed i e' \<in> set earlier \<longrightarrow> e' < e) \<and>
         distinct (inserted_ids (ws_log st))"
proof (intro conjI allI impI)
  have safe: "work_ok jobs (ws_db st) (ws_runs st) (ws_log st)" "log_ok (ws_log st)"
    using work_reachable_safe [OF assms] by (simp_all add: safe_state_def)
  show "distinct (inserted_ids (ws_log st))"
    using safe(1) by (simp add: work_ok_def ids_ok_def)
  fix r f fn db'
  assume "exec r f fn (ws_db st) = Inr db'"
  then obtain x where x: "map_of (be_work_item (ws_db st)) (run_id r) = Some x" "guard r (be_current_db_epoch (ws_db st)) x"
    by (rule exec_Inr)
  then have "row_ok (ws_log st) (run_id r) x"
    using safe(1) by (simp add: work_ok_def rows_ok_def)
  then show "latest_claim (run_id r) (ws_log st) = Some (rn_epoch r)" "Done (run_id r) \<notin> set (ws_log st)"
    using x(2) by (auto simp: row_ok_def guard_def)
next
  fix later i earlier e
  assume "ws_log st = later @ Done i # earlier"
  then have "log_ok (later @ Done i # earlier)"
    using work_reachable_safe [OF assms] by (simp add: safe_state_def)
  from done_is_last [OF this]
  show "Done i \<notin> set later" "Done i \<notin> set earlier" "Claimed i e \<notin> set later"
    by blast+
next
  fix later i e earlier e'
  assume "ws_log st = later @ Claimed i e # earlier \<and> Claimed i e' \<in> set earlier"
  then show "e' < e"
    using work_reachable_safe [OF assms] log_ok_at [of later "Claimed i e" earlier] by (auto simp: safe_state_def)
qed

text \<open>
  C10. Between a call marked as possibly sent and a later hand-out of the same item the mark was
  cleared, for a reason other than a plain failure with the mark read: the run completed, an
  operator requeued the item, the handler reported no effect or a permanent failure, the item
  waited past its limit, or the mark could not be read.
\<close>

theorem work_no_second_call:
  assumes "work_reachable jobs blank st" "jobs_ok jobs" "ws_log st = later @ Claimed i e # mid @ Called i # earlier"
  shows "\<exists>why. Cleared i why \<in> set mid \<and> clears_mark why"
proof (rule first_clearing)
  have "log_ok (later @ Claimed i e # mid @ Called i # earlier)"
    using work_reachable_safe [OF assms(1,2)] assms(3) by (simp add: safe_state_def)
  then have "log_ok (Claimed i e # mid @ Called i # earlier)"
    by (rule log_ok_suffix)
  then show "log_ok (mid @ Called i # earlier)" "\<not> call_open i (mid @ Called i # earlier)"
    by simp_all
qed

text \<open>
  C39. A marked call is lost sight of. A plain failure of a run of a non-idempotent job pauses the
  item when the mark was read; when that read fails the item is retried and the mark is gone. A
  paused item with an unknown outcome is not requeued without the operator's record, but an item
  that waits with the mark set is, once it was held.
\<close>

theorem work_unknown_lost:
  assumes "map_of (be_work_item db) i = Some x" "wi_outcome_unknown x"
  shows "(\<forall>r m. it_ID (rn_Item r) = i \<and> guard r (be_current_db_epoch db) x \<and> j_Effect (rn_job r) = ''non_idempotent_external'' \<and>
             it_Attempts (rn_Item r) < it_MaxAttempts (rn_Item r) \<longrightarrow>
           (\<exists>y. map_of (be_work_item (fail True r (Plain m) now db)) i = Some y \<and> wi_state y = ''paused'' \<and> wi_outcome_unknown y) \<and>
           (\<exists>y. map_of (be_work_item (fail False r (Plain m) now db)) i = Some y \<and> wi_state y = ''retry_wait'' \<and> \<not> wi_outcome_unknown y)) \<and>
         (wi_state x = ''paused'' \<and> wi_pause_reason x = Some ''outcome_unknown'' \<longrightarrow> Requeue i False now db = None) \<and>
         (wi_state x = ''retry_wait'' \<longrightarrow>
           (\<exists>db1 db2 y. Hold i db = Some db1 \<and> Requeue i False now db1 = Some db2 \<and>
              map_of (be_work_item db2) i = Some y \<and> wi_state y = ''pending'' \<and> \<not> wi_outcome_unknown y))"
proof (intro conjI allI impI)
  fix r :: "'a Run" and m
  assume r: "it_ID (rn_Item r) = i \<and> guard r (be_current_db_epoch db) x \<and> j_Effect (rn_job r) = ''non_idempotent_external'' \<and>
             it_Attempts (rn_Item r) < it_MaxAttempts (rn_Item r)"
  then have commit: "map_of (be_work_item (or_same db (exec r f no_effect db))) i = Some (f x)" for f
    using assms(1) by (simp add: exec_def or_same_def set_item_def map_of_map_entry)
  show "\<exists>y. map_of (be_work_item (fail True r (Plain m) now db)) i = Some y \<and> wi_state y = ''paused'' \<and> wi_outcome_unknown y"
    using r assms commit by (simp add: fail_def unknown_def paused_row_def released_def)
  show "\<exists>y. map_of (be_work_item (fail False r (Plain m) now db)) i = Some y \<and> wi_state y = ''retry_wait'' \<and> \<not> wi_outcome_unknown y"
    using r assms commit by (simp add: fail_def unknown_def retry_row_def released_def)
next
  assume "wi_state x = ''paused'' \<and> wi_pause_reason x = Some ''outcome_unknown''"
  then show "Requeue i False now db = None"
    using assms by (simp add: Requeue_def operate_def requeue_allowed_def)
next
  assume "wi_state x = ''retry_wait''"
  then show "\<exists>db1 db2 y. Hold i db = Some db1 \<and> Requeue i False now db1 = Some db2 \<and>
      map_of (be_work_item db2) i = Some y \<and> wi_state y = ''pending'' \<and> \<not> wi_outcome_unknown y"
    using assms by (simp add: Hold_def Requeue_def operate_def requeue_allowed_def set_item_def map_of_map_entry released_def)
qed

section \<open>A run\<close>

text \<open>
  A mail is sent, the send fails and the mark cannot be read; the item is handed out again and
  completes. Written out with the operations of the model.
\<close>

definition mail_job :: "unit Job" where
  "mail_job = \<lparr>j_Name = ''mail'', j_Kind = Queue, j_Effect = NonIdempotentExternal, j_MaxAttempts = 10, j_Cron = [], j_TimeZone = [],
     j_Backfill = [], j_MaxBacklog = 0, j_Interval = 0, j_Timeout = 5 * Minute, j_MaxWait = 0, j_Handle = True, j_DeadLetter = None,
     j_schedule = \<lparr>sc_minutes = [], sc_hours = [], sc_doms = [], sc_months = [], sc_dows = [], sc_domRestricted = False, sc_dowRestricted = False\<rparr>,
     j_loc = (\<lambda>_. undefined)\<rparr>"

definition blank_item :: work_item where
  "blank_item = \<lparr>wi_job = [], wi_kind = [], wi_state = ''pending'', wi_pause_reason = None, wi_attempts = 0, wi_max_attempts = 0,
     wi_effect_class = [], wi_operation_id = [], wi_outcome_unknown = False, wi_args = None, wi_progress = None, wi_slot = None,
     wi_call_results = [], wi_run_at = 0, wi_epoch = 0, wi_holder = None, wi_lease_until = None, wi_generation = 0, wi_timeline = 0,
     wi_waiting_since = None, wi_last_error = None, wi_finished_at = None, wi_result = None\<rparr>"

abbreviation (input) mail_jobs :: "(string \<times> unit Job) list" where "mail_jobs \<equiv> [(''mail'', mail_job)]"

definition mail_row :: work_item where
  "mail_row = blank_item\<lparr>wi_job := ''mail'', wi_kind := Queue, wi_max_attempts := 10, wi_effect_class := NonIdempotentExternal,
     wi_operation_id := ''m1:mail'', wi_args := Some ''{}''\<rparr>"

definition running_row :: "int \<Rightarrow> bool \<Rightarrow> instant \<Rightarrow> work_item" where
  "running_row n u t = mail_row\<lparr>wi_state := ''running'', wi_epoch := n, wi_attempts := n, wi_outcome_unknown := u, wi_holder := Some ''h'',
     wi_lease_until := Some (t + DefaultLease), wi_generation := 1, wi_timeline := 1\<rparr>"

definition failed_row :: work_item where
  "failed_row = (running_row 1 False 0)\<lparr>wi_state := ''retry_wait'', wi_holder := None, wi_lease_until := None, wi_last_error := Some ''timeout'', wi_run_at := Second\<rparr>"

definition mail_db :: "work_item list \<Rightarrow> unit work_db" where
  "mail_db xs = \<lparr>be_work_item = map (\<lambda>x. (''m1'', x)) xs, be_cron_watermark = [], be_current_db_epoch = (1, 1), wk_component = ()\<rparr>"

definition mail_run :: "work_item \<Rightarrow> unit Run" where
  "mail_run x = \<lparr>rn_Item = item_of ''m1'' x, rn_job = mail_job, rn_epoch = wi_epoch x, rn_gen = 1, rn_tl = 1, rn_completed = False\<rparr>"

definition again_row :: "bool \<Rightarrow> work_item" where
  "again_row u = failed_row\<lparr>wi_state := ''running'', wi_epoch := 2, wi_attempts := 2, wi_outcome_unknown := u, wi_holder := Some ''h'',
     wi_lease_until := Some (Second + DefaultLease)\<rparr>"

definition done_row :: work_item where
  "done_row = (again_row False)\<lparr>wi_state := ''done'', wi_holder := None, wi_lease_until := None, wi_finished_at := Some Second\<rparr>"

lemmas mail_defs = mail_job_def blank_item_def mail_row_def running_row_def failed_row_def again_row_def done_row_def mail_db_def mail_run_def

lemmas work_defs = EnqueueAt_def insert_item_def claim_def candidate_def first_by_def lease_expired_def item_due_def claimed_row_def item_of_def
  set_item_def exec_def guard_def BeforeCall_def run_end_def fail_def unknown_def or_same_def retry_row_def released_def
  work_backoff_def Complete_def completed_row_def

lemma mail_enqueue: "EnqueueAt mail_jobs blank_item ''m1'' ''mail'' ''{}'' None 0 (mail_db []) = Some (mail_db [mail_row])"
  by (simp add: work_defs mail_defs)

lemma mail_claim: "claim mail_jobs [''mail''] ''h'' DefaultLease (\<lambda>_. False) 0 (mail_db [mail_row]) = (Some (mail_run (running_row 1 False 0)), mail_db [running_row 1 False 0])"
  by (simp add: work_defs mail_defs)

lemma mail_call: "BeforeCall (mail_run (running_row 1 False 0)) (mail_db [running_row 1 False 0]) = Inr (mail_db [running_row 1 True 0])"
  by (simp add: work_defs mail_defs)

lemma mail_end: "run_end False (mail_run (running_row 1 False 0)) False False False False (Some (Plain ''timeout'')) [] 0 (mail_db [running_row 1 True 0]) = mail_db [failed_row]"
  by (simp add: work_defs mail_defs)

lemma mail_again: "claim mail_jobs [''mail''] ''h'' DefaultLease (\<lambda>_. False) Second (mail_db [failed_row]) = (Some (mail_run (again_row False)), mail_db [again_row False])"
  by (simp add: work_defs mail_defs)

lemma mail_done: "Complete (mail_run (again_row False)) [] no_effect Second (mail_db [again_row False]) = Inr ((mail_run (again_row False))\<lparr>rn_completed := True\<rparr>, mail_db [done_row])"
  by (simp add: work_defs mail_defs)

definition mail_log :: "work_entry list" where
  "mail_log = [Claimed ''m1'' 2, Cleared ''m1'' (ByEnd False (Plain ''timeout'')), Called ''m1'', Claimed ''m1'' 1, Inserted ''m1'' Queue]"

definition mail_state :: "unit work_state" where
  "mail_state = \<lparr>ws_db = mail_db [again_row False], ws_clock = Second, ws_runs = [mail_run (again_row False), mail_run (running_row 1 False 0)], ws_log = mail_log\<rparr>"

definition mail_done_state :: "unit work_state" where
  "mail_done_state = mail_state\<lparr>ws_db := mail_db [done_row], ws_runs := (mail_run (again_row False))\<lparr>rn_completed := True\<rparr> # ws_runs mail_state,
     ws_log := Done ''m1'' # mail_log\<rparr>"

lemma mail_simps [simp]:
  "it_ID (rn_Item (mail_run x)) = ''m1''" "rn_epoch (mail_run x) = wi_epoch x" "rn_completed (mail_run x) = False"
  "map_of (be_work_item (mail_db [x])) ''m1'' = Some x"
  by (simp_all add: mail_run_def item_of_def mail_db_def)

lemma mail_rows [simp]:
  "wi_epoch (running_row n u t) = n" "wi_effect_class (running_row n u t) = NonIdempotentExternal" "wi_outcome_unknown (running_row n u t) = u"
  "wi_state (running_row n u t) = ''running''" "wi_outcome_unknown failed_row = False" "wi_state failed_row = ''retry_wait''"
  "wi_epoch (again_row u) = 2" "wi_outcome_unknown (again_row u) = u" "wi_state (again_row u) = ''running''"
  "wi_outcome_unknown done_row = False" "wi_state done_row = ''done''"
  by (simp_all add: mail_defs)

text \<open>The states of the run, by tables, time, claims and log.\<close>

abbreviation (input) mail_at :: "work_item list \<Rightarrow> instant \<Rightarrow> unit Run list \<Rightarrow> work_entry list \<Rightarrow> unit work_state" where
  "mail_at xs t runs l \<equiv> \<lparr>ws_db = mail_db xs, ws_clock = t, ws_runs = runs, ws_log = l\<rparr>"

abbreviation (input) first_run :: "unit Run" where "first_run \<equiv> mail_run (running_row 1 False 0)"
abbreviation (input) second_run :: "unit Run" where "second_run \<equiv> mail_run (again_row False)"

lemma mail_steps:
  "work_step mail_jobs blank_item (mail_at [] 0 [] []) (mail_at [mail_row] 0 [] (drop 4 mail_log))"
  "work_step mail_jobs blank_item (mail_at [mail_row] 0 [] (drop 4 mail_log)) (mail_at [running_row 1 False 0] 0 [first_run] (drop 3 mail_log))"
  "work_step mail_jobs blank_item (mail_at [running_row 1 False 0] 0 [first_run] (drop 3 mail_log)) (mail_at [running_row 1 True 0] 0 [first_run] (drop 2 mail_log))"
  "work_step mail_jobs blank_item (mail_at [running_row 1 True 0] 0 [first_run] (drop 2 mail_log)) (mail_at [failed_row] 0 [first_run] (drop 1 mail_log))"
  "work_step mail_jobs blank_item (mail_at [failed_row] 0 [first_run] (drop 1 mail_log)) mail_state"
  "work_step mail_jobs blank_item mail_state mail_done_state"
proof -
  let ?free = "\<lambda>_::string. False"
  show "work_step mail_jobs blank_item (mail_at [] 0 [] []) (mail_at [mail_row] 0 [] (drop 4 mail_log))"
    using work_step.enqueue [of mail_jobs blank_item "''m1''" "''mail''" "''{}''" None 0 "mail_at [] 0 [] []" "mail_db [mail_row]"] mail_enqueue
    by (simp add: mail_log_def)
  show "work_step mail_jobs blank_item (mail_at [mail_row] 0 [] (drop 4 mail_log)) (mail_at [running_row 1 False 0] 0 [first_run] (drop 3 mail_log))"
    using work_step.claim [of mail_jobs "[''mail'']" "''h''" DefaultLease ?free 0 "mail_at [mail_row] 0 [] (drop 4 mail_log)" "Some first_run" "mail_db [running_row 1 False 0]" blank_item] mail_claim
    by (simp add: mail_log_def)
  show "work_step mail_jobs blank_item (mail_at [running_row 1 False 0] 0 [first_run] (drop 3 mail_log)) (mail_at [running_row 1 True 0] 0 [first_run] (drop 2 mail_log))"
    using work_step.before_call [of first_run "mail_at [running_row 1 False 0] 0 [first_run] (drop 3 mail_log)" "mail_db [running_row 1 True 0]" mail_jobs blank_item] mail_call
    by (simp add: mail_log_def call_mark_def)
  show "work_step mail_jobs blank_item (mail_at [running_row 1 True 0] 0 [first_run] (drop 2 mail_log)) (mail_at [failed_row] 0 [first_run] (drop 1 mail_log))"
    using work_step.run_end [of first_run "mail_at [running_row 1 True 0] 0 [first_run] (drop 2 mail_log)" False False False False False "Some (Plain ''timeout'')" "[]" 0 "mail_db [failed_row]" mail_jobs blank_item] mail_end
    by (simp add: mail_log_def row_changes_def changes_of_def end_cause_def)
  show "work_step mail_jobs blank_item (mail_at [failed_row] 0 [first_run] (drop 1 mail_log)) mail_state"
    using work_step.claim [of mail_jobs "[''mail'']" "''h''" DefaultLease ?free Second "mail_at [failed_row] 0 [first_run] (drop 1 mail_log)" "Some second_run" "mail_db [again_row False]" blank_item] mail_again
    by (simp add: mail_log_def mail_state_def)
  show "work_step mail_jobs blank_item mail_state mail_done_state"
    using work_step.complete [of second_run mail_state "[]" no_effect Second "second_run\<lparr>rn_completed := True\<rparr>" "mail_db [done_row]" mail_jobs blank_item] mail_done
    by (simp add: mail_state_def mail_done_state_def row_changes_def changes_of_def)
qed

lemma mail_reachable: "work_reachable mail_jobs blank_item mail_state" "work_reachable mail_jobs blank_item mail_done_state"
proof -
  have "work_reachable mail_jobs blank_item (mail_at [] 0 [] [])"
    by (rule work_reachable.start) (simp_all add: mail_db_def)
  note s1 = work_reachable.step [OF this mail_steps(1)]
  note s2 = work_reachable.step [OF s1 mail_steps(2)]
  note s3 = work_reachable.step [OF s2 mail_steps(3)]
  note s4 = work_reachable.step [OF s3 mail_steps(4)]
  show r: "work_reachable mail_jobs blank_item mail_state"
    by (rule work_reachable.step [OF s4 mail_steps(5)])
  show "work_reachable mail_jobs blank_item mail_done_state"
    by (rule work_reachable.step [OF r mail_steps(6)])
qed

lemma mail_jobs_ok: "jobs_ok mail_jobs"
  by (simp add: jobs_ok_def mail_job_def)

theorem work_effect_once_witness:
  "exec second_run released no_effect (ws_db mail_state) = Inr (mail_db [released (again_row False)]) \<and>
   latest_claim ''m1'' (ws_log mail_state) = Some 2 \<and> exec first_run released no_effect (ws_db mail_state) = Inl ErrLost \<and>
   Done ''m1'' \<in> set (ws_log mail_done_state) \<and> Done ''m1'' \<notin> set (tl (ws_log mail_done_state))"
proof (intro conjI)
  show c: "exec second_run released no_effect (ws_db mail_state) = Inr (mail_db [released (again_row False)])"
    by (simp add: mail_state_def work_defs mail_defs)
  show "latest_claim ''m1'' (ws_log mail_state) = Some 2"
    using work_effect_once [OF mail_reachable(1) mail_jobs_ok] c by fastforce
  show "exec first_run released no_effect (ws_db mail_state) = Inl ErrLost"
    by (simp add: mail_state_def work_defs mail_defs)
  show "Done ''m1'' \<in> set (ws_log mail_done_state)" "Done ''m1'' \<notin> set (tl (ws_log mail_done_state))"
    by (simp_all add: mail_done_state_def mail_log_def)
qed

theorem work_no_second_call_witness: "\<exists>why. Cleared ''m1'' why \<in> {Cleared ''m1'' (ByEnd False (Plain ''timeout''))} \<and> clears_mark why"
  using work_no_second_call [OF mail_reachable(1) mail_jobs_ok, of "[]" "''m1''" 2 "[Cleared ''m1'' (ByEnd False (Plain ''timeout''))]" "[Claimed ''m1'' 1, Inserted ''m1'' Queue]"]
  by (simp add: mail_state_def mail_log_def)

theorem work_unknown_lost_witness:
  "(\<exists>y. map_of (be_work_item (fail False first_run (Plain ''timeout'') 0 (mail_db [running_row 1 True 0]))) ''m1'' = Some y \<and>
      wi_state y = ''retry_wait'' \<and> \<not> wi_outcome_unknown y)"
  using work_unknown_lost [of "mail_db [running_row 1 True 0]" "''m1''" "running_row 1 True 0" 0]
  by (auto simp: guard_def mail_defs item_of_def)

end
