(* ===== verification/Spec2Isabelle.thy ===== *)
theory Spec2Isabelle
  imports
    SDK_Prelude
    Reserve
    Reserve_Correct
    Reserve_Stock
    Epochs
    Streams
    Projection
    Projection_Correct
    Watermark_Decide
    Watermark
    Watermark_Correct
    Errs
    Calls
    Calls_Correct
    Transactions
    Sha256
    Canon
    Canon_Correct
    Authz
    Authz_Sql
    Authz_Correct
    Authz_View
    Authz_View_Correct
    Extcmd
    Extcmd_Run
    Extcmd_Reconcile
    Extcmd_Frame
    Extcmd_Correct
    Extcmd_Safety
    Money
    Batches
    Idem
    Idem_Correct
    Cron
    Cron_Correct
    Work
    Work_Correct
    Work_Safety
    Work_Once
begin

text \<open>
  A verification of the Go runtime for business components \<open>be-sdk-go\<close>.

  \<^bold>\<open>The program.\<close> A component keeps its tables in PostgreSQL and talks to other members by calls and
  events. The runtime gives it: transactions with retries, cutoffs and hooks (\<open>db\<close>); errors with
  one meaning over HTTP and gRPC (\<open>errs\<close>); outgoing calls with attempts, a budget and a circuit
  breaker (\<open>calls\<close>); reservations of its resources for others (\<open>reserve\<close>); local copies of the records of
  others, fed by event streams and re-fetched when they cannot be trusted (\<open>projection\<close>, with the
  streams and epochs of \<open>events\<close>); commands to external systems that must not be sent twice
  (\<open>extcmd\<close>); idempotency keys for its own commands (\<open>idem\<close>); background jobs with leases and cron schedules (\<open>work\<close>); authorization of single records
  and of list queries from a view that is verified every few seconds (\<open>authz\<close>, \<open>guard\<close>, \<open>reqctx\<close>);
  and a canonical encoding with digests that the other parts store and compare (\<open>canon\<close>).

  \<^bold>\<open>How code is modelled.\<close> A struct is a record, an enumeration a datatype or its text, an error a
  value of a sum or an option. A table is an association list by its primary key, a transaction a
  function of the tables that commits or leaves them; a Go map is an association list. The clock,
  generated identities, rows locked by others, answers of other members and callbacks of the
  component are arguments. What other transactions commit between two transactions of an operation is a
  sequence of interfering steps or a step relation with every interleaving. Integers are unbounded
  where the code cannot reach the width and wrapped at 64 bits where it can; the loops of the code
  are total functions with a termination proof.

  \<^bold>\<open>Theories.\<close>
  \<^item> \<open>SDK_Prelude\<close>: the standard library as the sources use it (text splitting, integers and their
    text, instants), and the interfaces the components share as locales: machines that keep an invariant, only move
    forward, or stop in final states; three-way comparisons and orders by a key; doubling delays.
  \<^item> \<open>Transactions\<close> (\<open>db/tx.go\<close>): \<open>run\<close> with its attempts, the cutoff check, the wait for the budget, hooks
    and error mapping. A transaction takes effect once or not at all.
  \<^item> \<open>Errs\<close> (\<open>errs\<close>): the catalogue and the mappings to and from problem documents and gRPC statuses.
    Catalogue errors survive the round trip, internal errors show nothing.
  \<^item> \<open>Calls\<close>, \<open>Calls_Correct\<close> (\<open>calls\<close>): \<open>Dependency.do\<close> as \<open>do_call\<close>, the policy and the breaker. Bounded attempts,
    the answer upward, when the breaker opens, rejects and closes.
  \<^item> \<open>Reserve\<close>, \<open>Reserve_Correct\<close>, \<open>Reserve_Stock\<close> (\<open>reserve\<close>): the transition table, the commands of a \<open>Kind\<close> and the
    expiry job. Stock is conserved over any sequence of operations, commands refine the table, rows
    only move forward, repetitions answer from what is stored, the expiry job ends and leaves nothing due.
  \<^item> \<open>Epochs\<close>, \<open>Streams\<close> (\<open>events\<close>): epochs with their four orders, which agree, and their text; stream
    declarations and partitions.
  \<^item> \<open>Projection\<close>, \<open>Projection_Correct\<close> (\<open>projection/projection.go\<close>, \<open>align.go\<close>): receiving inputs and re-fetching.
    Inputs in any order leave the largest version; an alignment ends with exactly the source's records.
  \<^item> \<open>Watermark_Decide\<close>, \<open>Watermark\<close>, \<open>Watermark_Correct\<close> (\<open>projection/decide.go\<close>, \<open>watermark.go\<close>): decision tables and the
    consumer of a source with echoes. Positions and identities only move forward, rollbacks and blocks end
    only as documented, a usable judgement is fresh; one theorem shows a re-fetch that never ends.
  \<^item> \<open>Sha256\<close>, \<open>Canon\<close>, \<open>Canon_Correct\<close> (\<open>canon/canon.go\<close>): the encoding, written out down to SHA-256. Different
    records never hash the same text.
  \<^item> \<open>Extcmd\<close>, \<open>Extcmd_Run\<close>, \<open>Extcmd_Reconcile\<close> (\<open>extcmd\<close>): the state table, requests, the job that sends and queries,
    registration, and the reconciliation after a recovery. \<open>Extcmd_Frame\<close>, \<open>Extcmd_Correct\<close>, \<open>Extcmd_Safety\<close>: when a
    send can happen, states and their times, terminal commands, repeated requests, matching; and three
    behaviours that differ from what the sources say.
  \<^item> \<open>Authz\<close>, \<open>Authz_Sql\<close>, \<open>Authz_Correct\<close> (\<open>authz/defs.go\<close>, \<open>segment.go\<close>, \<open>eval.go\<close>, \<open>sql.go\<close>): declarations, segments, the
    decision on a record and the compiler to SQL, with the text and the meaning of conditions. Both
    say the same. \<open>Authz_View\<close>, \<open>Authz_View_Correct\<close> (\<open>authz/view.go\<close>, \<open>refuse.go\<close>, \<open>subject.go\<close>, \<open>guard\<close>): the verified
    view and requests. How long a revoked right can still be used; segments without a resource type.
  \<^item> \<open>Money\<close> (\<open>money/money.go\<close>): allocation by largest remainders, exact and fair; with a negative scale it is not exact.
  \<^item> \<open>Batches\<close> (\<open>db/batch.go\<close>): deleting in batches, equal to deleting at once. \<open>Idem\<close>, \<open>Idem_Correct\<close> (\<open>idem\<close>): keys,
    fingerprints and \<open>Do\<close> over \<open>Transactions.run\<close>. A command runs once per key.
  \<^item> \<open>Cron\<close>, \<open>Cron_Correct\<close> (\<open>work/cron.go\<close>): parsing, slots, the next slot, the plan; the locale \<open>slot_source\<close> is
    what work items rely on. The calendar counts days in the order of dates, and no slot is missed. \<open>Work\<close> (\<open>work/job.go\<close>, \<open>run.go\<close>, \<open>runner.go\<close>, \<open>operator.go\<close>, \<open>db/batch.go\<close>): items, claims, guarded commits, failures,
    operators, cleanup. \<open>Work_Correct\<close>, \<open>Work_Safety\<close>, \<open>Work_Once\<close>: the step relation with its log and
    invariant, and the guarantees: effects under the latest claim, done once, calls not repeated.

  \<^bold>\<open>Bounds.\<close> A transaction is attempted \<open>maxAttempts\<close> times and a call at most three times, as in the
  code; their loops recurse on what is left. Loops over batches and pages decrease the rows that are
  left, or take the number of answers of the other side as an argument; searches over time decrease the interval. No
  definition runs out of fuel.

  \<^bold>\<open>Not modelled.\<close> Network, files, object storage, pools, migrations, metrics and logging, process
  start and configuration (\<open>shell\<close>, \<open>launcher\<close>, \<open>internal/host\<close>, \<open>config\<close>, \<open>obs\<close>): calls of other systems with no rule of their own.
  Generated protocol code. Cryptography of tokens and signatures (\<open>identity\<close>, \<open>internal/s3sig\<close>). Third-party
  packages: Unicode normalization, regular expressions, routing, the NATS client. Of packages that are modelled in part, the
  rest is listed with the component. Goroutines and timers appear only as the order of steps.
\<close>

end
